(* ===== verification/Prelude.thy ===== *)
theory Prelude
  imports Main "HOL-Library.Word"
begin

text \<open>
  The vocabulary shared by every theory of the development.

  A C++ call either returns a value or fails.  A failure is an exception, kept apart by its
  class (\<open>Throw\<close>), or a step the C++ standard leaves undefined (\<open>UB\<close>): an
  index outside a vector, a null pointer used as an object.  \<open>outcome\<close> is the result of
  such a call, \<open>bind\<close> runs the next statement when the first one returned, and the
  reading functions below write the failure of \<open>operator[]\<close>, \<open>at\<close> and
  \<open>substr\<close> out.

  A byte string (\<open>std::string\<close>, \<open>std::string_view\<close>) is a HOL \<open>string\<close>:
  a HOL \<open>char\<close> is one of 256 values, as a C++ \<open>char\<close> is.
\<close>

section \<open>Outcomes\<close>

datatype exn =
    Out_of_range
  | Invalid_argument
  | Bad_optional_access
  | Bad_lexical_cast
  | Runtime_error
  | Json_type_error
  | Json_out_of_range
  | Json_parse_error
  | System_error
  | Dbus_error
  | Std_exception

datatype fault = Throw exn | UB

type_synonym 'a outcome = "fault + 'a"

definition bind :: "'a outcome \<Rightarrow> ('a \<Rightarrow> 'b outcome) \<Rightarrow> 'b outcome" where
  "bind m f = (case m of Inl e \<Rightarrow> Inl e | Inr x \<Rightarrow> f x)"

definition returns :: "'a outcome \<Rightarrow> bool" where
  "returns m = (case m of Inl e \<Rightarrow> False | Inr x \<Rightarrow> True)"

text \<open>\<open>mapM\<close> runs a fallible step over a list and stops at the first failure;
  \<open>foldM\<close> threads a state through the steps.\<close>

fun mapM :: "('a \<Rightarrow> 'b outcome) \<Rightarrow> 'a list \<Rightarrow> 'b list outcome" where
  "mapM f [] = Inr []"
| "mapM f (x # xs) = bind (f x) (\<lambda>y. bind (mapM f xs) (\<lambda>ys. Inr (y # ys)))"

fun foldM :: "('s \<Rightarrow> 'a \<Rightarrow> 's outcome) \<Rightarrow> 's \<Rightarrow> 'a list \<Rightarrow> 's outcome" where
  "foldM f s [] = Inr s"
| "foldM f s (x # xs) = bind (f s x) (\<lambda>s'. foldM f s' xs)"

section \<open>Commands\<close>

text \<open>A call that acts on a world: a process it starts, a message it sends.  The world a failed
  command leaves is kept.\<close>

type_synonym ('w, 'a) cmd = "'w \<Rightarrow> 'a outcome \<times> 'w"

definition cret :: "'a \<Rightarrow> ('w, 'a) cmd" where
  "cret x w = (Inr x, w)"

definition cfail :: "fault \<Rightarrow> ('w, 'a) cmd" where
  "cfail e w = (Inl e, w)"

definition clift :: "'a outcome \<Rightarrow> ('w, 'a) cmd" where
  "clift m w = (m, w)"

definition cbind :: "('w, 'a) cmd \<Rightarrow> ('a \<Rightarrow> ('w, 'b) cmd) \<Rightarrow> ('w, 'b) cmd" where
  "cbind c f w = (case c w of (Inl e, w') \<Rightarrow> (Inl e, w') | (Inr x, w') \<Rightarrow> f x w')"

fun cfor :: "('a \<Rightarrow> ('w, unit) cmd) \<Rightarrow> 'a list \<Rightarrow> ('w, unit) cmd" where
  "cfor f [] = cret ()"
| "cfor f (x # xs) = cbind (f x) (\<lambda>_. cfor f xs)"

section \<open>Reading containers\<close>

definition vec_get :: "'a list \<Rightarrow> nat \<Rightarrow> 'a outcome" where
  "vec_get xs i = (if i < length xs then Inr (xs ! i) else Inl UB)"

definition opt_value :: "'a option \<Rightarrow> 'a outcome" where
  "opt_value x = (case x of None \<Rightarrow> Inl (Throw Bad_optional_access) | Some v \<Rightarrow> Inr v)"

text \<open>The position of the first element that satisfies a predicate: \<open>std::find_if\<close>
  and \<open>std::string::find\<close>, with None for the end iterator and \<open>npos\<close>.\<close>

fun find_pos :: "('a \<Rightarrow> bool) \<Rightarrow> 'a list \<Rightarrow> nat option" where
  "find_pos p [] = None"
| "find_pos p (x # xs) = (if p x then Some 0 else map_option Suc (find_pos p xs))"

text \<open>The position of the first occurrence of a substring.\<close>

fun find_sub :: "string \<Rightarrow> string \<Rightarrow> nat option" where
  "find_sub pat [] = (if pat = [] then Some 0 else None)"
| "find_sub pat (c # cs) =
     (if take (length pat) (c # cs) = pat then Some 0
      else map_option Suc (find_sub pat cs))"

text \<open>\<open>s.substr(pos, len)\<close> throws when \<open>pos\<close> is past the end, and clips
  \<open>len\<close>.\<close>

definition substr :: "string \<Rightarrow> nat \<Rightarrow> nat \<Rightarrow> string outcome" where
  "substr s pos len =
     (if pos \<le> length s then Inr (take len (drop pos s)) else Inl (Throw Out_of_range))"

definition substr_from :: "string \<Rightarrow> nat \<Rightarrow> string outcome" where
  "substr_from s pos =
     (if pos \<le> length s then Inr (drop pos s) else Inl (Throw Out_of_range))"

text \<open>A string handed over as a \<open>const char*\<close>: its characters before the first NUL.\<close>

definition c_str :: "string \<Rightarrow> string" where
  "c_str s = takeWhile (\<lambda>c. c \<noteq> CHR 0x00) s"

named_theorems outcome_simps \<open>unfolding of outcomes\<close>

section \<open>Outcome lemmas\<close>

lemma bind_Inr [simp]: "bind (Inr x) f = f x"
  by (simp add: bind_def)

lemma bind_Inl [simp]: "bind (Inl e) f = Inl e"
  by (simp add: bind_def)

lemma bind_assoc: "bind (bind m f) g = bind m (\<lambda>x. bind (f x) g)"
  by (cases m) simp_all

lemma bind_Inr_right [simp]: "bind m Inr = m"
  by (cases m) simp_all

lemma bind_eq_Inr_iff [outcome_simps]:
  "bind m f = Inr y \<longleftrightarrow> (\<exists>x. m = Inr x \<and> f x = Inr y)"
  by (cases m) auto

lemma bind_eq_Inl_iff [outcome_simps]:
  "bind m f = Inl e \<longleftrightarrow> m = Inl e \<or> (\<exists>x. m = Inr x \<and> f x = Inl e)"
  by (cases m) auto

lemma returns_Inr [simp]: "returns (Inr x)"
  by (simp add: returns_def)

lemma returns_Inl [simp]: "\<not> returns (Inl e)"
  by (simp add: returns_def)

lemma returns_iff: "returns m \<longleftrightarrow> (\<exists>x. m = Inr x)"
  by (cases m) auto

lemma returns_bind: "returns (bind m f) \<longleftrightarrow> (\<exists>x. m = Inr x \<and> returns (f x))"
  by (cases m) auto

lemma mapM_Inr: "mapM (\<lambda>x. Inr (g x)) xs = Inr (map g xs)"
  by (induction xs) simp_all

lemma mapM_map_inverse:
  assumes "\<And>x. x \<in> set xs \<Longrightarrow> f (g x) = Inr x"
  shows "mapM f (map g xs) = Inr xs"
  using assms by (induction xs) simp_all

lemma mapM_length: "mapM f xs = Inr ys \<Longrightarrow> length ys = length xs"
  by (induction xs arbitrary: ys) (auto simp: outcome_simps)

lemma mapM_list_all2: "mapM f xs = Inr ys \<longleftrightarrow> list_all2 (\<lambda>x y. f x = Inr y) xs ys"
  by (induction xs arbitrary: ys) (auto simp: outcome_simps list_all2_Cons1)

lemma foldM_append: "foldM f s (xs @ ys) = bind (foldM f s xs) (\<lambda>s'. foldM f s' ys)"
  by (induction xs arbitrary: s) (simp_all add: bind_assoc)

lemma foldM_invariant:
  assumes "foldM f s xs = Inr s'" and "P s"
    and "\<And>s x s'. P s \<Longrightarrow> f s x = Inr s' \<Longrightarrow> P s'"
  shows "P s'"
  using assms(1,2)
proof (induction xs arbitrary: s)
  case Nil
  then show ?case by simp
next
  case (Cons x xs)
  then show ?case using assms(3) by (auto simp: outcome_simps)
qed

lemma cmd_simps [simp]:
  "cbind (cret x) f = f x"
  "cbind (cfail e) f = cfail e"
  "cbind c cret = c"
  by (rule ext, simp add: cbind_def cret_def cfail_def split: prod.splits sum.splits)+

lemma cret_apply [simp]: "cret x w = (Inr x, w)" by (simp add: cret_def)

lemma cfail_apply [simp]: "cfail e w = (Inl e, w)" by (simp add: cfail_def)

lemma clift_apply [simp]: "clift m w = (m, w)" by (simp add: clift_def)

lemma cbind_assoc: "cbind (cbind c f) g = cbind c (\<lambda>x. cbind (f x) g)"
  by (rule ext, simp add: cbind_def split: prod.splits sum.splits)

lemma cbind_Inr: "c w = (Inr x, w') \<Longrightarrow> cbind c f w = f x w'"
  by (simp add: cbind_def)

lemma cbind_Inl: "c w = (Inl e, w') \<Longrightarrow> cbind c f w = (Inl e, w')"
  by (simp add: cbind_def)

section \<open>Reading lemmas\<close>

lemma vec_get_in [simp]: "i < length xs \<Longrightarrow> vec_get xs i = Inr (xs ! i)"
  by (simp add: vec_get_def)

lemma vec_get_out [simp]: "length xs \<le> i \<Longrightarrow> vec_get xs i = Inl UB"
  by (simp add: vec_get_def)

lemma opt_value_simps [simp]:
  "opt_value None = Inl (Throw Bad_optional_access)"
  "opt_value (Some v) = Inr v"
  by (simp_all add: opt_value_def)

lemma find_pos_None_iff: "find_pos p xs = None \<longleftrightarrow> (\<forall>x \<in> set xs. \<not> p x)"
  by (induction xs) auto

lemma find_pos_SomeD:
  "find_pos p xs = Some i \<Longrightarrow> i < length xs \<and> p (xs ! i) \<and> (\<forall>j < i. \<not> p (xs ! j))"
proof (induction xs arbitrary: i)
  case Nil
  then show ?case by simp
next
  case (Cons x xs)
  show ?case
  proof (cases "p x")
    case True
    with Cons.prems show ?thesis by simp
  next
    case False
    with Cons.prems obtain k where k: "find_pos p xs = Some k" "i = Suc k" by auto
    from Cons.IH [OF k(1)] show ?thesis
      using False k(2) by (auto simp: less_Suc_eq_0_disj)
  qed
qed

lemma find_pos_take_none: "find_pos p xs = Some i \<Longrightarrow> \<forall>x \<in> set (take i xs). \<not> p x"
  using find_pos_SomeD [of p xs i] by (auto simp: in_set_conv_nth)

lemma find_pos_append:
  "find_pos p (xs @ ys) =
     (case find_pos p xs of Some i \<Rightarrow> Some i | None \<Rightarrow> map_option ((+) (length xs)) (find_pos p ys))"
proof (induction xs)
  case Nil
  show ?case by (cases "find_pos p ys") simp_all
next
  case (Cons x xs)
  then show ?case by (cases "find_pos p xs"; cases "find_pos p ys") auto
qed

lemma find_pos_append_hit:
  "\<forall>x \<in> set xs. \<not> p x \<Longrightarrow> p y \<Longrightarrow> find_pos p (xs @ y # ys) = Some (length xs)"
  by (induction xs) auto

lemma find_pos_length_takeWhile:
  "find_pos p xs = (if \<exists>x \<in> set xs. p x then Some (length (takeWhile (\<lambda>x. \<not> p x) xs)) else None)"
  by (induction xs) auto

lemma find_pos_split:
  "find_pos p xs = Some i \<Longrightarrow> xs = take i xs @ xs ! i # drop (Suc i) xs"
  using find_pos_SomeD [of p xs i] by (simp add: id_take_nth_drop)

lemma takeWhile_until: "sep \<notin> set p \<Longrightarrow> takeWhile (\<lambda>c. c \<noteq> sep) (p @ sep # s) = p"
  by (induction p) auto

lemma dropWhile_until: "sep \<notin> set p \<Longrightarrow> dropWhile (\<lambda>c. c \<noteq> sep) (p @ sep # s) = sep # s"
  by (induction p) auto

lemma takeWhile_all: "(\<And>x. x \<in> set xs \<Longrightarrow> P x) \<Longrightarrow> takeWhile P xs = xs"
  by (induction xs) auto

lemma find_sub_single: "find_sub [c] s = find_pos (\<lambda>x. x = c) s"
  by (induction s) auto

lemma find_sub_SomeD: "find_sub pat s = Some i \<Longrightarrow> take (length pat) (drop i s) = pat"
proof (induction s arbitrary: i)
  case Nil
  then show ?case by (auto split: if_splits)
next
  case (Cons c cs)
  show ?case
  proof (cases "take (length pat) (c # cs) = pat")
    case True
    with Cons.prems show ?thesis by simp
  next
    case False
    with Cons.prems obtain k where "find_sub pat cs = Some k" "i = Suc k" by auto
    with Cons.IH show ?thesis by simp
  qed
qed

lemma c_str_id: "CHR 0x00 \<notin> set s \<Longrightarrow> c_str s = s"
  unfolding c_str_def by (rule takeWhile_all) metis

end
