(* ===== verification/Ljh_Strings.thy ===== *)
theory Ljh_Strings
  imports Prelude
begin

text \<open>
  The string helpers of the ljh library the server and the client are written with
  (\<open>externals/ljh/include/ljh/string_utils.hpp\<close> and \<open>get_index.hpp\<close>): trimming,
  and splitting at a character or at a string literal, in the \<open>std::string\<close> and in the
  \<open>std::string_view\<close> versions.  The lemmas characterise \<open>split\<close> completely: it
  is inverse to joining, its pieces hold no separator, and a bound of two or more elements is kept.
\<close>

section \<open>get_index.hpp\<close>

text \<open>\<open>std::distance(first, std::find(first, last, val))\<close>: the length when there is
  no such element.\<close>

definition get_index :: "'a list \<Rightarrow> 'a \<Rightarrow> nat" where
  "get_index xs v = (case find_pos (\<lambda>x. x = v) xs of Some i \<Rightarrow> i | None \<Rightarrow> length xs)"

definition get_index_if :: "'a list \<Rightarrow> ('a \<Rightarrow> bool) \<Rightarrow> nat" where
  "get_index_if xs p = (case find_pos p xs of Some i \<Rightarrow> i | None \<Rightarrow> length xs)"

section \<open>Trimming\<close>

text \<open>\<open>std::isspace\<close> in the C locale.\<close>

definition isspace :: "char \<Rightarrow> bool" where
  "isspace c = (let n = (of_char c :: nat) in n = 32 \<or> (9 \<le> n \<and> n \<le> 13))"

definition ltrim :: "string \<Rightarrow> string" where
  "ltrim s = dropWhile isspace s"

text \<open>The erased range of \<open>rtrim\<close> starts at the \<open>base()\<close> of the first reverse
  iterator that is not a space.\<close>

definition rtrim :: "string \<Rightarrow> string" where
  "rtrim s = rev (dropWhile isspace (rev s))"

definition trim :: "string \<Rightarrow> string" where
  "trim s = rtrim (ltrim s)"

text \<open>The \<open>string_view\<close> versions count instead of erasing: \<open>remove_prefix\<close> and
  \<open>remove_suffix\<close> by the index of the first character that is not a space.\<close>

definition ltrim_view :: "string \<Rightarrow> string" where
  "ltrim_view s = drop (get_index_if s (\<lambda>c. \<not> isspace c)) s"

definition rtrim_view :: "string \<Rightarrow> string" where
  "rtrim_view s = take (length s - get_index_if (rev s) (\<lambda>c. \<not> isspace c)) s"

definition trim_view :: "string \<Rightarrow> string" where
  "trim_view s = rtrim_view (ltrim_view s)"

section \<open>Splitting\<close>

text \<open>
  The loop of \<open>split(s, separator, max_elements)\<close>.  \<open>n\<close> is \<open>output.size()\<close>
  before the iteration and \<open>s\<close> is the part of the string from \<open>prev_pos\<close> on.  The
  break tests \<open>output.size() == max_elements - 1\<close> after the push, on unsigned values:
  with \<open>max_elements = 0\<close> the right side is the largest \<open>size_t\<close>, a size no vector
  reaches, so there the test is never true, as here.
\<close>

function split_loop :: "char \<Rightarrow> nat \<Rightarrow> nat \<Rightarrow> string \<Rightarrow> string list" where
  "split_loop sep mx n s =
     (case find_pos (\<lambda>c. c = sep) s of
        None \<Rightarrow> [s]
      | Some i \<Rightarrow>
          take i s #
            (if Suc (Suc n) = mx then [drop (Suc i) s]
             else split_loop sep mx (Suc n) (drop (Suc i) s)))"
  by pat_completeness auto
termination
  by (relation "measure (\<lambda>(sep, mx, n, s). length s)") (auto dest: find_pos_SomeD)

definition split :: "string \<Rightarrow> char \<Rightarrow> nat \<Rightarrow> string list" where
  "split s sep mx = split_loop sep mx 0 s"

text \<open>The \<open>string_view\<close> version of the character split walks the same positions; here
  it is written with the positions themselves: \<open>prev\<close> is \<open>prev_pos\<close>, and
  \<open>find(separator, pos)\<close> searches from \<open>prev\<close>.\<close>

definition find_from :: "char \<Rightarrow> string \<Rightarrow> nat \<Rightarrow> nat option" where
  "find_from sep s pos = map_option ((+) pos) (find_pos (\<lambda>c. c = sep) (drop pos s))"

lemma find_from_bound: "find_from sep s pos = Some i \<Longrightarrow> pos \<le> i \<and> i < length s"
  by (auto simp: find_from_def dest: find_pos_SomeD)

function split_view_loop :: "char \<Rightarrow> nat \<Rightarrow> string \<Rightarrow> nat \<Rightarrow> string list \<Rightarrow> string list" where
  "split_view_loop sep mx s prev outp =
     (case find_from sep s prev of
        None \<Rightarrow> outp @ [drop prev s]
      | Some pos \<Rightarrow>
          (let out' = outp @ [take (pos - prev) (drop prev s)]
           in if Suc (length out') = mx then out' @ [drop (Suc pos) s]
              else split_view_loop sep mx s (Suc pos) out'))"
  by pat_completeness auto
termination
  by (relation "measure (\<lambda>(sep, mx, s, prev, outp). length s - prev)")
     (auto dest: find_from_bound)

definition split_view :: "string \<Rightarrow> char \<Rightarrow> nat \<Rightarrow> string list" where
  "split_view s sep mx = split_view_loop sep mx s 0 []"

text \<open>The version for a string literal \<open>const C (&separator)[S]\<close>: \<open>S - 1\<close> is
  the literal's length.  The literal is given by its first character and the rest, because with an
  empty literal the loop of the source does not advance.\<close>

function split_str_loop :: "char \<Rightarrow> string \<Rightarrow> nat \<Rightarrow> nat \<Rightarrow> string \<Rightarrow> string list" where
  "split_str_loop c cs mx n s =
     (case find_sub (c # cs) s of
        None \<Rightarrow> [s]
      | Some i \<Rightarrow>
          take i s #
            (if Suc (Suc n) = mx then [drop (i + Suc (length cs)) s]
             else split_str_loop c cs mx (Suc n) (drop (i + Suc (length cs)) s)))"
  by pat_completeness auto
termination
proof (relation "measure (\<lambda>(c, cs, mx, n, s). length s)", simp)
  fix c cs and mx n :: nat and s i
  assume "find_sub (c # cs) s = Some i"
  then have "take (length (c # cs)) (drop i s) = c # cs"
    by (rule find_sub_SomeD)
  then have "drop i s \<noteq> []" by auto
  then show "((c, cs, mx, Suc n, drop (i + Suc (length cs)) s), (c, cs, mx, n, s))
               \<in> measure (\<lambda>(c, cs, mx, n, s). length s)" by simp
qed

definition split_str :: "string \<Rightarrow> char \<Rightarrow> string \<Rightarrow> nat \<Rightarrow> string list" where
  "split_str s c cs mx = split_str_loop c cs mx 0 s"

text \<open>Joining pieces with a separator: what \<open>split\<close> inverts.\<close>

fun join :: "char \<Rightarrow> string list \<Rightarrow> string" where
  "join sep [] = []"
| "join sep [p] = p"
| "join sep (p # q # ps) = p @ sep # join sep (q # ps)"

declare split_loop.simps [simp del] split_view_loop.simps [simp del]
  split_str_loop.simps [simp del]

section \<open>Lemmas on indices and trimming\<close>

lemma get_index_in: "v \<in> set xs \<Longrightarrow> get_index xs v < length xs \<and> xs ! get_index xs v = v"
  by (cases "find_pos (\<lambda>x. x = v) xs")
     (auto simp: get_index_def find_pos_None_iff dest: find_pos_SomeD)

lemma get_index_notin: "v \<notin> set xs \<Longrightarrow> get_index xs v = length xs"
proof -
  assume "v \<notin> set xs"
  then have "find_pos (\<lambda>x. x = v) xs = None" by (auto simp: find_pos_None_iff)
  then show ?thesis by (simp add: get_index_def)
qed

lemma get_index_less_iff: "get_index xs v < length xs \<longleftrightarrow> v \<in> set xs"
  using get_index_in get_index_notin by (metis less_irrefl)

lemma get_index_nth: "distinct xs \<Longrightarrow> i < length xs \<Longrightarrow> get_index xs (xs ! i) = i"
  using get_index_in [of "xs ! i" xs] nth_eq_iff_index_eq [of xs "get_index xs (xs ! i)" i] by simp

lemma get_index_if_takeWhile: "get_index_if xs p = length (takeWhile (\<lambda>x. \<not> p x) xs)"
proof (cases "\<exists>x \<in> set xs. p x")
  case True
  then show ?thesis by (simp add: get_index_if_def find_pos_length_takeWhile)
next
  case False
  then have all: "takeWhile (\<lambda>x. \<not> p x) xs = xs" by (metis takeWhile_eq_all_conv)
  from False have none: "find_pos p xs = None" by (simp add: find_pos_None_iff)
  show ?thesis unfolding get_index_if_def all none by simp
qed

lemma ltrim_view_eq: "ltrim_view s = ltrim s"
  by (simp add: ltrim_view_def ltrim_def get_index_if_takeWhile dropWhile_eq_drop)

lemma rtrim_view_eq: "rtrim_view s = rtrim s"
proof -
  let ?t = "takeWhile isspace (rev s)"
  have "rtrim_view s = take (length s - length ?t) s"
    by (simp add: rtrim_view_def get_index_if_takeWhile)
  also have "\<dots> = rev (drop (length ?t) (rev s))"
    by (simp add: rev_drop)
  also have "\<dots> = rtrim s"
    by (simp add: rtrim_def dropWhile_eq_drop)
  finally show ?thesis .
qed

lemma trim_view_eq: "trim_view s = trim s"
  by (simp add: trim_view_def trim_def ltrim_view_eq rtrim_view_eq)

lemma rtrim_Nil [simp]: "rtrim [] = []"
  by (simp add: rtrim_def)

lemma rtrim_no_space: "s \<noteq> [] \<Longrightarrow> \<not> isspace (last s) \<Longrightarrow> rtrim s = s"
  by (cases s rule: rev_cases) (auto simp: rtrim_def)

lemma rtrim_prefix: "\<exists>t. s = rtrim s @ t \<and> (\<forall>c \<in> set t. isspace c)"
proof -
  have "rev s = takeWhile isspace (rev s) @ dropWhile isspace (rev s)" by simp
  then have "s = rtrim s @ rev (takeWhile isspace (rev s))"
    unfolding rtrim_def by (metis rev_append rev_rev_ident)
  then show ?thesis by (metis set_rev set_takeWhileD)
qed

lemma rtrim_idem: "rtrim (rtrim s) = rtrim s"
  by (simp add: rtrim_def)

section \<open>Lemmas on splitting\<close>

lemma join_Cons: "ps \<noteq> [] \<Longrightarrow> join sep (p # ps) = p @ sep # join sep ps"
  by (cases ps) simp_all

lemma split_loop_nonempty [simp]: "split_loop sep mx n s \<noteq> []"
  by (subst split_loop.simps) (simp split: option.splits)

lemma join_split_loop: "join sep (split_loop sep mx n s) = s"
proof (induction sep mx n s rule: split_loop.induct)
  case (1 sep mx n s)
  show ?case
  proof (cases "find_pos (\<lambda>c. c = sep) s")
    case None
    then show ?thesis by (simp add: split_loop.simps [of sep mx n s])
  next
    case (Some i)
    have cut: "take i s @ sep # drop (Suc i) s = s"
      using find_pos_split [OF Some] find_pos_SomeD [OF Some] by simp
    show ?thesis
    proof (cases "Suc (Suc n) = mx")
      case True
      with Some cut show ?thesis by (simp add: split_loop.simps [of sep mx n s])
    next
      case False
      with 1 [OF Some False] Some cut show ?thesis
        by (simp add: split_loop.simps [of sep mx n s] join_Cons)
    qed
  qed
qed

lemma join_split: "join sep (split s sep mx) = s"
  by (simp add: split_def join_split_loop)

lemma split_loop_length:
  "Suc n < mx \<Longrightarrow> n + length (split_loop sep mx n s) \<le> mx"
proof (induction sep mx n s rule: split_loop.induct)
  case (1 sep mx n s)
  show ?case
  proof (cases "find_pos (\<lambda>c. c = sep) s")
    case None
    with "1.prems" show ?thesis by (simp add: split_loop.simps [of sep mx n s])
  next
    case (Some i)
    show ?thesis
    proof (cases "Suc (Suc n) = mx")
      case True
      with Some show ?thesis by (simp add: split_loop.simps [of sep mx n s])
    next
      case False
      with "1.IH" [OF Some False] "1.prems" Some show ?thesis
        by (simp add: split_loop.simps [of sep mx n s])
    qed
  qed
qed

lemma split_nonempty [simp]: "split s sep mx \<noteq> []"
  by (simp add: split_def)

lemma split_length_bound: "2 \<le> mx \<Longrightarrow> length (split s sep mx) \<le> mx"
  using split_loop_length [of 0 mx sep s] by (simp add: split_def)

lemma split_loop_pieces:
  "mx \<le> Suc n \<Longrightarrow> p \<in> set (split_loop sep mx n s) \<Longrightarrow> sep \<notin> set p"
proof (induction sep mx n s rule: split_loop.induct)
  case (1 sep mx n s)
  show ?case
  proof (cases "find_pos (\<lambda>c. c = sep) s")
    case None
    with "1.prems" show ?thesis
      by (auto simp: split_loop.simps [of sep mx n s] find_pos_None_iff)
  next
    case (Some i)
    have go: "Suc (Suc n) \<noteq> mx" using "1.prems"(1) by simp
    with "1.prems"(2) Some have "p = take i s \<or> p \<in> set (split_loop sep mx (Suc n) (drop (Suc i) s))"
      by (simp add: split_loop.simps [of sep mx n s])
    then show ?thesis
    proof
      assume "p = take i s"
      with find_pos_take_none [OF Some] show ?thesis by auto
    next
      assume "p \<in> set (split_loop sep mx (Suc n) (drop (Suc i) s))"
      with "1.IH" [OF Some go] "1.prems"(1) show ?thesis by simp
    qed
  qed
qed

lemma split_pieces: "p \<in> set (split s sep 0) \<Longrightarrow> sep \<notin> set p"
  unfolding split_def by (rule split_loop_pieces) simp_all

lemma split_loop_no_sep: "sep \<notin> set s \<Longrightarrow> split_loop sep mx n s = [s]"
proof -
  assume "sep \<notin> set s"
  then have "find_pos (\<lambda>c. c = sep) s = None" by (auto simp: find_pos_None_iff)
  then show ?thesis by (simp add: split_loop.simps [of sep mx n s])
qed

lemma split_loop_hit:
  "sep \<notin> set p \<Longrightarrow>
   split_loop sep mx n (p @ sep # s) =
     p # (if Suc (Suc n) = mx then [s] else split_loop sep mx (Suc n) s)"
proof -
  assume "sep \<notin> set p"
  then have "find_pos (\<lambda>c. c = sep) (p @ sep # s) = Some (length p)"
    by (intro find_pos_append_hit) auto
  then show ?thesis by (simp add: split_loop.simps [of sep mx n "p @ sep # s"])
qed

lemma split_no_sep: "sep \<notin> set s \<Longrightarrow> split s sep mx = [s]"
  by (simp add: split_def split_loop_no_sep)

lemma split_two: "sep \<notin> set p \<Longrightarrow> split (p @ sep # s) sep 2 = [p, s]"
  by (simp add: split_def split_loop_hit)

lemma split_two_hd: "hd (split s sep 2) = takeWhile (\<lambda>c. c \<noteq> sep) s"
proof (cases "sep \<in> set s")
  case False
  then have eq: "takeWhile (\<lambda>c. c \<noteq> sep) s = s" by (induction s) auto
  from False have "hd (split s sep 2) = s" by (simp add: split_no_sep)
  with eq show ?thesis by (rule trans [OF _ sym, rotated])
next
  case True
  then obtain p t where s: "s = p @ sep # t" and p: "sep \<notin> set p"
    using split_list_first [OF True] by blast
  from p have "\<forall>x \<in> set p. x \<noteq> sep" by metis
  then have "takeWhile (\<lambda>c. c \<noteq> sep) s = p"
    using takeWhile_append2 [of p "\<lambda>c. c \<noteq> sep" "sep # t"] by (simp add: s)
  with p s show ?thesis by (simp add: split_two)
qed

lemma split_loop_join:
  assumes "ps \<noteq> []" and "\<And>p. p \<in> set ps \<Longrightarrow> sep \<notin> set p" and "mx \<le> Suc n"
  shows "split_loop sep mx n (join sep ps) = ps"
  using assms
proof (induction ps arbitrary: n rule: join.induct)
  case (3 sep p q ps)
  have "sep \<notin> set p" using "3.prems"(2) by simp
  then have "split_loop sep mx n (join sep (p # q # ps)) =
      p # split_loop sep mx (Suc n) (join sep (q # ps))"
    using "3.prems"(3) by (simp add: split_loop_hit)
  with "3.IH" [of "Suc n"] "3.prems" show ?case by simp
qed (simp_all add: split_loop_no_sep)

lemma split_join:
  "ps \<noteq> [] \<Longrightarrow> (\<And>p. p \<in> set ps \<Longrightarrow> sep \<notin> set p) \<Longrightarrow> split (join sep ps) sep 0 = ps"
  unfolding split_def by (rule split_loop_join) simp_all

text \<open>The position-based loop of the view version computes the same pieces.\<close>

lemma split_view_loop_eq:
  "prev \<le> length s \<Longrightarrow>
   split_view_loop sep mx s prev outp = outp @ split_loop sep mx (length outp) (drop prev s)"
proof (induction sep mx s prev outp rule: split_view_loop.induct)
  case (1 sep mx s prev outp)
  show ?case
  proof (cases "find_pos (\<lambda>c. c = sep) (drop prev s)")
    case None
    then show ?thesis
      by (simp add: split_view_loop.simps [of sep mx s prev outp] find_from_def
          split_loop.simps [of sep mx "length outp" "drop prev s"])
  next
    case (Some i)
    then have f: "find_from sep s prev = Some (prev + i)" by (simp add: find_from_def)
    from find_from_bound [OF f] have b: "Suc (prev + i) \<le> length s" by simp
    let ?o = "outp @ [take i (drop prev s)]"
    show ?thesis
    proof (cases "Suc (Suc (length outp)) = mx")
      case True
      with f Some show ?thesis
        by (simp add: split_view_loop.simps [of sep mx s prev outp] add.commute
            split_loop.simps [of sep mx "length outp" "drop prev s"])
    next
      case False
      with "1.IH" [OF f refl] b have
        "split_view_loop sep mx s (Suc (prev + i)) ?o =
           ?o @ split_loop sep mx (Suc (length outp)) (drop (Suc (prev + i)) s)"
        by simp
      with f Some False show ?thesis
        by (simp add: split_view_loop.simps [of sep mx s prev outp] add.commute
            split_loop.simps [of sep mx "length outp" "drop prev s"])
    qed
  qed
qed

lemma split_view_eq: "split_view s sep mx = split s sep mx"
  by (simp add: split_view_def split_def split_view_loop_eq)

text \<open>A one-character literal splits like the character.\<close>

lemma split_str_loop_single: "split_str_loop c [] mx n s = split_loop c mx n s"
proof (induction c mx n s rule: split_loop.induct)
  case (1 c mx n s)
  show ?case
    by (cases "find_pos (\<lambda>x. x = c) s")
       (simp_all add: split_str_loop.simps [of c "[]" mx n s] split_loop.simps [of c mx n s]
          find_sub_single "1.IH")
qed

lemma split_str_single: "split_str s c [] mx = split s c mx"
  by (simp add: split_str_def split_def split_str_loop_single)

text \<open>What the bound of \<open>max_elements\<close> does: the pieces from the last allowed one on
  stay joined.\<close>

definition clip :: "char \<Rightarrow> nat \<Rightarrow> string list \<Rightarrow> string list" where
  "clip sep mx ps =
     (if length ps \<le> mx then ps else take (mx - 1) ps @ [join sep (drop (mx - 1) ps)])"

lemma clip_Cons: "1 < mx \<Longrightarrow> clip sep mx (p # ps) = p # clip sep (mx - 1) ps"
  by (cases mx) (auto simp: clip_def take_Cons' drop_Cons')

lemma split_loop_unbounded: "split_loop sep 0 n s = split_loop sep 0 m s"
proof (induction sep "0::nat" n s arbitrary: m rule: split_loop.induct)
  case (1 sep n s)
  show ?case
    by (cases "find_pos (\<lambda>c. c = sep) s")
       (simp_all add: split_loop.simps [of sep 0 n s] split_loop.simps [of sep 0 m s]
          "1.hyps" [of _ "Suc m"])
qed

lemma split_loop_clip:
  "Suc n < mx \<Longrightarrow> split_loop sep mx n s = clip sep (mx - n) (split_loop sep 0 0 s)"
proof (induction sep mx n s rule: split_loop.induct)
  case (1 sep mx n s)
  show ?case
  proof (cases "find_pos (\<lambda>c. c = sep) s")
    case None
    with "1.prems" show ?thesis
      by (simp add: split_loop.simps [of sep mx n s] split_loop.simps [of sep 0 0 s] clip_def)
  next
    case (Some i)
    let ?t = "drop (Suc i) s"
    have whole: "split_loop sep 0 0 s = take i s # split_loop sep 0 0 ?t"
      using Some split_loop_unbounded [of sep "Suc 0" ?t 0]
      by (simp add: split_loop.simps [of sep 0 0 s])
    have ne: "split_loop sep 0 0 ?t \<noteq> []" by simp
    show ?thesis
    proof (cases "Suc (Suc n) = mx")
      case True
      then have "mx - n = 2" by simp
      moreover have "clip sep 1 (split_loop sep 0 0 ?t) = [?t]"
        using ne join_split_loop [of sep 0 0 ?t]
        by (cases "split_loop sep 0 0 ?t") (auto simp: clip_def)
      ultimately show ?thesis
        using Some True whole
        by (simp add: split_loop.simps [of sep mx n s] clip_Cons)
    next
      case False
      with "1.prems" have "Suc (Suc n) < mx" by simp
      with "1.IH" [OF Some False] Some False whole show ?thesis
        by (simp add: split_loop.simps [of sep mx n s] clip_Cons)
    qed
  qed
qed

lemma split_clip: "2 \<le> mx \<Longrightarrow> split s sep mx = clip sep mx (split s sep 0)"
  using split_loop_clip [of 0 mx sep s] by (simp add: split_def)

section \<open>Properties\<close>

text \<open>Splitting without a bound returns the one list of separator-free pieces that joins to
  the string: no character is lost, none is invented, empty pieces are kept.\<close>

theorem split_iff:
  "split s sep 0 = ps \<longleftrightarrow> ps \<noteq> [] \<and> sep \<notin> set (concat ps) \<and> join sep ps = s"
proof
  assume "split s sep 0 = ps"
  then show "ps \<noteq> [] \<and> sep \<notin> set (concat ps) \<and> join sep ps = s"
    using split_pieces [of _ s sep] join_split_loop [of sep 0 0 s] by (auto simp: split_def)
next
  assume "ps \<noteq> [] \<and> sep \<notin> set (concat ps) \<and> join sep ps = s"
  then show "split s sep 0 = ps" using split_join [of ps sep] by auto
qed

text \<open>With \<open>max_elements\<close> of two or more, the three versions of \<open>split\<close>
  (string, string view, one-character literal) return the unbounded pieces, the ones from the last
  allowed position on joined back into one.\<close>

theorem split_bounded:
  assumes "2 \<le> mx"
  shows "split s sep mx = clip sep mx (split s sep 0) \<and>
    split_view s sep mx = clip sep mx (split s sep 0) \<and>
    split_str s sep [] mx = clip sep mx (split s sep 0)"
  using split_clip [OF assms] by (simp_all add: split_view_eq split_str_single)

theorem split_bounded_witness:
  "split ''admin:a:b'' (CHR '':'') 2 = clip (CHR '':'') 2 (split ''admin:a:b'' (CHR '':'') 0) \<and>
   clip (CHR '':'') 2 (split ''admin:a:b'' (CHR '':'') 0) = [''admin'', ''a:b'']"
proof -
  have "clip (CHR '':'') 2 (split ''admin:a:b'' (CHR '':'') 0) = [''admin'', ''a:b'']"
    by code_simp
  with split_bounded(1) [of 2 "''admin:a:b''" "CHR '':''"] show ?thesis by simp
qed

end
