(* ===== verification/Base64.thy ===== *)
theory Base64
  imports Ljh_Strings
begin

unbundle bit_operations_syntax

text \<open>
  \<open>src/common/base64.hpp\<close>: the encoder the client builds its \<open>Authorization\<close> header
  with, and the decoder the server reads it with.  \<open>std::bitset<24>\<close> is a 24-bit word, and
  a \<open>char\<close> is signed: converting it to \<open>uint32_t\<close> copies its top bit upwards.
  The lemmas relate the encoder to the base64 alphabet read as numbers (RFC 4648), and describe
  exactly which messages the decoder accepts and when it gives back what was encoded.
\<close>

section \<open>The model\<close>

definition table :: string where
  "table = ''ABCDEFGHIJKLMNOPQRSTUVWXYZabcdefghijklmnopqrstuvwxyz0123456789+/''"

text \<open>\<open>std::bitset<24>(uint32_t(c))\<close>.\<close>

definition bits_of_char :: "char \<Rightarrow> 24 word" where
  "bits_of_char c = ucast (scast (of_char c :: 8 word) :: 32 word)"

text \<open>The loop over \<open>s\<close> of \<open>encode\<close>, from the character at \<open>s + a\<close> on; the
  result is the value of \<open>s\<close> after the loop and the gathered bits.\<close>

fun enc_load :: "nat \<Rightarrow> 24 word \<Rightarrow> string \<Rightarrow> nat \<times> 24 word" where
  "enc_load s value msg =
     (if s < 3 then
        (let value = push_bit 8 value in
         case msg of
           [] \<Rightarrow> (s, push_bit (8 * (2 - s)) value)
         | c # cs \<Rightarrow> enc_load (Suc s) (value OR bits_of_char c) cs)
      else (s, value))"

definition enc_letter :: "nat \<Rightarrow> 24 word \<Rightarrow> nat \<Rightarrow> char" where
  "enc_letter s value b =
     (if b < (if s = 1 then 2 else if s = 2 then 3 else 4)
      then table ! unat (drop_bit (6 * (3 - b)) value AND 63) else CHR ''='')"

function encode :: "string \<Rightarrow> string" where
  "encode msg =
     (if msg = [] then []
      else (case enc_load 0 0 msg of (s, value) \<Rightarrow>
              map (enc_letter s value) [0, 1, 2, 3] @ encode (drop 3 msg)))"
  by pat_completeness auto
termination
  by (relation "measure length") auto

declare encode.simps [simp del] enc_load.simps [simp del]

text \<open>The three bytes of a full group, as \<open>decode\<close> appends them.\<close>

definition dec_bytes :: "24 word \<Rightarrow> string" where
  "dec_bytes value = map (\<lambda>a. char_of (unat (drop_bit (8 * (2 - a)) value AND 255))) [0, 1, 2]"

fun dec_loop :: "string \<Rightarrow> 24 word \<Rightarrow> nat \<Rightarrow> string \<Rightarrow> string outcome" where
  "dec_loop [] value shifts outp = Inr outp"
| "dec_loop (letter # ls) value shifts outp =
     (let index = get_index table letter in
      if \<not> (0 < index \<and> index < length table) \<and> letter \<noteq> CHR ''=''
      then Inl (Throw Out_of_range)
      else
        (let index = (if letter = CHR ''='' then 0 else index);
             value = push_bit 6 value OR of_nat index
         in if Suc shifts = 4 then dec_loop ls 0 0 (outp @ dec_bytes value)
            else dec_loop ls value (Suc shifts) outp))"

text \<open>\<open>output.substr(0, output.find_last_not_of('\0') + 1)\<close>: every NUL at the end goes.\<close>

definition strip_nul :: "string \<Rightarrow> string" where
  "strip_nul s = rev (dropWhile (\<lambda>c. c = CHR 0x00) (rev s))"

definition decode :: "string \<Rightarrow> string outcome" where
  "decode msg = bind (dec_loop msg 0 0 []) (\<lambda>outp. Inr (strip_nul outp))"

section \<open>The reference: RFC 4648 over numbers\<close>

definition ascii :: "char \<Rightarrow> bool" where
  "ascii c \<longleftrightarrow> (of_char c :: nat) < 128"

text \<open>A group of three bytes is a number below \<open>2 ^ 24\<close>; a letter is one of its four
  digits in base 64; a letter that holds no bit of the message is the padding.\<close>

definition rfc_digit :: "nat \<Rightarrow> nat \<Rightarrow> char" where
  "rfc_digit n k = table ! ((n div 64 ^ (3 - k)) mod 64)"

fun rfc_encode :: "string \<Rightarrow> string" where
  "rfc_encode [] = []"
| "rfc_encode [a] = (let n = of_char a * 65536 in [rfc_digit n 0, rfc_digit n 1, CHR ''='', CHR ''=''])"
| "rfc_encode [a, b] =
     (let n = of_char a * 65536 + of_char b * 256
      in [rfc_digit n 0, rfc_digit n 1, rfc_digit n 2, CHR ''=''])"
| "rfc_encode (a # b # c # cs) =
     (let n = of_char a * 65536 + of_char b * 256 + of_char c
      in [rfc_digit n 0, rfc_digit n 1, rfc_digit n 2, rfc_digit n 3] @ rfc_encode cs)"

text \<open>What the decoder takes for a letter: the alphabet without its first letter, or padding.\<close>

definition accepted_letter :: "char \<Rightarrow> bool" where
  "accepted_letter c \<longleftrightarrow> c = CHR ''='' \<or> (c \<in> set table \<and> c \<noteq> CHR ''A'')"

text \<open>The six bits a letter stands for.\<close>

definition letter_value :: "char \<Rightarrow> nat" where
  "letter_value c = (if c = CHR ''='' then 0 else get_index table c)"

text \<open>What a letter of the encoding stands for: a digit of \<open>n\<close>, or padding where the digit
  is 0.\<close>

definition letter_of :: "nat \<Rightarrow> nat \<Rightarrow> char \<Rightarrow> bool" where
  "letter_of n k l \<longleftrightarrow> l = rfc_digit n k \<or> (l = CHR ''='' \<and> n div 64 ^ (3 - k) mod 64 = 0)"

section \<open>The alphabet\<close>

lemma table_length [simp]: "length table = 64"
  by (simp add: table_def)

lemma table_distinct: "distinct table"
  by (simp add: table_def)

lemma table_no_padding: "CHR ''='' \<notin> set table"
  by (simp add: table_def)

lemma table_0: "table ! 0 = CHR ''A''"
  by (simp add: table_def)

lemma table_ne_padding [simp]: "i < 64 \<Longrightarrow> table ! i \<noteq> CHR ''=''"
  using table_no_padding by (metis nth_mem table_length)

lemma table_eq_A_iff: "i < 64 \<Longrightarrow> table ! i = CHR ''A'' \<longleftrightarrow> i = 0"
  using table_0 table_distinct by (metis nth_eq_iff_index_eq table_length zero_less_numeral)

lemma table_index: "i < 64 \<Longrightarrow> get_index table (table ! i) = i"
  by (simp add: get_index_nth table_distinct)

lemma index_zero_iff: "c \<in> set table \<Longrightarrow> get_index table c = 0 \<longleftrightarrow> c = CHR ''A''"
proof -
  assume "c \<in> set table"
  then obtain i where "i < 64" "c = table ! i" by (metis in_set_conv_nth table_length)
  then show ?thesis using table_index table_eq_A_iff by simp
qed

lemma accepted_letter_iff:
  "accepted_letter c \<longleftrightarrow>
   (0 < get_index table c \<and> get_index table c < length table) \<or> c = CHR ''=''"
  using index_zero_iff [of c] get_index_less_iff [of table c]
  by (auto simp: accepted_letter_def)

section \<open>Encoding\<close>

lemma unat_take_drop: "unat (take_bit m (drop_bit k v)) = (unat v div 2 ^ k) mod 2 ^ m" for v :: "24 word"
  by (simp only: unsigned_take_bit_eq unat_drop_bit_eq) (simp only: take_bit_eq_mod drop_bit_eq_div)

lemma unat_digit: "unat (drop_bit k v AND 63) = (unat v div 2 ^ k) mod 64" for v :: "24 word"
proof -
  have "drop_bit k v AND 63 = take_bit 6 (drop_bit k v)"
    by (simp add: take_bit_eq_mask mask_eq_exp_minus_1)
  then show ?thesis using unat_take_drop [of 6 k v] by simp
qed

lemma unat_byte: "unat (drop_bit k v AND 255) = (unat v div 2 ^ k) mod 256" for v :: "24 word"
proof -
  have "drop_bit k v AND 255 = take_bit 8 (drop_bit k v)"
    by (simp add: take_bit_eq_mask mask_eq_exp_minus_1)
  then show ?thesis using unat_take_drop [of 8 k v] by simp
qed

lemma bits_ascii: "ascii c \<Longrightarrow> bits_of_char c = of_nat (of_char c)"
proof -
  assume a: "ascii c"
  let ?n = "of_char c :: nat"
  have n: "?n < 128" using a by (simp add: ascii_def)
  have w: "(of_char c :: 8 word) = word_of_nat ?n" by (simp only: of_nat_of_char)
  have s: "sint (word_of_nat ?n :: 8 word) = int ?n"
    using n by (simp add: sint_uint signed_take_bit_int_eq_self  unsigned_of_nat take_bit_nat_eq_self)
  have "bits_of_char c = ucast (word_of_int (int ?n) :: 32 word)"
    unfolding bits_of_char_def w  by (simp add: scast_eq s)
  then show ?thesis using n
    by (simp add: ucast_eq unsigned_of_nat take_bit_nat_eq_self)
qed

lemma push_or_nat:
  fixes v :: "24 word"
  assumes v: "unat v * 2 ^ k + n < 2 ^ 24" and n: "n < 2 ^ k"
  shows "unat (push_bit k v OR of_nat n) = unat v * 2 ^ k + n"
proof -
  have nn: "unat (of_nat n :: 24 word) = n"
    using v by (simp add: unsigned_of_nat take_bit_nat_eq_self)
  have z: "push_bit k v AND of_nat n = 0"
  proof (rule bit_word_eqI)
    fix i
    show "bit (push_bit k v AND of_nat n) i = bit (0 :: 24 word) i"
    proof (cases "i < k")
      case True
      then show ?thesis by (simp add: bit_simps)
    next
      case False
      have "n div 2 ^ i = 0" using n False by (meson div_less less_le_trans linorder_not_less one_le_numeral power_increasing)
      then have "\<not> bit n i" by (simp add: bit_iff_odd)
      then show ?thesis by (simp add: bit_simps)
    qed
  qed
  have "push_bit k v OR of_nat n = push_bit k v + of_nat n"
    using disjunctive_add_eq_or [OF z] by simp
  also have "\<dots> = of_nat (unat v * 2 ^ k + n)"
    by (simp add: push_bit_eq_mult)
  finally have "unat (push_bit k v OR of_nat n) = unat (of_nat (unat v * 2 ^ k + n) :: 24 word)"
    by (rule arg_cong)
  also have "\<dots> = unat v * 2 ^ k + n"
    using v by (simp only: unsigned_of_nat) (simp add: take_bit_nat_eq_self)
  finally show ?thesis .
qed


lemma unat_push: "unat v * 2 ^ k < 2 ^ 24 \<Longrightarrow> unat (push_bit k v) = unat v * 2 ^ k" for v :: "24 word"
  using push_or_nat [of v k 0] by simp

lemma enc_load_end: "s < 3 \<Longrightarrow> enc_load s v [] = (s, push_bit (8 * (2 - s)) (push_bit 8 v))"
  by (simp add: enc_load.simps Let_def)

lemma enc_load_step:
  "s < 3 \<Longrightarrow> enc_load s v (c # cs) = enc_load (Suc s) (push_bit 8 v OR bits_of_char c) cs"
  by (simp add: enc_load.simps [of s v "c # cs"] Let_def)

lemma enc_load_full: "enc_load (Suc (Suc (Suc 0))) v msg = (3, v)"
  by (simp add: enc_load.simps)

lemma of_char_less: "(of_char c :: nat) < 256"
  by (metis of_char_mod_256 mod_less_divisor zero_less_numeral)

text \<open>The bits gathered from one, two and three ASCII characters.\<close>

lemma load_ascii:
  "ascii a \<Longrightarrow> unat (push_bit 8 0 OR bits_of_char a) = of_char a"
  "ascii b \<Longrightarrow> unat v < 2 ^ 16 \<Longrightarrow>
     unat (push_bit 8 v OR bits_of_char b) = unat v * 256 + of_char b"
  using push_or_nat [of v 8 "of_char b"] of_char_less [of b]
  by (simp_all add: bits_ascii unsigned_of_nat take_bit_nat_eq_self order_less_trans [OF of_char_less])

lemma enc_letter_digit:
  assumes "b < (if s = 1 then 2 else if s = 2 then 3 else 4)"
  shows "enc_letter s v b = rfc_digit (unat v) b"
proof -
  have "(2 :: nat) ^ (6 * (3 - b)) = 64 ^ (3 - b)" by (simp add: power_mult)
  with assms show ?thesis by (simp add: enc_letter_def rfc_digit_def unat_digit)
qed

lemma enc_letter_padding:
  "\<not> b < (if s = 1 then 2 else if s = 2 then 3 else 4) \<Longrightarrow> enc_letter s v b = CHR ''=''"
  by (simp only: enc_letter_def if_False)

lemma encode_Nil [simp]: "encode [] = []"
  by (simp add: encode.simps)

lemma encode_one:
  assumes "ascii a"
  shows "encode [a] = rfc_encode [a]"
proof -
  let ?v = "push_bit 8 0 OR bits_of_char a"
  have v: "unat ?v = of_char a" using assms by (rule load_ascii)
  have p: "unat (push_bit 8 ?v) = of_char a * 256"
    using unat_push [of ?v 8] of_char_less [of a] unfolding v by simp
  have "unat (push_bit 8 (push_bit 8 ?v)) = of_char a * 65536"
    using unat_push [of "push_bit 8 ?v" 8] of_char_less [of a] unfolding p by simp
  moreover have "enc_load 0 0 [a] = (1, push_bit 8 (push_bit 8 ?v))"
    by (simp add: enc_load_step enc_load_end)
  ultimately show ?thesis
    by (simp add: encode.simps [of "[a]"] enc_letter_digit enc_letter_padding Let_def)
qed

lemma encode_two:
  assumes "ascii a" "ascii b"
  shows "encode [a, b] = rfc_encode [a, b]"
proof -
  let ?v = "push_bit 8 0 OR bits_of_char a"
  let ?w = "push_bit 8 ?v OR bits_of_char b"
  have v: "unat ?v = of_char a" using assms(1) by (rule load_ascii)
  have w: "unat ?w = of_char a * 256 + of_char b"
    using load_ascii(2) [OF assms(2), of ?v] of_char_less [of a] unfolding v by simp
  have "unat (push_bit 8 ?w) = of_char a * 65536 + of_char b * 256"
    using unat_push [of ?w 8] of_char_less [of a] of_char_less [of b] unfolding w by simp
  moreover have "enc_load 0 0 [a, b] = (2, push_bit 8 ?w)"
    by (simp add: enc_load_step enc_load_end numeral_2_eq_2)
  ultimately show ?thesis
    by (simp add: encode.simps [of "[a, b]"] enc_letter_digit enc_letter_padding Let_def)
qed

lemma encode_three:
  assumes "ascii a" "ascii b" "ascii c"
  shows "encode (a # b # c # cs) =
    map (rfc_digit (of_char a * 65536 + of_char b * 256 + of_char c)) [0, 1, 2, 3] @ encode cs"
proof -
  let ?v = "push_bit 8 0 OR bits_of_char a"
  let ?w = "push_bit 8 ?v OR bits_of_char b"
  let ?u = "push_bit 8 ?w OR bits_of_char c"
  have v: "unat ?v = of_char a" using assms(1) by (rule load_ascii)
  have w: "unat ?w = of_char a * 256 + of_char b"
    using load_ascii(2) [OF assms(2), of ?v] of_char_less [of a] unfolding v by simp
  have "unat ?u = of_char a * 65536 + of_char b * 256 + of_char c"
    using load_ascii(2) [OF assms(3), of ?w] of_char_less [of a] of_char_less [of b]
    unfolding w by simp
  moreover have "enc_load 0 0 (a # b # c # cs) = (3, ?u)"
    by (simp add: enc_load_step enc_load_full)
  ultimately show ?thesis
    by (simp add: encode.simps [of "a # b # c # cs"] enc_letter_digit Let_def)
qed

lemma encode_rfc: "\<forall>c \<in> set msg. ascii c \<Longrightarrow> encode msg = rfc_encode msg"
  by (induction msg rule: rfc_encode.induct)
     (simp_all add: encode_one encode_two encode_three Let_def)

section \<open>Decoding\<close>

lemma letter_value_less: "accepted_letter c \<Longrightarrow> letter_value c < 64"
  by (auto simp: accepted_letter_iff letter_value_def)

lemma dec_loop_step:
  "accepted_letter l \<Longrightarrow>
   dec_loop (l # ls) v k outp =
     (let v' = push_bit 6 v OR of_nat (letter_value l)
      in if Suc k = 4 then dec_loop ls 0 0 (outp @ dec_bytes v') else dec_loop ls v' (Suc k) outp)"
  by (auto simp: accepted_letter_iff letter_value_def Let_def)

lemma dec_loop_reject:
  "\<not> accepted_letter l \<Longrightarrow> dec_loop (l # ls) v k outp = Inl (Throw Out_of_range)"
  by (auto simp: accepted_letter_iff Let_def)

declare dec_loop.simps(2) [simp del]

lemma dec_loop_error_iff:
  "dec_loop msg v k outp = Inl e \<longleftrightarrow>
   e = Throw Out_of_range \<and> (\<exists>c \<in> set msg. \<not> accepted_letter c)"
proof (induction msg arbitrary: v k outp)
  case Nil
  show ?case by simp
next
  case (Cons l ls)
  show ?case
  proof (cases "accepted_letter l")
    case True
    with Cons.IH show ?thesis by (auto simp: dec_loop_step Let_def)
  next
    case False
    then show ?thesis by (auto simp: dec_loop_reject)
  qed
qed

lemma dec_shift:
  "unat v < 64 ^ 3 \<Longrightarrow> d < 64 \<Longrightarrow> unat (push_bit 6 v OR of_nat d) = unat v * 64 + d"
  for v :: "24 word"
  using push_or_nat [of v 6 d] by simp

text \<open>Four letters whose values are the base-64 digits of \<open>n\<close> append the three bytes of
  \<open>n\<close>.\<close>

lemma dec_group:
  assumes acc: "accepted_letter a" "accepted_letter b" "accepted_letter c" "accepted_letter d"
    and n: "n = ((letter_value a * 64 + letter_value b) * 64 + letter_value c) * 64 + letter_value d"
  shows "dec_loop (a # b # c # d # ls) 0 0 outp =
    dec_loop ls 0 0 (outp @ [char_of (n div 65536), char_of (n div 256), char_of n])"
proof -
  note less = acc [THEN letter_value_less]
  let ?v1 = "push_bit 6 0 OR of_nat (letter_value a) :: 24 word"
  let ?v2 = "push_bit 6 ?v1 OR of_nat (letter_value b) :: 24 word"
  let ?v3 = "push_bit 6 ?v2 OR of_nat (letter_value c) :: 24 word"
  let ?v4 = "push_bit 6 ?v3 OR of_nat (letter_value d) :: 24 word"
  have v1: "unat ?v1 = letter_value a" using dec_shift [of 0 "letter_value a"] less by simp
  have v2: "unat ?v2 = letter_value a * 64 + letter_value b"
    using dec_shift [of ?v1 "letter_value b"] less unfolding v1 by simp
  have v3: "unat ?v3 = (letter_value a * 64 + letter_value b) * 64 + letter_value c"
    using dec_shift [of ?v2 "letter_value c"] less unfolding v2 by simp
  have v4: "unat ?v4 = n"
    using dec_shift [of ?v3 "letter_value d"] less unfolding v3 n by simp
  have char: "char_of (m mod 256) = (char_of m :: char)" for m :: nat by simp
  have "dec_bytes ?v4 = [char_of (n div 65536), char_of (n div 256), char_of n]"
    by (simp only: dec_bytes_def list.map unat_byte v4 char) simp
  then show ?thesis
    using acc by (simp add: dec_loop_step Let_def)
qed

lemma rfc_digit_value:
  assumes "rfc_digit n k \<noteq> CHR ''A''"
  shows "accepted_letter (rfc_digit n k) \<and> letter_value (rfc_digit n k) = (n div 64 ^ (3 - k)) mod 64"
proof -
  let ?i = "(n div 64 ^ (3 - k)) mod 64"
  have "?i < 64" by simp
  moreover have "?i \<noteq> 0" using assms by (metis rfc_digit_def table_0)
  ultimately show ?thesis
    using assms by (simp add: accepted_letter_def letter_value_def rfc_digit_def table_index)
qed

lemma padding_value: "accepted_letter (CHR ''='') \<and> letter_value (CHR ''='') = 0"
  by (simp add: accepted_letter_def letter_value_def)

lemma base64_digits:
  fixes n :: nat
  assumes "n < 2 ^ 24"
  shows "n = (((n div 64 ^ 3 mod 64) * 64 + (n div 64 ^ 2 mod 64)) * 64 + (n div 64 ^ 1 mod 64)) * 64
       + n div 64 ^ 0 mod 64"
proof -
  have step: "m = m div 64 * 64 + m mod 64" for m :: nat by simp
  have q: "n div 64 div 64 = n div 64 ^ 2" "n div 64 ^ 2 div 64 = n div 64 ^ 3"
    by (simp_all add: div_mult2_eq [symmetric])
  have "n div 64 ^ 3 < 64" using assms by (simp add: less_mult_imp_div_less)
  then have "n div 64 ^ 3 mod 64 = n div 64 ^ 3" by simp
  then show ?thesis
    using step [of n] step [of "n div 64"] step [of "n div 64 ^ 2"] unfolding q by simp
qed

lemma letter_of_value:
  "letter_of n k l \<Longrightarrow> CHR ''A'' \<noteq> l \<Longrightarrow>
   accepted_letter l \<and> letter_value l = n div 64 ^ (3 - k) mod 64"
  using rfc_digit_value [of n k] padding_value by (auto simp: letter_of_def)

lemma dec_rfc_group:
  assumes "letter_of n 0 a" "letter_of n 1 b" "letter_of n 2 c" "letter_of n 3 d" "n < 2 ^ 24"
    and "CHR ''A'' \<notin> {a, b, c, d}"
  shows "dec_loop (a # b # c # d # ls) 0 0 outp =
    dec_loop ls 0 0 (outp @ [char_of (n div 65536), char_of (n div 256), char_of n])"
proof -
  have v: "accepted_letter a \<and> letter_value a = n div 64 ^ 3 mod 64"
    "accepted_letter b \<and> letter_value b = n div 64 ^ 2 mod 64"
    "accepted_letter c \<and> letter_value c = n div 64 ^ 1 mod 64"
    "accepted_letter d \<and> letter_value d = n div 64 ^ 0 mod 64"
    using letter_of_value [OF assms(1)] letter_of_value [OF assms(2)]
      letter_of_value [OF assms(3)] letter_of_value [OF assms(4)] assms(6) by simp_all
  then have "n = ((letter_value a * 64 + letter_value b) * 64 + letter_value c) * 64 + letter_value d"
    using base64_digits [OF assms(5)] by (simp only:)
  then show ?thesis
    by (rule dec_group [OF v(1) [THEN conjunct1] v(2) [THEN conjunct1] v(3) [THEN conjunct1]
          v(4) [THEN conjunct1]])
qed

lemma char_of_shift: "char_of (m * 256 + of_char x) = x" for m :: nat
  by (metis char_of_mod_256 char_of_char mod_mult_self3 of_char_mod_256)

lemma group_bytes:
  fixes a b c :: nat
  assumes "b < 256" "c < 256"
  shows "(a * 65536 + b * 256 + c) div 65536 = a" "(a * 65536 + b * 256 + c) div 256 = a * 256 + b"
  using assms by simp_all

lemma group_bound:
  "a < 256 \<Longrightarrow> b < 256 \<Longrightarrow> c < 256 \<Longrightarrow> a * 65536 + b * 256 + c < 2 ^ 24" for a b c :: nat
  by simp

lemma bytes_of_group:
  fixes n :: nat
  assumes n: "n = of_char a * 65536 + of_char b * 256 + of_char c"
  shows "[char_of (n div 65536), char_of (n div 256), char_of n] = [a, b, c]"
proof -
  have "n div 65536 = of_char a" "n div 256 = of_char a * 256 + of_char b"
    unfolding n by (rule group_bytes [OF of_char_less of_char_less])+
  moreover have "n = (of_char a * 256 + of_char b) * 256 + of_char c" unfolding n by simp
  then have "char_of n = c" by (simp only: char_of_shift)
  ultimately show ?thesis by (simp only: char_of_shift char_of_char)
qed

lemma dec_rfc_bytes:
  assumes "letter_of n 0 p" "letter_of n 1 q" "letter_of n 2 r" "letter_of n 3 s"
    and "CHR ''A'' \<notin> {p, q, r, s}"
    and n: "n = of_char a * 65536 + of_char b * 256 + of_char c"
  shows "dec_loop (p # q # r # s # ls) 0 0 outp = dec_loop ls 0 0 (outp @ [a, b, c])"
proof -
  have "n < 2 ^ 24" unfolding n by (rule group_bound [OF of_char_less of_char_less of_char_less])
  from dec_rfc_group [OF assms(1-4) this assms(5)] show ?thesis
    by (simp only: bytes_of_group [OF n])
qed

lemma dec_rfc:
  "CHR ''A'' \<notin> set (rfc_encode msg) \<Longrightarrow>
   \<exists>k. dec_loop (rfc_encode msg) 0 0 outp = Inr (outp @ msg @ replicate k (CHR 0x00))"
proof (induction msg arbitrary: outp rule: rfc_encode.induct)
  case 1
  show ?case by (rule exI [of _ 0]) simp
next
  case (2 a)
  let ?n = "of_char a * 65536 :: nat"
  have z: "?n div 64 mod 64 = 0" "?n mod 64 = 0" by (simp_all add: mult.assoc [symmetric] mod_mult_left_eq)
  have "dec_loop (rfc_encode [a]) 0 0 outp = Inr (outp @ [a, CHR 0x00, CHR 0x00])"
    using "2.prems" z dec_rfc_bytes [of ?n "rfc_digit ?n 0" "rfc_digit ?n 1" "CHR ''=''" "CHR ''=''" a "CHR 0x00" "CHR 0x00" "[]" outp]
    by (simp add: Let_def letter_of_def)
  then show ?case by (intro exI [of _ 2]) (simp add: numeral_2_eq_2)
next
  case (3 a b)
  let ?n = "of_char a * 65536 + of_char b * 256 :: nat"
  have z: "?n mod 64 = 0" by presburger
  have "dec_loop (rfc_encode [a, b]) 0 0 outp = Inr (outp @ [a, b, CHR 0x00])"
    using "3.prems" z dec_rfc_bytes [of ?n "rfc_digit ?n 0" "rfc_digit ?n 1" "rfc_digit ?n 2" "CHR ''=''" a b "CHR 0x00" "[]" outp]
    by (simp add: Let_def letter_of_def)
  then show ?case by (intro exI [of _ 1]) simp
next
  case (4 a b c cs)
  let ?n = "of_char a * 65536 + of_char b * 256 + of_char c :: nat"
  have "CHR ''A'' \<notin> set (rfc_encode cs)" using "4.prems" by (simp add: Let_def)
  from "4.IH" [OF refl this, of "outp @ [a, b, c]"]
  obtain k where k: "dec_loop (rfc_encode cs) 0 0 (outp @ [a, b, c]) =
      Inr ((outp @ [a, b, c]) @ cs @ replicate k (CHR 0x00))" by blast
  have "dec_loop (rfc_encode (a # b # c # cs)) 0 0 outp = dec_loop (rfc_encode cs) 0 0 (outp @ [a, b, c])"
    using "4.prems" dec_rfc_bytes [of ?n "rfc_digit ?n 0" "rfc_digit ?n 1" "rfc_digit ?n 2" "rfc_digit ?n 3" a b c "rfc_encode cs" outp]
    by (simp add: Let_def letter_of_def)
  with k show ?case by (intro exI [of _ k]) simp
qed

lemma strip_nul_id: "msg = [] \<or> last msg \<noteq> CHR 0x00 \<Longrightarrow> strip_nul (msg @ replicate k (CHR 0x00)) = msg"
  by (cases msg rule: rev_cases) (auto simp: strip_nul_def dropWhile_append)

lemma strip_nul_padding: "strip_nul (msg @ replicate k (CHR 0x00)) = strip_nul msg"
  by (induction k) (simp_all add: strip_nul_def dropWhile_append)

lemma decode_Inl_iff:
  "decode msg = Inl e \<longleftrightarrow> e = Throw Out_of_range \<and> (\<exists>c \<in> set msg. \<not> accepted_letter c)"
  by (simp add: decode_def bind_eq_Inl_iff dec_loop_error_iff)

lemma bit_bits_of_char: "\<not> ascii c \<Longrightarrow> 7 \<le> n \<Longrightarrow> n < 24 \<Longrightarrow> bit (bits_of_char c) n"
proof -
  assume "\<not> ascii c" and n: "7 \<le> n" "n < 24"
  then have "(of_char c :: nat) div 2 ^ 7 = 1"
    using of_char_less [of c] div_nat_eqI [of 128 1 "of_char c"] by (simp add: ascii_def)
  then have "bit (of_char c :: nat) 7" by (simp add: bit_iff_odd)
  then have "bit (of_nat (of_char c) :: 8 word) 7" by (simp add: bit_simps)
  then have "bit (of_char c :: 8 word) 7" by (simp only: of_nat_of_char)
  with n show ?thesis by (simp add: bits_of_char_def bit_simps min_def)
qed

lemma or_bits_non_ascii: "\<not> ascii c \<Longrightarrow> push_bit 8 v OR bits_of_char c = bits_of_char c"
  by (rule bit_word_eqI) (auto simp: bit_simps bit_bits_of_char)

lemma decode_encode: "\<forall>c \<in> set msg. ascii c \<Longrightarrow> CHR ''A'' \<notin> set (encode msg) \<Longrightarrow> decode (encode msg) = Inr (strip_nul msg)"
  using dec_rfc [of msg "[]"] by (auto simp: encode_rfc decode_def strip_nul_padding)

section \<open>Properties\<close>

text \<open>(C16) On ASCII messages the encoder is base64 as RFC 4648 defines it: every group of
  three bytes, read as a number, is written by its four digits in base 64, and what a last short
  group does not hold is written as padding.\<close>

theorem encode_is_rfc4648:
  assumes "\<forall>c \<in> set msg. ascii c"
  shows "encode msg = rfc_encode msg"
  using assms by (rule encode_rfc)

theorem encode_is_rfc4648_witness:
  "encode ''admin:cat'' = ''YWRtaW46Y2F0'' \<and> encode ''admin:cat'' = rfc_encode ''admin:cat''"
proof -
  have a: "\<forall>c \<in> set ''admin:cat''. ascii c" by (simp add: ascii_def)
  have "rfc_encode ''admin:cat'' = ''YWRtaW46Y2F0''"
    by (simp add: Let_def rfc_digit_def table_def)
  then show ?thesis using encode_is_rfc4648 [OF a] by simp
qed

text \<open>(C15) The decoder takes back what the encoder wrote for an ASCII message that does not end
  in NUL exactly when the encoding holds no letter A, the letter of six zero bits: the guard
  \<open>index > 0\<close> refuses the first letter of the alphabet.\<close>

theorem base64_roundtrip_iff:
  assumes "\<forall>c \<in> set msg. ascii c" and "msg \<noteq> [] \<longrightarrow> last msg \<noteq> CHR 0x00"
  shows "decode (encode msg) = Inr msg \<longleftrightarrow> CHR ''A'' \<notin> set (encode msg)"
proof
  assume "decode (encode msg) = Inr msg"
  then have "decode (encode msg) \<noteq> Inl (Throw Out_of_range)" by simp
  then have "\<forall>c \<in> set (encode msg). accepted_letter c" by (auto simp: decode_Inl_iff)
  moreover have "\<not> accepted_letter (CHR ''A'')" by (simp add: accepted_letter_def)
  ultimately show "CHR ''A'' \<notin> set (encode msg)" by blast
next
  assume "CHR ''A'' \<notin> set (encode msg)"
  with assms have "decode (encode msg) = Inr (strip_nul msg)" by (intro decode_encode)
  then show "decode (encode msg) = Inr msg"
    using strip_nul_id [of msg 0] assms(2) by auto
qed

theorem base64_roundtrip_iff_witness:
  "decode (encode ''admin:cat'') = Inr ''admin:cat'' \<and> decode (encode ''admin:100'') \<noteq> Inr ''admin:100''"
proof -
  have a: "\<forall>c \<in> set ''admin:cat''. ascii c" "\<forall>c \<in> set ''admin:100''. ascii c"
    by (simp_all add: ascii_def)
  have e: "encode ''admin:cat'' = ''YWRtaW46Y2F0''" "encode ''admin:100'' = ''YWRtaW46MTAw''"
    using a by (simp_all add: encode_rfc Let_def rfc_digit_def table_def)
  show ?thesis
    using base64_roundtrip_iff [OF a(1)] base64_roundtrip_iff [OF a(2)] unfolding e by simp
qed

text \<open>The decoder fails exactly on a message with a character outside the letters it
  accepts (the alphabet without A, and the padding), always with \<open>std::out_of_range\<close>, and it
  never reads outside a container.\<close>

theorem decode_error_iff:
  "decode msg = Inl e \<longleftrightarrow>
   e = Throw Out_of_range \<and>
   \<not> set msg \<subseteq> insert (CHR ''='') (set table - {CHR ''A''})"
proof -
  have "insert (CHR ''='') (set table - {CHR ''A''}) = Collect accepted_letter"
    by (rule set_eqI) (simp only: accepted_letter_def mem_Collect_eq insert_iff Diff_iff empty_iff disj_commute simp_thms)
  then have "\<not> set msg \<subseteq> insert (CHR ''='') (set table - {CHR ''A''}) \<longleftrightarrow> (\<exists>c \<in> set msg. \<not> accepted_letter c)"
    by (simp only: subset_iff mem_Collect_eq) blast
  then show ?thesis by (simp only: decode_Inl_iff)
qed

text \<open>Outside ASCII the encoder loses information: the sign of a \<open>char\<close> above 127
  overwrites the bytes before it in its group, so two messages that differ there have one
  encoding.\<close>

theorem encode_sign_extension:
  assumes "\<not> ascii b"
  shows "encode (a # b # cs) = encode (a' # b # cs)"
proof -
  have "enc_load 0 0 (a # b # cs) = enc_load 0 0 (a' # b # cs)"
    by (simp add: enc_load_step or_bits_non_ascii [OF assms])
  then show ?thesis
    by (simp add: encode.simps [of "a # b # cs"] encode.simps [of "a' # b # cs"])
qed

theorem encode_sign_extension_witness:
  "encode [CHR ''a'', CHR 0xC3, CHR 0xA9] = encode [CHR ''z'', CHR 0xC3, CHR 0xA9]"
  by (rule encode_sign_extension) (simp add: ascii_def)

end
