(* ===== verification/Ini.thy ===== *)
theory Ini
  imports Ljh_Strings
begin

text \<open>
  \<open>src/common/ini.hpp\<close>: the configuration file of the server.  An \<open>ini\<close> is a vector
  of sections and a section a vector of items; \<open>operator[]\<close> on either one returns a
  reference to the element of that name, appending it first when there is none.  Here a reference
  is the element's position.  \<open>load_file\<close> reads the lines of the file into this structure.
  Conversions by \<open>boost::lexical_cast\<close> are a parameter of \<open>item_get\<close> and
  \<open>item_get_default\<close>.

  Both vectors have the contract of the locale \<open>keyed_store\<close>; what a loaded file answers is
  proved against the list of its assignments, where the last one to a name wins.
\<close>

section \<open>Items, sections and the file\<close>

record ini_item =
  item_key :: string
  item_value :: "string option"

record ini_section =
  sec_name :: string
  sec_items :: "ini_item list"

type_synonym ini = "ini_section list"

definition new_item :: "string \<Rightarrow> ini_item" where
  "new_item key = \<lparr>item_key = key, item_value = None\<rparr>"

definition new_section :: "string \<Rightarrow> ini_section" where
  "new_section name = \<lparr>sec_name = name, sec_items = []\<rparr>"

definition item_get :: "(string \<Rightarrow> 'a option) \<Rightarrow> ini_item \<Rightarrow> 'a outcome" where
  "item_get lexical_cast it =
     bind (opt_value (item_value it)) (\<lambda>s.
       case lexical_cast s of None \<Rightarrow> Inl (Throw Bad_lexical_cast) | Some x \<Rightarrow> Inr x)"

definition item_get_default :: "(string \<Rightarrow> 'a option) \<Rightarrow> ini_item \<Rightarrow> 'a \<Rightarrow> 'a outcome" where
  "item_get_default lexical_cast it dflt =
     (case item_value it of
        None \<Rightarrow> Inr dflt
      | Some s \<Rightarrow>
          (case lexical_cast s of None \<Rightarrow> Inl (Throw Bad_lexical_cast) | Some x \<Rightarrow> Inr x))"

definition item_remove :: "ini_item \<Rightarrow> ini_item" where
  "item_remove it = it\<lparr>item_value := None\<rparr>"

text \<open>\<open>set\<close> of a string; \<open>nullptr\<close> (None) removes the value.\<close>

definition item_set :: "string option \<Rightarrow> ini_item \<Rightarrow> ini_item" where
  "item_set data it =
     (case data of None \<Rightarrow> item_remove it | Some s \<Rightarrow> it\<lparr>item_value := Some s\<rparr>)"

text \<open>The search of every accessor, and the append of the ones that create.\<close>

definition slot :: "('e \<Rightarrow> string) \<Rightarrow> string \<Rightarrow> 'e list \<Rightarrow> nat option" where
  "slot key name xs = find_pos (\<lambda>e. key e = name) xs"

definition vec_ref ::
  "('e \<Rightarrow> string) \<Rightarrow> (string \<Rightarrow> 'e) \<Rightarrow> string \<Rightarrow> 'e list \<Rightarrow> nat \<times> 'e list" where
  "vec_ref key mk name xs =
     (case slot key name xs of Some i \<Rightarrow> (i, xs) | None \<Rightarrow> (length xs, xs @ [mk name]))"

definition sec_ref :: "string \<Rightarrow> ini_section \<Rightarrow> (nat \<times> ini_section) outcome" where
  "sec_ref name sec =
     (if name = [] then Inl (Throw Out_of_range)
      else (case vec_ref item_key new_item name (sec_items sec) of
              (i, items) \<Rightarrow> Inr (i, sec\<lparr>sec_items := items\<rparr>)))"

definition sec_at :: "string \<Rightarrow> ini_section \<Rightarrow> ini_item outcome" where
  "sec_at name sec =
     (case slot item_key name (sec_items sec) of
        Some i \<Rightarrow> Inr (sec_items sec ! i) | None \<Rightarrow> Inl (Throw Out_of_range))"

definition sec_has :: "string \<Rightarrow> ini_section \<Rightarrow> bool" where
  "sec_has name sec = (slot item_key name (sec_items sec) \<noteq> None)"

definition ini_ref :: "string \<Rightarrow> ini \<Rightarrow> nat \<times> ini" where
  "ini_ref name f = vec_ref sec_name new_section name f"

definition ini_at :: "string \<Rightarrow> ini \<Rightarrow> ini_section outcome" where
  "ini_at name f =
     (case slot sec_name name f of Some i \<Rightarrow> Inr (f ! i) | None \<Rightarrow> Inl (Throw Out_of_range))"

definition ini_has :: "string \<Rightarrow> ini \<Rightarrow> bool" where
  "ini_has name f = (slot sec_name name f \<noteq> None)"

section \<open>Loading\<close>

text \<open>\<open>section[key] = value\<close>, on the section at position \<open>cs\<close>.\<close>

definition sec_assign :: "string \<Rightarrow> string \<Rightarrow> ini_section \<Rightarrow> ini_section outcome" where
  "sec_assign key value sec =
     bind (sec_ref key sec) (\<lambda>(i, sec').
       Inr (sec'\<lparr>sec_items := (sec_items sec')[i := item_set (Some value) (sec_items sec' ! i)]\<rparr>))"

text \<open>The body of the loop of \<open>load_file\<close>: the file read so far, and
  \<open>current_section\<close>, null before the first header.\<close>

definition load_line :: "ini \<times> nat option \<Rightarrow> string \<Rightarrow> (ini \<times> nat option) outcome" where
  "load_line st line =
     (case st of (f, current) \<Rightarrow>
      let data = rtrim_view (hd (split_view line (CHR '';'') 2)) in
      if data = [] then Inr (f, current)
      else if hd data = CHR ''['' then
        (case find_pos (\<lambda>c. c = CHR '']'') data of
           Some end_pos \<Rightarrow>
             (case ini_ref (take (end_pos - 1) (drop 1 data)) f of (i, f') \<Rightarrow> Inr (f', Some i))
         | None \<Rightarrow> Inl (Throw Invalid_argument))
      else
        (let prop = split_view data (CHR ''='') 2 in
         if length prop = 2 then
           (case current of
              None \<Rightarrow> Inl UB
            | Some i \<Rightarrow>
                bind (sec_assign (prop ! 0) (prop ! 1) (f ! i)) (\<lambda>sec. Inr (f[i := sec], Some i)))
         else Inl (Throw Invalid_argument)))"

definition load_file :: "string \<Rightarrow> ini \<Rightarrow> ini outcome" where
  "load_file file_data f =
     bind (foldM load_line (f, None) (split_view file_data (CHR 0x0A) 0)) (\<lambda>st. Inr (fst st))"

text \<open>The value a file holds for a name: \<open>None\<close> without a section, an item or a
  value.\<close>

definition ini_value :: "ini \<Rightarrow> string \<Rightarrow> string \<Rightarrow> string option" where
  "ini_value f sec key =
     (case ini_at sec f of
        Inl e \<Rightarrow> None
      | Inr s \<Rightarrow> (case sec_at key s of Inl e \<Rightarrow> None | Inr it \<Rightarrow> item_value it))"

section \<open>What a line means\<close>

datatype ini_line = Blank | Header string | Assign string string | Malformed

definition ini_line :: "string \<Rightarrow> ini_line" where
  "ini_line line =
     (let data = rtrim (takeWhile (\<lambda>c. c \<noteq> CHR '';'') line) in
      if data = [] then Blank
      else if hd data = CHR ''['' then
        (if CHR '']'' \<in> set data then Header (takeWhile (\<lambda>c. c \<noteq> CHR '']'') (tl data))
         else Malformed)
      else if CHR ''='' \<in> set data then
        Assign (takeWhile (\<lambda>c. c \<noteq> CHR ''='') data) (tl (dropWhile (\<lambda>c. c \<noteq> CHR ''='') data))
      else Malformed)"

text \<open>The assignments of a list of lines, each with the section it falls into.\<close>

fun assignments :: "string option \<Rightarrow> ini_line list \<Rightarrow> ((string \<times> string) \<times> string) list" where
  "assignments sec [] = []"
| "assignments sec (Header name # ls) = assignments (Some name) ls"
| "assignments sec (Assign key value # ls) =
     (case sec of None \<Rightarrow> assignments sec ls
      | Some s \<Rightarrow> ((s, key), value) # assignments sec ls)"
| "assignments sec (_ # ls) = assignments sec ls"

text \<open>The lines a file may hold, given whether a header came before.\<close>

fun well_formed :: "bool \<Rightarrow> ini_line list \<Rightarrow> bool" where
  "well_formed in_sec [] = True"
| "well_formed in_sec (Blank # ls) = well_formed in_sec ls"
| "well_formed in_sec (Header name # ls) = well_formed True ls"
| "well_formed in_sec (Assign key value # ls) = (in_sec \<and> key \<noteq> [] \<and> well_formed in_sec ls)"
| "well_formed in_sec (Malformed # ls) = False"

text \<open>Writing a configuration out, section by section, and the names and values the syntax can
  carry.\<close>

definition render_lines :: "(string \<times> (string \<times> string) list) list \<Rightarrow> string list" where
  "render_lines cfg =
     concat (map (\<lambda>(name, kvs). (CHR ''['' # name @ [CHR '']'']) #
       map (\<lambda>(k, v). k @ CHR ''='' # v) kvs) cfg)"

definition writable_name :: "string \<Rightarrow> bool" where
  "writable_name name \<longleftrightarrow> set name \<inter> {CHR '']'', CHR '';'', CHR 0x0A} = {}"

definition writable_item :: "string \<times> string \<Rightarrow> bool" where
  "writable_item kv \<longleftrightarrow>
     fst kv \<noteq> [] \<and> hd (fst kv) \<noteq> CHR ''['' \<and>
     set (fst kv) \<inter> {CHR ''='', CHR '';'', CHR 0x0A} = {} \<and>
     set (snd kv) \<inter> {CHR '';'', CHR 0x0A} = {} \<and>
     (snd kv \<noteq> [] \<longrightarrow> \<not> isspace (last (snd kv)))"

definition flat_config :: "(string \<times> (string \<times> string) list) list \<Rightarrow> ((string \<times> string) \<times> string) list" where
  "flat_config cfg = concat (map (\<lambda>(name, kvs). map (\<lambda>(k, v). ((name, k), v)) kvs) cfg)"

section \<open>The contract of the two vectors\<close>

text \<open>
  \<open>look\<close> finds the element of a name, \<open>upd\<close> changes it through the reference
  \<open>operator[]\<close> returns, and \<open>fresh\<close> is what that operator appends.
\<close>

locale keyed_store =
  fixes look :: "string \<Rightarrow> 'v \<Rightarrow> 'e option"
    and upd :: "string \<Rightarrow> ('e \<Rightarrow> 'e) \<Rightarrow> 'v \<Rightarrow> 'v"
    and fresh :: "string \<Rightarrow> 'e"
    and keeps :: "('e \<Rightarrow> 'e) \<Rightarrow> bool"
  assumes look_upd:
    "keeps f \<Longrightarrow> look k (upd k' f v) =
       (if k = k' then Some (f (case look k v of None \<Rightarrow> fresh k | Some e \<Rightarrow> e)) else look k v)"
begin

lemma look_upd_same:
  "keeps f \<Longrightarrow> look k (upd k f v) = Some (f (case look k v of None \<Rightarrow> fresh k | Some e \<Rightarrow> e))"
  by (simp add: look_upd)

lemma look_upd_other: "keeps f \<Longrightarrow> k \<noteq> k' \<Longrightarrow> look k (upd k' f v) = look k v"
  by (simp add: look_upd)

lemma look_upd_twice:
  "keeps f \<Longrightarrow> keeps g \<Longrightarrow> look k (upd k g (upd k f v)) =
     Some (g (f (case look k v of None \<Rightarrow> fresh k | Some e \<Rightarrow> e)))"
  by (simp add: look_upd)

lemma look_upd_commute:
  "keeps f \<Longrightarrow> keeps g \<Longrightarrow> k \<noteq> k' \<Longrightarrow> look j (upd k f (upd k' g v)) = look j (upd k' g (upd k f v))"
  by (auto simp: look_upd)

lemma look_upd_present: "keeps f \<Longrightarrow> look k v \<noteq> None \<Longrightarrow> look k (upd k' f v) \<noteq> None"
  by (simp add: look_upd)

end

text \<open>The two vectors as stores: a change of the element of a name.\<close>

definition vec_look :: "('e \<Rightarrow> string) \<Rightarrow> string \<Rightarrow> 'e list \<Rightarrow> 'e option" where
  "vec_look key name xs = map_option ((!) xs) (slot key name xs)"

definition vec_upd ::
  "('e \<Rightarrow> string) \<Rightarrow> (string \<Rightarrow> 'e) \<Rightarrow> string \<Rightarrow> ('e \<Rightarrow> 'e) \<Rightarrow> 'e list \<Rightarrow> 'e list" where
  "vec_upd key mk name f xs =
     (case vec_ref key mk name xs of (i, xs') \<Rightarrow> xs'[i := f (xs' ! i)])"


definition keeps_key :: "('e \<Rightarrow> string) \<Rightarrow> ('e \<Rightarrow> 'e) \<Rightarrow> bool" where
  "keeps_key key f \<longleftrightarrow> (\<forall>e. key (f e) = key e)"

section \<open>The vectors keep the contract\<close>

lemma find_pos_map: "find_pos p (map g xs) = find_pos (\<lambda>x. p (g x)) xs"
  by (induction xs) auto

lemma slot_keys: "slot key name xs = find_pos (\<lambda>n. n = name) (map key xs)"
  by (simp add: slot_def find_pos_map)

lemma slot_SomeD: "slot key name xs = Some i \<Longrightarrow> i < length xs \<and> key (xs ! i) = name"
  by (auto simp: slot_def dest: find_pos_SomeD)

lemma slot_update: "key e = key (xs ! i) \<Longrightarrow> slot key name (xs[i := e]) = slot key name xs"
proof (cases "i < length xs")
  case True
  moreover assume "key e = key (xs ! i)"
  ultimately have "map key (xs[i := e]) = map key xs"
    by (metis list_update_id map_update)
  then show ?thesis by (simp only: slot_keys)
next
  case False
  then show ?thesis by (simp add: list_update_beyond)
qed

lemma slot_snoc:
  "slot key name (xs @ [e]) =
     (case slot key name xs of Some i \<Rightarrow> Some i
      | None \<Rightarrow> if key e = name then Some (length xs) else None)"
  by (simp add: slot_def find_pos_append split: option.splits)

lemma vec_look_None_iff: "vec_look key name xs = None \<longleftrightarrow> slot key name xs = None"
  by (simp add: vec_look_def)

lemma vec_look_Nil [simp]: "vec_look key name [] = None"
  by (simp add: vec_look_None_iff slot_def)

lemma vec_look_snoc:
  "vec_look key name (xs @ [e]) =
     (case vec_look key name xs of Some x \<Rightarrow> Some x
      | None \<Rightarrow> if key e = name then Some e else None)"
  by (cases "slot key name xs") (auto simp: vec_look_def slot_snoc nth_append dest: slot_SomeD)

lemma vec_look_update:
  assumes "slot key k' xs = Some i" and "key e = k'"
  shows "vec_look key k (xs[i := e]) = (if k = k' then Some e else vec_look key k xs)"
proof -
  from slot_SomeD [OF assms(1)] have i: "i < length xs" "key (xs ! i) = k'" by simp_all
  have s: "slot key k (xs[i := e]) = slot key k xs"
    using assms(2) i by (simp add: slot_update)
  show ?thesis
  proof (cases "k = k'")
    case True
    with assms(1) i s show ?thesis by (simp add: vec_look_def)
  next
    case False
    then have "slot key k xs \<noteq> Some i" using i slot_SomeD by metis
    with False s show ?thesis by (auto simp: vec_look_def map_option_case split: option.splits)
  qed
qed

lemma vec_look_upd:
  assumes "\<And>n. key (mk n) = n" and "keeps_key key f"
  shows "vec_look key k (vec_upd key mk k' f xs) =
    (if k = k' then Some (f (case vec_look key k xs of None \<Rightarrow> mk k | Some e \<Rightarrow> e))
     else vec_look key k xs)"
proof (cases "slot key k' xs")
  case None
  have "vec_upd key mk k' f xs = xs @ [f (mk k')]"
    using None by (simp add: vec_upd_def vec_ref_def)
  moreover have "key (f (mk k')) = k'" using assms by (simp add: keeps_key_def)
  ultimately show ?thesis
    using None by (auto simp: vec_look_snoc vec_look_None_iff [symmetric] split: option.splits)
next
  case (Some i)
  then have i: "key (xs ! i) = k'" by (auto dest: slot_SomeD)
  have "vec_upd key mk k' f xs = xs[i := f (xs ! i)]"
    using Some by (simp add: vec_upd_def vec_ref_def)
  moreover have "key (f (xs ! i)) = k'" using assms(2) i by (simp add: keeps_key_def)
  ultimately show ?thesis
    using vec_look_update [OF Some] Some by (simp add: vec_look_def)
qed

interpretation sections: keyed_store "vec_look sec_name" "vec_upd sec_name new_section" new_section
    "keeps_key sec_name"
  by unfold_locales (simp add: vec_look_upd new_section_def)

interpretation items: keyed_store "vec_look item_key" "vec_upd item_key new_item" new_item
    "keeps_key item_key"
  by unfold_locales (simp add: vec_look_upd new_item_def)

section \<open>Loading, line by line\<close>

lemma ini_value_look:
  "ini_value f s k =
     (case vec_look sec_name s f of None \<Rightarrow> None
      | Some sec \<Rightarrow>
          (case vec_look item_key k (sec_items sec) of None \<Rightarrow> None | Some it \<Rightarrow> item_value it))"
  by (auto simp: ini_value_def ini_at_def sec_at_def vec_look_def split: option.splits)

lemma item_set_keeps: "keeps_key item_key (item_set v)"
  by (auto simp: keeps_key_def item_set_def item_remove_def split: option.splits)

lemma item_value_set [simp]: "item_value (item_set v it) = v"
  by (auto simp: item_set_def item_remove_def split: option.splits)

lemma sec_assign_eq:
  "sec_assign key value sec =
     (if key = [] then Inl (Throw Out_of_range)
      else Inr (sec\<lparr>sec_items := vec_upd item_key new_item key (item_set (Some value)) (sec_items sec)\<rparr>))"
  by (auto simp: sec_assign_def sec_ref_def vec_upd_def split: prod.splits)

definition assign_in :: "string \<Rightarrow> string \<Rightarrow> ini_section \<Rightarrow> ini_section" where
  "assign_in key value sec =
     sec\<lparr>sec_items := vec_upd item_key new_item key (item_set (Some value)) (sec_items sec)\<rparr>"

lemma assign_in_keeps: "keeps_key sec_name (assign_in key value)"
  by (simp add: keeps_key_def assign_in_def)

lemma value_assign:
  "ini_value (vec_upd sec_name new_section n (assign_in key value) f) s k =
     (if s = n \<and> k = key then Some value else ini_value f s k)"
proof (cases "s = n")
  case False
  then show ?thesis by (simp add: ini_value_look sections.look_upd [OF assign_in_keeps])
next
  case True
  then show ?thesis
    by (cases "vec_look sec_name n f")
       (simp_all add: ini_value_look sections.look_upd [OF assign_in_keeps]
          items.look_upd [OF item_set_keeps] assign_in_def new_section_def)
qed

text \<open>What one line does, by its meaning.\<close>

lemma take_takeWhile:
  "find_pos p xs = Some i \<Longrightarrow> take i xs = takeWhile (\<lambda>x. \<not> p x) xs"
  by (induction xs arbitrary: i) (auto split: if_splits)


lemma ini_line_Blank:
  "ini_line line = Blank \<Longrightarrow> load_line (f, current) line = Inr (f, current)"
  by (simp add: ini_line_def load_line_def Let_def rtrim_view_eq split_view_eq split_two_hd
      split: if_splits)

lemma ini_line_Header:
  "ini_line line = Header name \<Longrightarrow>
   load_line (f, current) line = (case ini_ref name f of (i, f') \<Rightarrow> Inr (f', Some i))"
proof -
  assume h: "ini_line line = Header name"
  let ?d = "rtrim (takeWhile (\<lambda>c. c \<noteq> CHR '';'') line)"
  from h have d: "?d \<noteq> []" "hd ?d = CHR ''[''" "CHR '']'' \<in> set ?d"
    and name: "name = takeWhile (\<lambda>c. c \<noteq> CHR '']'') (tl ?d)"
    by (auto simp: ini_line_def Let_def split: if_splits)
  from d obtain e where e: "?d = CHR ''['' # e" by (cases ?d) auto
  from d(3) e have "find_pos (\<lambda>c. c = CHR '']'') e \<noteq> None" by (auto simp: find_pos_None_iff)
  then obtain i where i: "find_pos (\<lambda>c. c = CHR '']'') e = Some i" by blast
  have "take i e = name" using take_takeWhile [OF i] name e by simp
  then show ?thesis
    using i by (simp add: load_line_def Let_def rtrim_view_eq split_view_eq split_two_hd e)
qed

lemma split_assign:
  "CHR ''='' \<in> set d \<Longrightarrow> split d (CHR ''='') 2 =
     [takeWhile (\<lambda>c. c \<noteq> CHR ''='') d, tl (dropWhile (\<lambda>c. c \<noteq> CHR ''='') d)]"
proof -
  assume "CHR ''='' \<in> set d"
  then obtain p t where "d = p @ CHR ''='' # t" "CHR ''='' \<notin> set p"
    using split_list_first by metis
  moreover from this(2) have "takeWhile (\<lambda>c. c \<noteq> CHR ''='') (p @ CHR ''='' # t) = p"
    "dropWhile (\<lambda>c. c \<noteq> CHR ''='') (p @ CHR ''='' # t) = CHR ''='' # t"
    by (induction p) auto
  ultimately show ?thesis by (simp add: split_two)
qed

lemma ini_line_Assign:
  "ini_line line = Assign key value \<Longrightarrow>
   load_line (f, current) line =
     (case current of None \<Rightarrow> Inl UB
      | Some i \<Rightarrow> bind (sec_assign key value (f ! i)) (\<lambda>sec. Inr (f[i := sec], Some i)))"
  by (cases current)
     (auto simp: ini_line_def load_line_def Let_def rtrim_view_eq split_view_eq split_two_hd
        split_assign split: if_splits)

lemma ini_line_Malformed:
  "ini_line line = Malformed \<Longrightarrow> load_line (f, current) line = Inl (Throw Invalid_argument)"
proof -
  assume m: "ini_line line = Malformed"
  let ?d = "rtrim (takeWhile (\<lambda>c. c \<noteq> CHR '';'') line)"
  from m have d: "?d \<noteq> []"
    and c: "hd ?d = CHR ''['' \<and> CHR '']'' \<notin> set ?d \<or> hd ?d \<noteq> CHR ''['' \<and> CHR ''='' \<notin> set ?d"
    by (auto simp: ini_line_def Let_def split: if_splits)
  show ?thesis
  proof (cases "hd ?d = CHR ''[''")
    case True
    with c have "find_pos (\<lambda>c. c = CHR '']'') ?d = None" by (auto simp: find_pos_None_iff)
    with True d show ?thesis
      by (simp add: load_line_def Let_def rtrim_view_eq split_view_eq split_two_hd)
  next
    case False
    with c have "split ?d (CHR ''='') 2 = [?d]" by (simp add: split_no_sep)
    with False d show ?thesis
      by (simp add: load_line_def Let_def rtrim_view_eq split_view_eq split_two_hd)
  qed
qed

text \<open>The current section is the first of its name.\<close>

definition current_ok :: "ini \<times> nat option \<Rightarrow> bool" where
  "current_ok st =
     (case st of (f, current) \<Rightarrow>
        (case current of None \<Rightarrow> True
         | Some i \<Rightarrow> slot sec_name (sec_name (f ! i)) f = Some i))"

lemma ini_ref_ok:
  "ini_ref name f = (i, f') \<Longrightarrow> slot sec_name name f' = Some i \<and> sec_name (f' ! i) = name"
  by (auto simp: ini_ref_def vec_ref_def slot_snoc new_section_def nth_append
      dest: slot_SomeD split: option.splits)

lemma ini_ref_value: "ini_ref name f = (i, f') \<Longrightarrow> ini_value f' s k = ini_value f s k"
  by (auto simp: ini_ref_def vec_ref_def ini_value_look vec_look_snoc new_section_def
      split: option.splits if_splits)

lemma assign_at_current:
  assumes "slot sec_name (sec_name (f ! i)) f = Some i" and "key \<noteq> []"
  shows "bind (sec_assign key value (f ! i)) (\<lambda>sec. Inr (f[i := sec], Some i)) =
    Inr (vec_upd sec_name new_section (sec_name (f ! i)) (assign_in key value) f, Some i)"
  using assms by (simp add: sec_assign_eq vec_upd_def vec_ref_def assign_in_def)

lemma vec_upd_at:
  "slot sec_name (sec_name (f ! i)) f = Some i \<Longrightarrow>
   vec_upd sec_name new_section (sec_name (f ! i)) g f = f[i := g (f ! i)]"
  by (simp add: vec_upd_def vec_ref_def)

lemma current_ok_assign:
  assumes "slot sec_name (sec_name (f ! i)) f = Some i"
  shows "sec_name (f[i := assign_in key value (f ! i)] ! i) = sec_name (f ! i)"
    and "slot sec_name (sec_name (f ! i)) (f[i := assign_in key value (f ! i)]) = Some i"
proof -
  from slot_SomeD [OF assms] have "i < length f" by simp
  then show "sec_name (f[i := assign_in key value (f ! i)] ! i) = sec_name (f ! i)"
    by (simp add: assign_in_def)
  show "slot sec_name (sec_name (f ! i)) (f[i := assign_in key value (f ! i)]) = Some i"
    using assms by (subst slot_update) (simp_all add: assign_in_def)
qed

definition current_name :: "ini \<times> nat option \<Rightarrow> string option" where
  "current_name st = (case st of (f, current) \<Rightarrow> map_option (\<lambda>i. sec_name (f ! i)) current)"

lemma foldM_load:
  "current_ok (f, current) \<Longrightarrow> foldM load_line (f, current) ls = Inr (f', current') \<Longrightarrow>
   ini_value f' s k =
     (case map_of (rev (assignments (current_name (f, current)) (map ini_line ls))) (s, k) of
        Some v \<Rightarrow> Some v | None \<Rightarrow> ini_value f s k)"
proof (induction ls arbitrary: f current)
  case Nil
  then show ?case by simp
next
  case (Cons l ls)
  show ?case
  proof (cases "ini_line l")
    case Blank
    with Cons show ?thesis by (simp add: ini_line_Blank)
  next
    case (Header name)
    obtain i g where r: "ini_ref name f = (i, g)" by fastforce
    with ini_ref_ok [OF r] have "current_ok (g, Some i)" "current_name (g, Some i) = Some name"
      by (simp_all add: current_ok_def current_name_def)
    with Cons Header r ini_ref_value [OF r] show ?thesis
      by (auto simp: ini_line_Header split: option.splits)
  next
    case (Assign key v)
    with Cons.prems(2) obtain i where i: "current = Some i" and key: "key \<noteq> []"
      by (cases current) (auto simp: ini_line_Assign sec_assign_eq split: if_splits)
    from Cons.prems(1) i have sl: "slot sec_name (sec_name (f ! i)) f = Some i"
      by (simp add: current_ok_def)
    let ?g = "f[i := assign_in key v (f ! i)]"
    have ok: "current_ok (?g, Some i)"
      and nm: "current_name (?g, Some i) = Some (sec_name (f ! i))"
      using current_ok_assign [OF sl] by (simp_all add: current_ok_def current_name_def)
    have step: "load_line (f, current) l = Inr (?g, Some i)"
      using Assign i assign_at_current [OF sl key] vec_upd_at [OF sl] by (simp add: ini_line_Assign)
    have "ini_value ?g s k = (if s = sec_name (f ! i) \<and> k = key then Some v else ini_value f s k)"
      using value_assign [of "sec_name (f ! i)" key v f s k] vec_upd_at [OF sl] by simp
    with Cons.IH [OF ok] Cons.prems(2) step nm i Assign show ?thesis
      by (auto simp: current_name_def map_add_def split: option.splits)
  next
    case Malformed
    with Cons.prems(2) show ?thesis by (simp add: ini_line_Malformed)
  qed
qed

lemma foldM_load_returns:
  "current_ok (f, current) \<Longrightarrow>
   returns (foldM load_line (f, current) ls) \<longleftrightarrow> well_formed (current \<noteq> None) (map ini_line ls)"
proof (induction ls arbitrary: f current)
  case Nil
  then show ?case by simp
next
  case (Cons l ls)
  show ?case
  proof (cases "ini_line l")
    case Blank
    with Cons show ?thesis by (simp add: ini_line_Blank)
  next
    case (Header name)
    obtain i g where r: "ini_ref name f = (i, g)" by fastforce
    with ini_ref_ok [OF r] have "current_ok (g, Some i)" by (simp add: current_ok_def)
    with Cons.IH [OF this] Header r show ?thesis by (simp add: ini_line_Header)
  next
    case (Assign key v)
    show ?thesis
    proof (cases "current = None \<or> key = []")
      case True
      with Assign show ?thesis
        by (cases current) (auto simp: ini_line_Assign sec_assign_eq)
    next
      case False
      then obtain i where i: "current = Some i" and key: "key \<noteq> []" by auto
      from Cons.prems i have sl: "slot sec_name (sec_name (f ! i)) f = Some i"
        by (simp add: current_ok_def)
      have ok: "current_ok (f[i := assign_in key v (f ! i)], Some i)"
        using current_ok_assign [OF sl] by (simp add: current_ok_def)
      have "load_line (f, current) l = Inr (f[i := assign_in key v (f ! i)], Some i)"
        using Assign i assign_at_current [OF sl key] vec_upd_at [OF sl] by (simp add: ini_line_Assign)
      with Cons.IH [OF ok] i key Assign show ?thesis by simp
    qed
  next
    case Malformed
    then show ?thesis by (simp add: ini_line_Malformed)
  qed
qed


lemma foldM_load_no_UB:
  "current_ok (f, Some i) \<Longrightarrow> foldM load_line (f, Some i) ls \<noteq> Inl UB"
proof (induction ls arbitrary: f i)
  case Nil
  then show ?case by simp
next
  case (Cons l ls)
  show ?case
  proof (cases "ini_line l")
    case Blank
    with Cons show ?thesis by (simp add: ini_line_Blank)
  next
    case (Header name)
    obtain j g where r: "ini_ref name f = (j, g)" by fastforce
    with ini_ref_ok [OF r] have "current_ok (g, Some j)" by (simp add: current_ok_def)
    with Cons.IH [OF this] Header r show ?thesis by (simp add: ini_line_Header)
  next
    case (Assign key v)
    from Cons.prems have sl: "slot sec_name (sec_name (f ! i)) f = Some i"
      by (simp add: current_ok_def)
    have ok: "current_ok (f[i := assign_in key v (f ! i)], Some i)"
      using current_ok_assign [OF sl] by (simp add: current_ok_def)
    show ?thesis
    proof (cases "key = []")
      case True
      with Assign show ?thesis by (simp add: ini_line_Assign sec_assign_eq)
    next
      case False
      have "load_line (f, Some i) l = Inr (f[i := assign_in key v (f ! i)], Some i)"
        using Assign assign_at_current [OF sl False] vec_upd_at [OF sl] by (simp add: ini_line_Assign)
      with Cons.IH [OF ok] show ?thesis by simp
    qed
  next
    case Malformed
    then show ?thesis by (simp add: ini_line_Malformed)
  qed
qed

lemma foldM_load_UB:
  "foldM load_line (f, None) ls = Inl UB \<longleftrightarrow>
   (\<exists>key v. hd (dropWhile (\<lambda>l. l = Blank) (map ini_line ls) @ [Blank]) = Assign key v)"
proof (induction ls)
  case Nil
  then show ?case by simp
next
  case (Cons l ls)
  show ?case
  proof (cases "ini_line l")
    case Blank
    with Cons show ?thesis by (simp add: ini_line_Blank)
  next
    case (Header name)
    obtain j g where r: "ini_ref name f = (j, g)" by fastforce
    with ini_ref_ok [OF r] have "current_ok (g, Some j)" by (simp add: current_ok_def)
    from foldM_load_no_UB [OF this] Header r show ?thesis by (simp add: ini_line_Header)
  next
    case (Assign key v)
    then show ?thesis by (simp add: ini_line_Assign)
  next
    case Malformed
    then show ?thesis by (simp add: ini_line_Malformed)
  qed
qed

section \<open>Reading back what was written\<close>

lemma ini_line_data:
  "rtrim (takeWhile (\<lambda>c. c \<noteq> CHR '';'') line) = d \<Longrightarrow> ini_line line =
     (if d = [] then Blank
      else if hd d = CHR ''['' then
        (if CHR '']'' \<in> set d then Header (takeWhile (\<lambda>c. c \<noteq> CHR '']'') (tl d)) else Malformed)
      else if CHR ''='' \<in> set d then
        Assign (takeWhile (\<lambda>c. c \<noteq> CHR ''='') d) (tl (dropWhile (\<lambda>c. c \<noteq> CHR ''='') d))
      else Malformed)"
  by (simp add: ini_line_def Let_def)

lemma ini_line_render_header:
  assumes "writable_name name"
  shows "ini_line (CHR ''['' # name @ [CHR '']'']) = Header name"
proof -
  let ?l = "CHR ''['' # name @ [CHR '']'']"
  have "takeWhile (\<lambda>c. c \<noteq> CHR '';'') ?l = ?l"
    using assms by (intro takeWhile_all) (auto simp: writable_name_def)
  then have "rtrim (takeWhile (\<lambda>c. c \<noteq> CHR '';'') ?l) = rtrim ?l" by (rule arg_cong)
  also have "\<dots> = ?l" by (rule rtrim_no_space) (simp_all add: isspace_def)
  finally have d: "rtrim (takeWhile (\<lambda>c. c \<noteq> CHR '';'') ?l) = ?l" .
  have "ini_line ?l = Header (takeWhile (\<lambda>c. c \<noteq> CHR '']'') (name @ [CHR '']'']))"
    unfolding ini_line_data [OF d] by simp
  then show ?thesis
    using assms takeWhile_until [of "CHR '']''" name "[]"] by (simp add: writable_name_def)
qed

lemma ini_line_render_item:
  assumes "writable_item (k, v)"
  shows "ini_line (k @ CHR ''='' # v) = Assign k v"
proof -
  let ?l = "k @ CHR ''='' # v"
  have "takeWhile (\<lambda>c. c \<noteq> CHR '';'') ?l = ?l"
    using assms by (intro takeWhile_all) (auto simp: writable_item_def)
  then have "rtrim (takeWhile (\<lambda>c. c \<noteq> CHR '';'') ?l) = rtrim ?l" by (rule arg_cong)
  also have "\<dots> = ?l"
    using assms by (intro rtrim_no_space) (auto simp: writable_item_def isspace_def)
  finally have d: "rtrim (takeWhile (\<lambda>c. c \<noteq> CHR '';'') ?l) = ?l" .
  have h: "hd ?l \<noteq> CHR ''[''" using assms by (simp add: writable_item_def)
  have "ini_line ?l =
      Assign (takeWhile (\<lambda>c. c \<noteq> CHR ''='') ?l) (tl (dropWhile (\<lambda>c. c \<noteq> CHR ''='') ?l))"
    unfolding ini_line_data [OF d] using h by simp
  then show ?thesis
    using assms by (simp add: takeWhile_until dropWhile_until writable_item_def)
qed

definition writable_config :: "(string \<times> (string \<times> string) list) list \<Rightarrow> bool" where
  "writable_config cfg \<longleftrightarrow>
     (\<forall>(name, kvs) \<in> set cfg. writable_name name \<and> (\<forall>kv \<in> set kvs. writable_item kv))"

lemma render_lines_meaning:
  "writable_config cfg \<Longrightarrow> map ini_line (render_lines cfg) =
     concat (map (\<lambda>(name, kvs). Header name # map (\<lambda>(k, v). Assign k v) kvs) cfg)"
proof (induction cfg)
  case Nil
  show ?case by (simp add: render_lines_def)
next
  case (Cons sec cfg)
  obtain name kvs where sec: "sec = (name, kvs)" by fastforce
  have "map ini_line (map (\<lambda>(k, v). k @ CHR ''='' # v) kvs) = map (\<lambda>(k, v). Assign k v) kvs"
    using Cons.prems sec by (auto simp: writable_config_def ini_line_render_item)
  moreover have "ini_line (CHR ''['' # name @ [CHR '']'']) = Header name"
    using Cons.prems sec by (simp add: writable_config_def ini_line_render_header)
  moreover have "map ini_line (render_lines cfg) =
      concat (map (\<lambda>(name, kvs). Header name # map (\<lambda>(k, v). Assign k v) kvs) cfg)"
    using Cons by (simp add: writable_config_def)
  ultimately show ?case by (simp add: render_lines_def sec)
qed


lemma assignments_items:
  "assignments (Some s) (map (\<lambda>(k, v). Assign k v) kvs @ ls) =
     map (\<lambda>(k, v). ((s, k), v)) kvs @ assignments (Some s) ls"
  by (induction kvs) auto

lemma assignments_render:
  "writable_config cfg \<Longrightarrow> assignments sec (map ini_line (render_lines cfg)) = flat_config cfg"
proof -
  have "assignments sec (concat (map (\<lambda>(name, kvs). Header name # map (\<lambda>(k, v). Assign k v) kvs) cfg))
      = flat_config cfg"
  proof (induction cfg arbitrary: sec)
    case Nil
    show ?case by (simp add: flat_config_def)
  next
    case (Cons x cfg)
    then show ?case by (cases x) (simp add: flat_config_def assignments_items)
  qed
  then show "writable_config cfg \<Longrightarrow> ?thesis" by (simp add: render_lines_meaning)
qed

lemma well_formed_items:
  "(\<forall>kv \<in> set kvs. writable_item kv) \<Longrightarrow>
   well_formed True (map (\<lambda>(k, v). Assign k v) kvs @ ls) = well_formed True ls"
  by (induction kvs) (auto simp: writable_item_def)

lemma well_formed_render:
  "writable_config cfg \<Longrightarrow> well_formed b (map ini_line (render_lines cfg))"
proof -
  have "writable_config cfg \<Longrightarrow>
      well_formed b (concat (map (\<lambda>(name, kvs). Header name # map (\<lambda>(k, v). Assign k v) kvs) cfg))"
  proof (induction cfg arbitrary: b)
    case Nil
    show ?case by simp
  next
    case (Cons x cfg)
    then show ?case by (cases x) (simp add: writable_config_def well_formed_items)
  qed
  then show "writable_config cfg \<Longrightarrow> ?thesis" by (simp add: render_lines_meaning)
qed

lemma render_lines_no_newline:
  "writable_config cfg \<Longrightarrow> l \<in> set (render_lines cfg) \<Longrightarrow> CHR 0x0A \<notin> set l"
proof (induction cfg)
  case Nil
  then show ?case by (simp add: render_lines_def)
next
  case (Cons sec cfg)
  obtain name kvs where sec: "sec = (name, kvs)" by fastforce
  have r: "render_lines (sec # cfg) =
      (CHR ''['' # name @ [CHR '']'']) # map (\<lambda>(k, v). k @ CHR ''='' # v) kvs @ render_lines cfg"
    by (simp add: render_lines_def sec)
  have n: "writable_name name" and i: "\<And>kv. kv \<in> set kvs \<Longrightarrow> writable_item kv"
    and c: "writable_config cfg"
    using Cons.prems(1) sec by (auto simp: writable_config_def)
  have "CHR 0x0A \<notin> set (k @ CHR ''='' # v)" if "(k, v) \<in> set kvs" for k v
    using i [OF that] by (simp add: writable_item_def)
  with Cons.prems(2) Cons.IH [OF c] n show ?case by (auto simp: r writable_name_def)
qed

section \<open>Properties\<close>

text \<open>(C13) A file that loads answers, for every section and key, with the last assignment to them
  in the file: \<open>operator[]\<close> finds or appends, and the assignment replaces.\<close>

theorem load_file_value:
  assumes "load_file file_data [] = Inr f"
  shows "ini_value f s k =
    map_of (rev (assignments None (map ini_line (split file_data (CHR 0x0A) 0)))) (s, k)"
proof -
  from assms obtain c where "foldM load_line ([], None) (split file_data (CHR 0x0A) 0) = Inr (f, c)"
    by (auto simp: load_file_def split_view_eq outcome_simps)
  from foldM_load [OF _ this, of s k] show ?thesis
    by (simp add: current_ok_def current_name_def ini_value_look split: option.splits)
qed

theorem load_file_value_witness:
  "\<exists>f. load_file ''[admin]'' [] = Inr f \<and> ini_value f ''admin'' ''password'' = None"
proof -
  have l: "load_file ''[admin]'' [] = Inr [\<lparr>sec_name = ''admin'', sec_items = []\<rparr>]"
    by code_simp
  show ?thesis
    using l load_file_value [OF l, of "''admin''" "''password''"]
    by (simp add: split_no_sep ini_line_def Let_def rtrim_def isspace_def)
qed

text \<open>Loading returns exactly on the files whose every line is empty, a header, or an
  assignment with a key that comes after some header.\<close>

theorem load_file_returns_iff:
  "returns (load_file file_data []) \<longleftrightarrow>
   well_formed False (map ini_line (split file_data (CHR 0x0A) 0))"
  using foldM_load_returns [of "[]" None "split file_data (CHR 0x0A) 0"]
  by (cases "foldM load_line ([], None) (split file_data (CHR 0x0A) 0)")
    (simp_all add: load_file_def split_view_eq current_ok_def)

text \<open>Loading runs into undefined behaviour, the assignment through the null
  \<open>current_section\<close>, exactly when the first line that is not empty is an assignment.\<close>

theorem load_file_UB_iff:
  "load_file file_data [] = Inl UB \<longleftrightarrow>
   (\<exists>key v. hd (dropWhile (\<lambda>l. l = Blank) (map ini_line (split file_data (CHR 0x0A) 0)) @ [Blank])
      = Assign key v)"
  using foldM_load_UB [of "[]" "split file_data (CHR 0x0A) 0"]
  by (simp add: load_file_def split_view_eq outcome_simps)

text \<open>(C30) A configuration written section by section reads back: loading the written file
  succeeds and answers every section and key with the value written last.\<close>

theorem ini_roundtrip:
  assumes "writable_config cfg" and "cfg \<noteq> []"
  shows "\<exists>f. load_file (join (CHR 0x0A) (render_lines cfg)) [] = Inr f \<and>
    (\<forall>s k. ini_value f s k = map_of (rev (flat_config cfg)) (s, k))"
proof -
  let ?data = "join (CHR 0x0A) (render_lines cfg)"
  have "render_lines cfg \<noteq> []" using assms(2) by (cases cfg) (auto simp: render_lines_def)
  then have lines: "split ?data (CHR 0x0A) 0 = render_lines cfg"
    using render_lines_no_newline [OF assms(1)] by (rule split_join)
  have "returns (foldM load_line ([], None) (render_lines cfg))"
    using foldM_load_returns [of "[]" None] well_formed_render [OF assms(1)]
    by (simp add: current_ok_def)
  then obtain f c where f: "foldM load_line ([], None) (render_lines cfg) = Inr (f, c)"
    by (auto simp: returns_iff)
  have "ini_value f s k = map_of (rev (flat_config cfg)) (s, k)" for s k
    using foldM_load [OF _ f, of s k] assignments_render [OF assms(1)]
    by (simp add: current_ok_def current_name_def ini_value_look split: option.splits)
  with f lines show ?thesis by (auto simp: load_file_def split_view_eq)
qed

theorem ini_roundtrip_witness:
  "\<exists>f. load_file (join (CHR 0x0A) (render_lines [(''admin'', [(''password'', ''cat'')])])) [] = Inr f \<and>
    ini_value f ''admin'' ''password'' = Some ''cat''"
proof -
  have "writable_config [(''admin'', [(''password'', ''cat'')])]"
    by (simp add: writable_config_def writable_name_def writable_item_def isspace_def)
  from ini_roundtrip [OF this] show ?thesis by (auto simp: flat_config_def)
qed

end
