(* ===== verification/Auth.thy ===== *)
theory Auth
  imports Base64 Ini
begin

text \<open>
  \<open>src/server/info.hpp\<close> and \<open>info.cpp\<close>: the result type of the operations the
  server offers, and \<open>Helpers::Authenticate\<close>, the check of the \<open>Authorization\<close>
  header against the configuration file.  The content of that file is an argument, an outcome
  because opening it may fail.
\<close>

section \<open>Results of operations\<close>

datatype errors = No_error | NotImplemented | Failed | NeedsPassword

record fields =
  fld_authentication :: "string option"

text \<open>\<open>ljh::expected<T, Errors>\<close>; an operation may also throw.\<close>

type_synonym 'a expected = "errors + 'a"

section \<open>Authenticate\<close>

text \<open>\<open>ini_file["admin"]["password"].get<std::string>()\<close> on a file that is not
  const: both subscripts append what is missing.\<close>

definition stored_password :: "ini \<Rightarrow> string outcome" where
  "stored_password f =
     (case ini_ref ''admin'' f of (i, f') \<Rightarrow>
        bind (sec_ref ''password'' (f' ! i)) (\<lambda>(j, sec). item_get Some (sec_items sec ! j)))"

definition authenticate :: "string outcome \<Rightarrow> string \<Rightarrow> bool outcome" where
  "authenticate config_file authentication =
     (let type_base = split_str authentication (CHR '' '') [] 2 in
      bind (vec_get type_base 0) (\<lambda>type.
      if type \<noteq> ''Basic'' then Inl (Throw Invalid_argument)
      else
        bind (vec_get type_base 1) (\<lambda>base.
        bind (decode base) (\<lambda>decoded.
        let info = split decoded (CHR '':'') 2 in
        bind (vec_get info 0) (\<lambda>user.
        if user \<noteq> ''admin'' then Inl (Throw Invalid_argument)
        else
          bind config_file (\<lambda>file_data.
          bind (load_file file_data []) (\<lambda>ini_file.
          bind (vec_get info 1) (\<lambda>given.
          bind (stored_password ini_file) (\<lambda>password.
          Inr (given = password))))))))))"

text \<open>The header of a token, and what the token of a client encodes.\<close>

definition basic :: "string \<Rightarrow> string" where
  "basic tok = ''Basic '' @ tok"

definition login :: "string \<Rightarrow> string" where
  "login password = ''admin:'' @ password"

section \<open>Lemmas\<close>

lemma split_basic: "split (basic tok) (CHR '' '') 2 = [''Basic'', tok]"
  using split_two [of "CHR '' ''" "''Basic''" tok] by (simp add: basic_def)

lemma split_login: "split (login pw) (CHR '':'') 2 = [''admin'', pw]"
  using split_two [of "CHR '':''" "''admin''" pw] by (simp add: login_def)

lemma basic_neq [simp]: "basic tok \<noteq> ''Basic''" "''Basic'' \<noteq> basic tok"
  by (simp_all add: basic_def)

lemma basic_inject [simp]: "basic t = basic u \<longleftrightarrow> t = u"
  by (simp add: basic_def)

lemma login_neq [simp]: "login pw \<noteq> ''admin''" "''admin'' \<noteq> login pw"
  by (simp_all add: login_def)

lemma login_inject [simp]: "login t = login u \<longleftrightarrow> t = u"
  by (simp add: login_def)

lemma split_cases:
  "split s sep 2 =
     (if sep \<in> set s then [takeWhile (\<lambda>c. c \<noteq> sep) s, tl (dropWhile (\<lambda>c. c \<noteq> sep) s)] else [s])"
proof (cases "sep \<in> set s")
  case True
  then obtain p t where s: "s = p @ sep # t" and p: "sep \<notin> set p"
    using split_list_first by metis
  from p have "takeWhile (\<lambda>c. c \<noteq> sep) s = p" "dropWhile (\<lambda>c. c \<noteq> sep) s = sep # t"
    unfolding s by (rule takeWhile_until, rule dropWhile_until)
  with True p s show ?thesis by (simp add: split_two)
qed (simp add: split_no_sep)

lemma split_head_iff:
  "sep \<notin> set w \<Longrightarrow> hd (split s sep 2) = w \<longleftrightarrow> s = w \<or> (\<exists>t. s = w @ sep # t)"
proof
  assume "sep \<notin> set w" and h: "hd (split s sep 2) = w"
  show "s = w \<or> (\<exists>t. s = w @ sep # t)"
  proof (cases "sep \<in> set s")
    case False
    with h show ?thesis by (simp add: split_no_sep)
  next
    case True
    then obtain p t where "s = p @ sep # t" "sep \<notin> set p" using split_list_first by metis
    with h show ?thesis by (simp add: split_two)
  qed
next
  assume "sep \<notin> set w" and "s = w \<or> (\<exists>t. s = w @ sep # t)"
  then show "hd (split s sep 2) = w" by (auto simp: split_two split_no_sep)
qed

lemma vec_get_0_split: "vec_get (split s sep 2) 0 = Inr (hd (split s sep 2))"
  by (simp add: hd_conv_nth)

lemma stored_password_value:
  "stored_password f =
     (case ini_value f ''admin'' ''password'' of
        Some p \<Rightarrow> Inr p | None \<Rightarrow> Inl (Throw Bad_optional_access))"
proof -
  obtain i f' where r: "ini_ref ''admin'' f = (i, f')" by fastforce
  obtain j xs where q: "vec_ref item_key new_item ''password'' (sec_items (f' ! i)) = (j, xs)"
    by fastforce
  have v: "ini_value f' s k = ini_value f s k" for s k by (rule ini_ref_value [OF r])
  have s: "slot sec_name ''admin'' f' = Some i" using ini_ref_ok [OF r] by simp
  have "stored_password f = item_get Some (xs ! j)"
    by (simp add: stored_password_def r sec_ref_def q)
  moreover have "item_value (xs ! j) = ini_value f' ''admin'' ''password''"
    using q s
    by (auto simp: ini_value_def ini_at_def sec_at_def vec_ref_def new_item_def nth_append
        split: option.splits)
  ultimately show ?thesis
    using v by (auto simp: item_get_def split: option.splits)
qed

text \<open>The outcome, by what the header holds.\<close>

lemma authenticate_other_type:
  "authentication \<noteq> ''Basic'' \<Longrightarrow> (\<And>t. authentication \<noteq> basic t) \<Longrightarrow>
   authenticate cfg authentication = Inl (Throw Invalid_argument)"
proof -
  assume "authentication \<noteq> ''Basic''" and "\<And>t. authentication \<noteq> basic t"
  then have "hd (split authentication (CHR '' '') 2) \<noteq> ''Basic''"
    using split_head_iff [of "CHR '' ''" "''Basic''" authentication] by (auto simp: basic_def)
  then show ?thesis by (simp add: authenticate_def Let_def split_str_single vec_get_0_split)
qed

lemma authenticate_no_token: "authenticate cfg ''Basic'' = Inl UB"
  by (simp add: authenticate_def split_str_single split_no_sep vec_get_def)

lemma authenticate_token:
  "authenticate cfg (basic tok) =
     bind (decode tok) (\<lambda>d.
       if hd (split d (CHR '':'') 2) \<noteq> ''admin'' then Inl (Throw Invalid_argument)
       else bind cfg (\<lambda>data. bind (load_file data []) (\<lambda>f.
         bind (vec_get (split d (CHR '':'') 2) 1) (\<lambda>given.
         bind (stored_password f) (\<lambda>p. Inr (given = p))))))"
  by (simp add: authenticate_def Let_def split_str_single split_basic vec_get_0_split
      vec_get_in [of 0 "[''Basic'', tok]"] vec_get_in [of 1 "[''Basic'', tok]"])

lemma authenticate_admin:
  "decode tok = Inr (login given) \<Longrightarrow>
   authenticate cfg (basic tok) =
     bind cfg (\<lambda>data. bind (load_file data []) (\<lambda>f. bind (stored_password f) (\<lambda>p. Inr (given = p))))"
  by (simp add: authenticate_token split_login)

lemma decode_letter_A: "CHR ''A'' \<in> set tok \<Longrightarrow> decode tok = Inl (Throw Out_of_range)"
proof -
  have "\<not> accepted_letter (CHR ''A'')" by (simp add: accepted_letter_def)
  moreover assume "CHR ''A'' \<in> set tok"
  ultimately show ?thesis unfolding decode_Inl_iff by blast
qed

lemma stored_password_not_UB: "stored_password f \<noteq> Inl UB"
  by (simp add: stored_password_value split: option.splits)

lemma decode_not_UB: "decode tok \<noteq> Inl UB"
  by (simp add: decode_Inl_iff)

lemma admin_user_iff:
  "hd (split d (CHR '':'') 2) = ''admin'' \<longleftrightarrow> d = ''admin'' \<or> (\<exists>given. d = login given)"
  using split_head_iff [of "CHR '':''" "''admin''" d] by (simp add: login_def)

section \<open>Properties\<close>

text \<open>(C10) Access is granted exactly to a header of type Basic whose token decodes to the user
  admin, a colon and the password the configuration file holds.\<close>

theorem authenticate_grants_iff:
  "authenticate (Inr data) header = Inr True \<longleftrightarrow>
   (\<exists>tok given f. header = basic tok \<and> decode tok = Inr (login given) \<and>
      load_file data [] = Inr f \<and> ini_value f ''admin'' ''password'' = Some given)"
proof
  assume g: "authenticate (Inr data) header = Inr True"
  have "header \<noteq> ''Basic''"
    using g by (rule contrapos_pn) (simp add: authenticate_no_token)
  moreover have "\<not> (header \<noteq> ''Basic'' \<and> (\<forall>t. header \<noteq> basic t))"
    using g authenticate_other_type [of header "Inr data"] by (metis Inl_Inr_False)
  ultimately obtain tok where tok: "header = basic tok" by blast
  from g [unfolded tok authenticate_token] obtain d f where d: "decode tok = Inr d"
    and u: "hd (split d (CHR '':'') 2) = ''admin''" and f: "load_file data [] = Inr f"
    and c: "bind (vec_get (split d (CHR '':'') 2) 1) (\<lambda>given.
        bind (stored_password f) (\<lambda>p. Inr (given = p))) = Inr True"
    by (auto simp: outcome_simps split: if_splits)
  from u consider "d = ''admin''" | given where "d = login given"
    unfolding admin_user_iff by blast
  then show "\<exists>tok given f. header = basic tok \<and> decode tok = Inr (login given) \<and>
      load_file data [] = Inr f \<and> ini_value f ''admin'' ''password'' = Some given"
  proof cases
    case 1
    with c show ?thesis by (simp add: split_no_sep)
  next
    case 2
    with c have "stored_password f = Inr given" by (auto simp: outcome_simps split_login)
    then have "ini_value f ''admin'' ''password'' = Some given"
      by (simp add: stored_password_value split: option.splits)
    with tok d f 2 show ?thesis by blast
  qed
next
  assume "\<exists>tok given f. header = basic tok \<and> decode tok = Inr (login given) \<and>
      load_file data [] = Inr f \<and> ini_value f ''admin'' ''password'' = Some given"
  then obtain tok given f where t: "header = basic tok"
    and d: "decode tok = Inr (login given)" and f: "load_file data [] = Inr f"
    and v: "ini_value f ''admin'' ''password'' = Some given" by blast
  show "authenticate (Inr data) header = Inr True"
    unfolding t authenticate_admin [OF d] by (simp add: f stored_password_value v)
qed

lemma authenticate_login:
  assumes "\<forall>c \<in> set pw. ascii c" and "pw \<noteq> [] \<longrightarrow> last pw \<noteq> CHR 0x00"
    and "load_file data [] = Inr f" and "ini_value f ''admin'' ''password'' = Some p"
  shows "authenticate (Inr data) (basic (encode (login pw))) =
    (if CHR ''A'' \<in> set (encode (login pw)) then Inl (Throw Out_of_range) else Inr (pw = p))"
proof (cases "CHR ''A'' \<in> set (encode (login pw))")
  case True
  then have "decode (encode (login pw)) = Inl (Throw Out_of_range)" by (rule decode_letter_A)
  with True show ?thesis by (simp add: authenticate_token)
next
  case False
  have a: "\<forall>c \<in> set (login pw). ascii c"
    using assms(1) by (auto simp: ascii_def login_def)
  have "decode (encode (login pw)) = Inr (strip_nul (login pw))"
    using decode_encode [OF a False] .
  moreover have "strip_nul (login pw) = login pw"
    using assms(2) strip_nul_id [of "login pw" 0] by (cases "pw = []") (auto simp: login_def)
  ultimately have "decode (encode (login pw)) = Inr (login pw)" by simp
  from authenticate_admin [OF this] False show ?thesis
    using assms(3,4) by (simp add: stored_password_value)
qed

text \<open>(C11) A client that sends its password in base64 is checked against the configuration file
  exactly when the encoding holds no letter A; otherwise the server fails with
  \<open>std::out_of_range\<close>, whatever the file holds, so a password whose encoding has that letter
  never opens the server.\<close>

theorem authenticate_encoded:
  assumes "\<forall>c \<in> set pw. ascii c" and "pw \<noteq> [] \<longrightarrow> last pw \<noteq> CHR 0x00"
    and "load_file data [] = Inr f" and "ini_value f ''admin'' ''password'' = Some p"
  shows "authenticate (Inr data) (basic (encode (login pw))) =
    (if CHR ''A'' \<in> set (encode (login pw)) then Inl (Throw Out_of_range) else Inr (pw = p))"
  by (rule authenticate_login) (rule assms)+

theorem authenticate_encoded_witness:
  "authenticate (Inr (''[admin]'' @ CHR 0x0A # ''password=cat'')) (basic (encode (login ''cat''))) = Inr True"
proof -
  let ?f = "[\<lparr>sec_name = ''admin'', sec_items = [\<lparr>item_key = ''password'', item_value = Some ''cat''\<rparr>]\<rparr>]"
  have l: "load_file (''[admin]'' @ CHR 0x0A # ''password=cat'') [] = Inr ?f"
    by code_simp
  have v: "ini_value ?f ''admin'' ''password'' = Some ''cat''" by code_simp
  have a: "\<forall>c \<in> set ''cat''. ascii c" by (simp add: ascii_def)
  have "CHR ''A'' \<notin> set (encode (login ''cat''))" by code_simp
  with authenticate_encoded [OF a _ l v] show ?thesis by simp
qed

text \<open>The check runs into undefined behaviour exactly on a header that is the word Basic
  alone, on a token that decodes to the user alone when the file loads, and on a configuration file
  whose loading does.\<close>

theorem authenticate_UB_iff:
  "authenticate (Inr data) header = Inl UB \<longleftrightarrow>
   header = ''Basic'' \<or>
   (\<exists>tok d. header = basic tok \<and> decode tok = Inr d \<and>
      hd (split d (CHR '':'') 2) = ''admin'' \<and>
      (load_file data [] = Inl UB \<or> d = ''admin'' \<and> returns (load_file data [])))"
  (is "_ \<longleftrightarrow> ?R")
proof -
  consider "header = ''Basic''" | tok where "header = basic tok"
    | "header \<noteq> ''Basic''" "\<And>t. header \<noteq> basic t" by blast
  then show ?thesis
  proof cases
    case 1
    then show ?thesis by (simp add: authenticate_no_token)
  next
    case 3
    then show ?thesis using authenticate_other_type [OF 3, of "Inr data"] by auto
  next
    case (2 tok)
    show ?thesis
    proof (cases "\<exists>d. decode tok = Inr d \<and> hd (split d (CHR '':'') 2) = ''admin''")
      case False
      then show ?thesis
        using 2 decode_not_UB [of tok]
        by (cases "decode tok") (auto simp: authenticate_token)
    next
      case True
      then obtain d where d: "decode tok = Inr d" "hd (split d (CHR '':'') 2) = ''admin''" by blast
      from d(2) consider "d = ''admin''" | given where "d = login given"
        unfolding admin_user_iff by blast
      then show ?thesis
      proof cases
        case 1
        then show ?thesis
          using 2 d by (cases "load_file data []") (auto simp: authenticate_token split_no_sep)
      next
        case g: (2 given)
        have "authenticate (Inr data) header = Inl UB \<longleftrightarrow> load_file data [] = Inl UB"
          using d(1) stored_password_not_UB unfolding 2 g(1)
          by (cases "load_file data []") (auto simp: authenticate_admin outcome_simps)
        then show ?thesis using 2 d g by auto
      qed
    qed
  qed
qed

end
