(* ===== verification/Rest.thy ===== *)
theory Rest
  imports Auth
begin

text \<open>
  \<open>src/server/rest.hpp\<close> and \<open>rest.cpp\<close>: the HTTP front end of the server.  A
  request is answered by \<open>handler\<close>, which picks the operation by method and path, and
  \<open>Run\<close>, which reads the fields the operations use, parses the body, calls the operation and
  turns its result or its exception into a response.  \<open>Connection\<close> reads, handles and writes
  in turns; each turn is one completion handler.

  The operations are arguments: they act on a world \<open>'w\<close>, which the theories of the single
  operations fill in.  The serialisation and the parser of the JSON library and the decision
  \<open>need_eof\<close> of the HTTP library are arguments too.
\<close>

section \<open>Requests and responses\<close>

datatype verb = Get | Post | Other_verb

datatype header_field = Authorization | Content_type | User_agent

record request =
  req_method :: verb
  req_target :: string
  req_header :: "header_field \<Rightarrow> string option"
  req_body :: string
  req_version :: nat
  req_keep_alive :: bool

text \<open>\<open>res_keep_alive\<close> is None where the code does not call \<open>keep_alive\<close>.\<close>

record response =
  res_status :: nat
  res_version :: nat
  res_server :: string
  res_content_type :: "string option"
  res_www_authenticate :: "string option"
  res_keep_alive :: "bool option"
  res_body :: string

definition server_name :: "string \<Rightarrow> string" where
  "server_name version = ''Bakaneko/'' @ version"

text \<open>The responses with an empty body that \<open>Run\<close> and \<open>handler\<close> build.\<close>

definition empty_response :: "string \<Rightarrow> nat \<Rightarrow> request \<Rightarrow> response" where
  "empty_response version status req =
     \<lparr>res_status = status, res_version = req_version req, res_server = server_name version,
      res_content_type = None, res_www_authenticate = None,
      res_keep_alive = Some (req_keep_alive req), res_body = []\<rparr>"

definition unauthorized_response :: "string \<Rightarrow> request \<Rightarrow> response" where
  "unauthorized_response version req =
     (empty_response version 401 req)\<lparr>res_www_authenticate := Some ''Basic realm=\"User Visible Realm\"''\<rparr>"

definition json_response :: "string \<Rightarrow> string \<Rightarrow> request \<Rightarrow> response" where
  "json_response version body req =
     \<lparr>res_status = 200, res_version = req_version req, res_server = server_name version,
      res_content_type = Some ''application/json'', res_www_authenticate = None,
      res_keep_alive = None, res_body = body\<rparr>"

definition void_response :: "string \<Rightarrow> request \<Rightarrow> response" where
  "void_response version req =
     \<lparr>res_status = 200, res_version = req_version req, res_server = server_name version,
      res_content_type = None, res_www_authenticate = None,
      res_keep_alive = None, res_body = []\<rparr>"

section \<open>Run\<close>

text \<open>An operation acts on the world and returns a value, an error, or throws.\<close>

type_synonym ('w, 'm) action = "'w \<Rightarrow> 'm expected outcome \<times> 'w"

definition req_fields :: "request \<Rightarrow> fields" where
  "req_fields req = \<lparr>fld_authentication = req_header req Authorization\<rparr>"

text \<open>The second argument of an operation that takes one: the default value without a body,
  the parsed and converted body with one.\<close>

definition message_arg :: "(string \<Rightarrow> 'j outcome) \<Rightarrow> ('j \<Rightarrow> 'q outcome) \<Rightarrow> 'q \<Rightarrow> string \<Rightarrow> 'q outcome" where
  "message_arg parse from_json dflt body =
     (if body = [] then Inr dflt
      else bind (parse body) from_json)"

definition call_with ::
  "(string \<Rightarrow> 'j outcome) \<Rightarrow> ('j \<Rightarrow> 'q outcome) \<Rightarrow> 'q \<Rightarrow> (fields \<Rightarrow> 'q \<Rightarrow> ('w, 'm) action) \<Rightarrow>
   request \<Rightarrow> ('w, 'm) action" where
  "call_with parse from_json dflt f req w =
     (case message_arg parse from_json dflt (req_body req) of
        Inl e \<Rightarrow> (Inl e, w)
      | Inr q \<Rightarrow> f (req_fields req) q w)"

text \<open>The branch on \<open>has_value\<close>: \<open>dump\<close> is None for an operation that returns
  \<open>void\<close>.  The result is the response sent, if any.\<close>

definition reply_value ::
  "string \<Rightarrow> ('m \<Rightarrow> string outcome) option \<Rightarrow> request \<Rightarrow> 'm \<Rightarrow> response option outcome" where
  "reply_value version dump req m =
     (case dump of
        None \<Rightarrow> Inr (Some (void_response version req))
      | Some d \<Rightarrow>
          (if req_header req Content_type = Some ''application/json''
           then bind (d m) (\<lambda>body. Inr (Some (json_response version body req)))
           else Inr (Some (empty_response version 415 req))))"

definition reply_error :: "string \<Rightarrow> request \<Rightarrow> errors \<Rightarrow> response option" where
  "reply_error version req e =
     (case e of
        NotImplemented \<Rightarrow> Some (empty_response version 501 req)
      | Failed \<Rightarrow> Some (empty_response version 500 req)
      | NeedsPassword \<Rightarrow> Some (unauthorized_response version req)
      | No_error \<Rightarrow> None)"

text \<open>The \<open>catch\<close> clause.\<close>

definition catch_exception ::
  "string \<Rightarrow> request \<Rightarrow> response option outcome \<Rightarrow> response option outcome" where
  "catch_exception version req m =
     (case m of Inl (Throw e) \<Rightarrow> Inr (Some (empty_response version 500 req)) | _ \<Rightarrow> m)"

definition run ::
  "string \<Rightarrow> ('m \<Rightarrow> string outcome) option \<Rightarrow> (request \<Rightarrow> ('w, 'm) action) \<Rightarrow> request \<Rightarrow> 'w \<Rightarrow>
   response option outcome \<times> 'w" where
  "run version dump call req w =
     (case call req w of
        (message_res, w') \<Rightarrow>
          (catch_exception version req
             (bind message_res (\<lambda>res.
                case res of
                  Inr m \<Rightarrow> reply_value version dump req m
                | Inl e \<Rightarrow> Inr (reply_error version req e))), w'))"

section \<open>The routes\<close>

text \<open>The operations of \<open>Info\<close> and \<open>Control\<close>: the replies of the first kind have
  the type \<open>'m\<close>, and the two operations with a body have the types \<open>'s\<close> and
  \<open>'c\<close> for it.\<close>

record ('w, 'm, 's, 'c) api =
  info_drives :: "fields \<Rightarrow> ('w, 'm) action"
  info_system :: "fields \<Rightarrow> ('w, 'm) action"
  info_updates :: "fields \<Rightarrow> ('w, 'm) action"
  info_adapters :: "fields \<Rightarrow> ('w, 'm) action"
  info_service :: "fields \<Rightarrow> ('w, 'm) action"
  info_services :: "fields \<Rightarrow> 's \<Rightarrow> ('w, 'm) action"
  control_shutdown :: "fields \<Rightarrow> ('w, unit) action"
  control_reboot :: "fields \<Rightarrow> ('w, unit) action"
  control_service :: "fields \<Rightarrow> 'c \<Rightarrow> ('w, unit) action"

text \<open>What the JSON library and the conversions of the messages give the front end.\<close>

record ('j, 'm, 's, 'c) codec =
  json_parse :: "string \<Rightarrow> 'j outcome"
  dump_reply :: "'m \<Rightarrow> string outcome"
  services_from :: "'j \<Rightarrow> 's outcome"
  services_default :: "'s"
  control_from :: "'j \<Rightarrow> 'c outcome"
  control_default :: "'c"

definition handler ::
  "string \<Rightarrow> ('j, 'm, 's, 'c) codec \<Rightarrow> ('w, 'm, 's, 'c) api \<Rightarrow> request \<Rightarrow> 'w \<Rightarrow>
   response option outcome \<times> 'w" where
  "handler version cd ops req w =
     (let path = req_target req;
          info = (\<lambda>f. run version (Some (dump_reply cd)) (\<lambda>r. f (req_fields r)) req w);
          control = (\<lambda>f. run version None (\<lambda>r. f (req_fields r)) req w)
      in
      if path = ''/'' then (Inr (Some (empty_response version 302 req)), w)
      else if req_method req = Get \<and> path = ''/drives'' then info (info_drives ops)
      else if req_method req = Get \<and> path = ''/system'' then info (info_system ops)
      else if req_method req = Get \<and> path = ''/updates'' then info (info_updates ops)
      else if req_method req = Get \<and> path = ''/network/adapters'' then info (info_adapters ops)
      else if req_method req = Get \<and> path = ''/service'' then info (info_service ops)
      else if req_method req = Get \<and> path = ''/services'' then
        run version (Some (dump_reply cd))
          (call_with (json_parse cd) (services_from cd) (services_default cd) (info_services ops)) req w
      else if req_method req = Post \<and> path = ''/power/shutdown'' then control (control_shutdown ops)
      else if req_method req = Post \<and> path = ''/power/reboot'' then control (control_reboot ops)
      else if req_method req = Post \<and> path = ''/service'' then
        run version None
          (call_with (json_parse cd) (control_from cd) (control_default cd) (control_service ops)) req w
      else (Inr (Some (empty_response version 404 req)), w))"

section \<open>Connections\<close>

text \<open>\<open>Reading\<close> and \<open>Writing\<close> wait for \<open>on_read\<close> and \<open>on_write\<close>;
  \<open>Shut\<close> is after \<open>do_close\<close>; in \<open>Dropped\<close> no operation is pending and the
  connection goes with its last shared pointer.  \<open>Ended\<close> is what undefined behaviour in an
  operation leaves.\<close>

datatype phase = Idle | Reading | Writing bool | Shut | Dropped | Ended

record 'w conn =
  phase :: phase
  handled :: "request list"
  sent :: "response list"
  pending :: "response option"
  world :: 'w

datatype read_result = Read_end_of_stream | Read_error | Read_request request

definition do_read :: "'w conn \<Rightarrow> 'w conn" where
  "do_read c = c\<lparr>phase := Reading\<rparr>"

definition do_close :: "'w conn \<Rightarrow> 'w conn" where
  "do_close c = c\<lparr>phase := Shut\<rparr>"

definition conn_run :: "'w conn \<Rightarrow> 'w conn" where
  "conn_run c = do_read c"

definition on_read ::
  "(request \<Rightarrow> 'w \<Rightarrow> response option outcome \<times> 'w) \<Rightarrow> (response \<Rightarrow> bool) \<Rightarrow> read_result \<Rightarrow>
   'w conn \<Rightarrow> 'w conn" where
  "on_read handle need_eof r c =
     (case r of
        Read_end_of_stream \<Rightarrow> do_close c
      | Read_error \<Rightarrow> c\<lparr>phase := Dropped\<rparr>
      | Read_request req \<Rightarrow>
          (case handle req (world c) of
             (answer, w) \<Rightarrow>
               (let c' = c\<lparr>handled := handled c @ [req], world := w\<rparr> in
                case answer of
                  Inl e \<Rightarrow> c'\<lparr>phase := Ended\<rparr>
                | Inr None \<Rightarrow> c'\<lparr>phase := Dropped\<rparr>
                | Inr (Some res) \<Rightarrow> c'\<lparr>pending := Some res, phase := Writing (need_eof res)\<rparr>)))"

text \<open>\<open>written\<close> records that the bytes of the pending response went out; the branch after
  that is \<open>on_write\<close>.\<close>

definition written :: "'w conn \<Rightarrow> 'w conn" where
  "written c = c\<lparr>sent := sent c @ (case pending c of None \<Rightarrow> [] | Some r \<Rightarrow> [r])\<rparr>"

definition on_write :: "bool \<Rightarrow> bool \<Rightarrow> 'w conn \<Rightarrow> 'w conn" where
  "on_write close ec c =
     (if ec then c\<lparr>phase := Dropped\<rparr>
      else if close then do_close (written c)
      else do_read ((written c)\<lparr>pending := None\<rparr>))"

inductive conn_step ::
  "(request \<Rightarrow> 'w \<Rightarrow> response option outcome \<times> 'w) \<Rightarrow> (response \<Rightarrow> bool) \<Rightarrow> 'w conn \<Rightarrow> 'w conn \<Rightarrow> bool"
  for handle need_eof where
  Start: "phase c = Idle \<Longrightarrow> conn_step handle need_eof c (conn_run c)"
| Read: "phase c = Reading \<Longrightarrow> conn_step handle need_eof c (on_read handle need_eof r c)"
| Write: "phase c = Writing close \<Longrightarrow> conn_step handle need_eof c (on_write close ec c)"

definition conn_init :: "'w \<Rightarrow> 'w conn" where
  "conn_init w = \<lparr>phase = Idle, handled = [], sent = [], pending = None, world = w\<rparr>"

inductive conn_reachable ::
  "(request \<Rightarrow> 'w \<Rightarrow> response option outcome \<times> 'w) \<Rightarrow> (response \<Rightarrow> bool) \<Rightarrow> 'w \<Rightarrow> 'w conn \<Rightarrow> bool"
  for handle need_eof w where
  Init: "conn_reachable handle need_eof w (conn_init w)"
| Step: "conn_reachable handle need_eof w c \<Longrightarrow> conn_step handle need_eof c c' \<Longrightarrow>
    conn_reachable handle need_eof w c'"

inductive_cases conn_stepE: "conn_step handle need_eof c c'"

text \<open>The acceptor: every completion, with or without an error, starts the next accept; without
  an error the socket becomes a connection.\<close>

record server =
  accepting :: bool
  accepted :: nat

definition do_accept :: "server \<Rightarrow> server" where
  "do_accept s = s\<lparr>accepting := True\<rparr>"

definition server_run :: "bool \<Rightarrow> server \<Rightarrow> server" where
  "server_run is_open s = (if is_open then do_accept s else s)"

definition on_accept :: "bool \<Rightarrow> server \<Rightarrow> server" where
  "on_accept ec s =
     (let s' = s\<lparr>accepting := False\<rparr> in
      do_accept (if ec then s' else s'\<lparr>accepted := Suc (accepted s')\<rparr>))"

section \<open>Lemmas\<close>

text \<open>The requests a connection handled, run one after the other on the world.\<close>

fun serve ::
  "(request \<Rightarrow> 'w \<Rightarrow> response option outcome \<times> 'w) \<Rightarrow> request list \<Rightarrow> 'w \<Rightarrow>
   response option outcome list \<times> 'w" where
  "serve handle [] w = ([], w)"
| "serve handle (req # reqs) w =
     (case handle req w of (a, w') \<Rightarrow> (case serve handle reqs w' of (as, w'') \<Rightarrow> (a # as, w'')))"

lemma serve_snoc:
  "serve handle (reqs @ [req]) w =
     (case serve handle reqs w of (as, w') \<Rightarrow>
        (case handle req w' of (a, w'') \<Rightarrow> (as @ [a], w'')))"
  by (induction reqs arbitrary: w) (auto split: prod.splits)

text \<open>What holds of a connection between two completion handlers.\<close>

definition conn_ok ::
  "(request \<Rightarrow> 'w \<Rightarrow> response option outcome \<times> 'w) \<Rightarrow> (response \<Rightarrow> bool) \<Rightarrow> 'w \<Rightarrow> 'w conn \<Rightarrow> bool" where
  "conn_ok handle need_eof w c \<longleftrightarrow>
     (\<exists>rest. serve handle (handled c) w = (map (\<lambda>r. Inr (Some r)) (sent c) @ rest, world c) \<and>
        length rest \<le> 1 \<and>
        (case phase c of
           Idle \<Rightarrow> rest = [] \<and> handled c = []
         | Reading \<Rightarrow> rest = [] \<and> pending c = None
         | Writing b \<Rightarrow> (\<exists>r. rest = [Inr (Some r)] \<and> pending c = Some r \<and> b = need_eof r)
         | Shut \<Rightarrow> rest = []
         | _ \<Rightarrow> True))"

lemma conn_ok_init: "conn_ok handle need_eof w (conn_init w)"
  by (simp add: conn_ok_def conn_init_def)

lemma conn_ok_on_read:
  "conn_ok handle need_eof w c \<Longrightarrow> phase c = Reading \<Longrightarrow>
   conn_ok handle need_eof w (on_read handle need_eof r c)"
  by (cases r)
     (auto simp: conn_ok_def on_read_def do_close_def serve_snoc Let_def
        split: prod.splits sum.splits option.splits)

lemma conn_ok_on_write:
  "conn_ok handle need_eof w c \<Longrightarrow> phase c = Writing close \<Longrightarrow>
   conn_ok handle need_eof w (on_write close ec c)"
  by (auto simp: conn_ok_def on_write_def written_def do_close_def do_read_def)

lemma conn_ok_run:
  "conn_ok handle need_eof w c \<Longrightarrow> phase c = Idle \<Longrightarrow> pending c = None \<Longrightarrow>
   conn_ok handle need_eof w (conn_run c)"
  by (auto simp: conn_ok_def conn_run_def do_read_def)

lemma idle_pending: "conn_reachable handle need_eof w c \<Longrightarrow> phase c = Idle \<Longrightarrow> pending c = None"
proof (induction rule: conn_reachable.induct)
  case Init
  show ?case by (simp add: conn_init_def)
next
  case (Step c c')
  from Step.hyps(2) Step.prems show ?case
    by (auto elim!: conn_stepE simp: conn_run_def do_read_def on_read_def on_write_def do_close_def
        written_def Let_def split: read_result.splits prod.splits sum.splits option.splits if_splits)
qed

lemma reachable_conn_ok: "conn_reachable handle need_eof w c \<Longrightarrow> conn_ok handle need_eof w c"
proof (induction rule: conn_reachable.induct)
  case Init
  show ?case by (rule conn_ok_init)
next
  case (Step c c')
  from Step.hyps(2) show ?case
  proof (cases rule: conn_step.cases)
    case Start
    with Step idle_pending show ?thesis by (metis conn_ok_run)
  next
    case (Read r)
    with Step.IH show ?thesis by (simp add: conn_ok_on_read)
  next
    case (Write close ec)
    with Step.IH show ?thesis by (simp add: conn_ok_on_write)
  qed
qed

lemma accepting_forever: "accepting (fold on_accept ecs (server_run True s))"
proof -
  have "accepting s \<Longrightarrow> accepting (fold on_accept ecs s)" for s
    by (induction ecs arbitrary: s) (auto simp: on_accept_def do_accept_def Let_def)
  then show ?thesis by (simp add: server_run_def do_accept_def)
qed

lemma accepted_count:
  "accepted (fold on_accept ecs s) = accepted s + length (filter (\<lambda>ec. \<not> ec) ecs)"
  by (induction ecs arbitrary: s) (auto simp: on_accept_def do_accept_def Let_def)

text \<open>The pairs of method and path that have an operation.\<close>

definition routes :: "(verb \<times> string) set" where
  "routes = {(Get, ''/drives''), (Get, ''/system''), (Get, ''/updates''), (Get, ''/network/adapters''),
     (Get, ''/service''), (Get, ''/services''), (Post, ''/power/shutdown''), (Post, ''/power/reboot''),
     (Post, ''/service'')}"

text \<open>Every outcome of the front end is the redirect, the refusal, or an outcome of
  \<open>run\<close>.\<close>

lemma handler_cases:
  fixes ops :: "('w, 'm, 's, 'c) api"
  obtains "req_target req = ''/''"
      "handler version cd ops req w = (Inr (Some (empty_response version 302 req)), w)"
  | "req_target req \<noteq> ''/''" "(req_method req, req_target req) \<notin> routes"
      "handler version cd ops req w = (Inr (Some (empty_response version 404 req)), w)"
  | call :: "request \<Rightarrow> ('w, 'm) action" where "(req_method req, req_target req) \<in> routes"
      "handler version cd ops req w = run version (Some (dump_reply cd)) call req w"
  | call :: "request \<Rightarrow> ('w, unit) action" where "(req_method req, req_target req) \<in> routes"
      "handler version cd ops req w = run version None call req w"
proof -
  consider "req_target req = ''/''"
    | "req_target req \<noteq> ''/''" "(req_method req, req_target req) \<notin> routes"
    | "req_target req \<noteq> ''/''" "(req_method req, req_target req) \<in> routes" by blast
  then show thesis
  proof cases
    case 1
    then show thesis using that(1) by (simp add: handler_def)
  next
    case 2
    then have "handler version cd ops req w = (Inr (Some (empty_response version 404 req)), w)"
      by (cases "req_method req") (simp_all add: handler_def routes_def Let_def)
    with 2 show thesis by (rule that(2))
  next
    case 3
    from 3(2) consider
        "req_method req = Get" "req_target req = ''/drives''"
      | "req_method req = Get" "req_target req = ''/system''"
      | "req_method req = Get" "req_target req = ''/updates''"
      | "req_method req = Get" "req_target req = ''/network/adapters''"
      | "req_method req = Get" "req_target req = ''/service''"
      | "req_method req = Get" "req_target req = ''/services''"
      | "req_method req = Post" "req_target req = ''/power/shutdown''"
      | "req_method req = Post" "req_target req = ''/power/reboot''"
      | "req_method req = Post" "req_target req = ''/service''"
      unfolding routes_def by blast
    then show thesis
    proof cases
      case 1 then show thesis by (intro that(3) [OF 3(2)]) (simp add: handler_def Let_def)
    next
      case 2 then show thesis by (intro that(3) [OF 3(2)]) (simp add: handler_def Let_def)
    next
      case a: 3 then show thesis by (intro that(3) [OF 3(2)]) (simp add: handler_def Let_def)
    next
      case 4 then show thesis by (intro that(3) [OF 3(2)]) (simp add: handler_def Let_def)
    next
      case 5 then show thesis by (intro that(3) [OF 3(2)]) (simp add: handler_def Let_def)
    next
      case 6 then show thesis by (intro that(3) [OF 3(2)]) (simp add: handler_def Let_def)
    next
      case 7 then show thesis by (intro that(4) [OF 3(2)]) (simp add: handler_def Let_def)
    next
      case 8 then show thesis by (intro that(4) [OF 3(2)]) (simp add: handler_def Let_def)
    next
      case 9 then show thesis by (intro that(4) [OF 3(2)]) (simp add: handler_def Let_def)
    qed
  qed
qed

text \<open>The responses of \<open>run\<close>.\<close>

lemma run_response:
  "fst (run version dump call req w) = Inr (Some r) \<Longrightarrow>
   r = void_response version req \<or> r = unauthorized_response version req \<or>
   (\<exists>body. r = json_response version body req) \<or>
   (\<exists>status \<in> {415, 500, 501}. r = empty_response version status req)"
  by (auto simp: run_def catch_exception_def reply_value_def reply_error_def bind_def
      split: prod.splits sum.splits fault.splits option.splits errors.splits if_splits)

lemma empty_response_simps [simp]:
  "res_status (empty_response version st req) = st"
  "res_version (empty_response version st req) = req_version req"
  "res_server (empty_response version st req) = server_name version"
  "res_content_type (empty_response version st req) = None"
  "res_www_authenticate (empty_response version st req) = None"
  "res_body (empty_response version st req) = []"
  by (simp_all add: empty_response_def)

lemmas response_defs = void_response_def unauthorized_response_def json_response_def

text \<open>Operations that neither answer with \<open>Errors::None\<close> nor run into undefined
  behaviour.\<close>

definition answers :: "'m expected outcome \<Rightarrow> bool" where
  "answers res \<longleftrightarrow> res \<noteq> Inl UB \<and> res \<noteq> Inr (Inl No_error)"

definition api_answers :: "('w, 'm, 's, 'c) api \<Rightarrow> bool" where
  "api_answers ops \<longleftrightarrow>
     (\<forall>f w. answers (fst (info_drives ops f w)) \<and> answers (fst (info_system ops f w)) \<and>
        answers (fst (info_updates ops f w)) \<and> answers (fst (info_adapters ops f w)) \<and>
        answers (fst (info_service ops f w)) \<and> (\<forall>q. answers (fst (info_services ops f q w))) \<and>
        answers (fst (control_shutdown ops f w)) \<and> answers (fst (control_reboot ops f w)) \<and>
        (\<forall>q. answers (fst (control_service ops f q w))))"

definition codec_defined :: "('j, 'm, 's, 'c) codec \<Rightarrow> bool" where
  "codec_defined cd \<longleftrightarrow>
     (\<forall>s. json_parse cd s \<noteq> Inl UB) \<and> (\<forall>m. dump_reply cd m \<noteq> Inl UB) \<and> (\<forall>j. services_from cd j \<noteq> Inl UB) \<and>
     (\<forall>j. control_from cd j \<noteq> Inl UB)"

lemma catch_answers:
  "answers res \<Longrightarrow> (\<And>m. reply_value version dump req m \<noteq> Inl UB) \<Longrightarrow>
   (\<And>m. reply_value version dump req m \<noteq> Inr None) \<Longrightarrow>
   \<exists>r. catch_exception version req
      (bind res (\<lambda>res. case res of Inr m \<Rightarrow> reply_value version dump req m
         | Inl e \<Rightarrow> Inr (reply_error version req e))) = Inr (Some r)"
proof -
  let ?b = "bind res (\<lambda>res. case res of Inr m \<Rightarrow> reply_value version dump req m
    | Inl e \<Rightarrow> Inr (reply_error version req e))"
  assume a: "answers res" and u: "\<And>m. reply_value version dump req m \<noteq> Inl UB"
    and n: "\<And>m. reply_value version dump req m \<noteq> Inr None"
  have "?b \<noteq> Inl UB \<and> ?b \<noteq> Inr None"
    using a u n
    by (auto simp: answers_def bind_def reply_error_def split: sum.splits errors.splits)
  then show ?thesis
    by (cases ?b) (auto simp: catch_exception_def split: fault.splits)
qed

lemma run_answers:
  "answers (fst (call req w)) \<Longrightarrow> (\<And>d m. dump = Some d \<Longrightarrow> d m \<noteq> Inl UB) \<Longrightarrow>
   \<exists>r. fst (run version dump call req w) = Inr (Some r)"
proof -
  assume a: "answers (fst (call req w))" and d: "\<And>d m. dump = Some d \<Longrightarrow> d m \<noteq> Inl UB"
  have "reply_value version dump req m \<noteq> Inl UB" "reply_value version dump req m \<noteq> Inr None" for m
    using d by (auto simp: reply_value_def bind_def split: option.splits sum.splits)
  from catch_answers [OF a this] show ?thesis by (cases "call req w") (simp add: run_def)
qed

lemma call_with_answers:
  "(\<And>q. answers (fst (f (req_fields req) q w))) \<Longrightarrow> message_arg parse from_json dflt (req_body req) \<noteq> Inl UB \<Longrightarrow>
   answers (fst (call_with parse from_json dflt f req w))"
  by (auto simp: call_with_def answers_def split: sum.splits)

lemma answered:
  fixes ops :: "('a, 'm, 's, 'c) api"
  assumes "api_answers ops" and "\<And>m. dump_reply cd m \<noteq> Inl UB"
    and "message_arg (json_parse cd) (services_from cd) (services_default cd) (req_body req) \<noteq> Inl UB"
    and "req_method req = Post \<Longrightarrow> req_target req = ''/service'' \<Longrightarrow>
      message_arg (json_parse cd) (control_from cd) (control_default cd) (req_body req) \<noteq> Inl UB"
  shows "\<exists>r. fst (handler version cd ops req w) = Inr (Some r)"
proof -
  have v: "\<exists>r. fst (run version (Some (dump_reply cd)) call req w) = Inr (Some r)"
    if "answers (fst (call req w))" for call
    using that assms(2) by (intro run_answers) auto
  have u: "\<exists>r. fst (run version None call req w) = Inr (Some r)"
    if "answers (fst (call req w))" for call :: "request \<Rightarrow> ('a, unit) action"
    using that by (intro run_answers) auto
  have ops: "answers (fst (info_drives ops f w))" "answers (fst (info_system ops f w))"
    "answers (fst (info_updates ops f w))" "answers (fst (info_adapters ops f w))"
    "answers (fst (info_service ops f w))" "answers (fst (info_services ops f q w))"
    "answers (fst (control_shutdown ops f w))" "answers (fst (control_reboot ops f w))"
    "answers (fst (control_service ops f q' w))" for f q q'
    using assms(1) by (simp_all add: api_answers_def)
  have s: "answers (fst (call_with (json_parse cd) (services_from cd) (services_default cd) (info_services ops) req w))"
    by (rule call_with_answers) (rule ops, rule assms)
  have c: "answers (fst (call_with (json_parse cd) (control_from cd) (control_default cd) (control_service ops) req w))"
    if "req_method req = Post" "req_target req = ''/service''"
    by (rule call_with_answers) (rule ops, rule assms(4) [OF that])
  show ?thesis
    unfolding handler_def Let_def
    by (simp add: v u ops s c)
qed

text \<open>A small instance of the parameters: the operations with a value return an empty object,
  the ones without count their calls.\<close>

definition sample_api :: "(nat, string, unit, unit) api" where
  "sample_api =
     \<lparr>info_drives = \<lambda>f w. (Inr (Inr ''{}''), w), info_system = \<lambda>f w. (Inr (Inr ''{}''), w),
      info_updates = \<lambda>f w. (Inr (Inl NotImplemented), w), info_adapters = \<lambda>f w. (Inr (Inr ''{}''), w),
      info_service = \<lambda>f w. (Inr (Inl Failed), w), info_services = \<lambda>f q w. (Inr (Inr ''{}''), w),
      control_shutdown = \<lambda>f w. (Inr (Inr ()), Suc w), control_reboot = \<lambda>f w. (Inr (Inr ()), Suc w),
      control_service = \<lambda>f q w.
        (if fld_authentication f = None then (Inr (Inl NeedsPassword), w) else (Inr (Inr ()), Suc w))\<rparr>"

definition sample_codec :: "(string, string, unit, unit) codec" where
  "sample_codec =
     \<lparr>json_parse = Inr, dump_reply = Inr, services_from = \<lambda>j. Inr (), services_default = (),
      control_from = \<lambda>j. Inr (), control_default = ()\<rparr>"

definition sample_request :: "verb \<Rightarrow> string \<Rightarrow> request" where
  "sample_request m path =
     \<lparr>req_method = m, req_target = path, req_header = [Content_type \<mapsto> ''application/json''],
      req_body = [], req_version = 11, req_keep_alive = True\<rparr>"

section \<open>Properties\<close>

text \<open>Every request is answered: when no operation answers with \<open>Errors::None\<close>, the
  front end sends exactly one response to any request, whether it is known or not, its body parses
  or not, and the operation returns, fails or throws.\<close>

theorem handler_answers:
  fixes ops :: "('a, 'm, 's, 'c) api"
  assumes "api_answers ops" and "codec_defined cd"
  shows "\<exists>r. fst (handler version cd ops req w) = Inr (Some r)"
  using assms
  by (intro answered) (auto simp: codec_defined_def message_arg_def bind_eq_Inl_iff split: if_splits)

theorem handler_answers_witness:
  "\<exists>r. fst (handler ''1'' sample_codec sample_api (sample_request Post ''/service'') 0) = Inr (Some r)"
  by (rule handler_answers)
    (simp_all add: api_answers_def answers_def codec_defined_def sample_api_def sample_codec_def)

text \<open>(C9) The answer 404 is sent exactly to the pairs of method and path without an operation,
  the redirect exactly to the root, and neither touches the world.\<close>

theorem handler_404_iff:
  assumes "handler version cd ops req w = (Inr (Some r), w')"
  shows "(res_status r = 404 \<longleftrightarrow> req_target req \<noteq> ''/'' \<and> (req_method req, req_target req) \<notin> routes) \<and>
    (res_status r = 302 \<longleftrightarrow> req_target req = ''/'') \<and>
    (res_status r \<in> {302, 404} \<longrightarrow> w' = w)"
proof -
  have root: "(m, ''/'') \<notin> routes" for m by (simp add: routes_def)
  show ?thesis
  proof (cases rule: handler_cases [of req version cd ops w])
    case 1
    with assms root show ?thesis by auto
  next
    case 2
    with assms show ?thesis by auto
  next
    case (3 call)
    then have "fst (run version (Some (dump_reply cd)) call req w) = Inr (Some r)"
      using assms by (metis fst_conv)
    from run_response [OF this] have "res_status r \<notin> {302, 404}"
      by (auto simp: response_defs)
    with 3(1) root show ?thesis by (metis insertCI)
  next
    case (4 call)
    then have "fst (run version None call req w) = Inr (Some r)"
      using assms by (metis fst_conv)
    from run_response [OF this] have "res_status r \<notin> {302, 404}"
      by (auto simp: response_defs)
    with 4(1) root show ?thesis by (metis insertCI)
  qed
qed

theorem handler_404_iff_witness:
  "handler ''1'' sample_codec sample_api (sample_request Get ''/power/shutdown'') 0 =
     (Inr (Some (empty_response ''1'' 404 (sample_request Get ''/power/shutdown''))), 0) \<and>
   (Get, ''/power/shutdown'') \<notin> routes"
proof -
  have h: "handler ''1'' sample_codec sample_api (sample_request Get ''/power/shutdown'') 0 =
     (Inr (Some (empty_response ''1'' 404 (sample_request Get ''/power/shutdown''))), 0)"
    by (simp add: handler_def sample_request_def Let_def)
  from handler_404_iff [OF h] h show ?thesis by (simp add: sample_request_def)
qed

text \<open>Every response has the version of its request and the name of the server, only the
  status 401 asks for credentials, and only the status 200 has a body.\<close>

theorem handler_response_shape:
  assumes "fst (handler version cd ops req w) = Inr (Some r)"
  shows "res_version r = req_version req \<and> res_server r = server_name version \<and>
    res_status r \<in> {200, 302, 401, 404, 415, 500, 501} \<and>
    (res_www_authenticate r \<noteq> None \<longleftrightarrow> res_status r = 401) \<and>
    (res_body r \<noteq> [] \<longrightarrow> res_status r = 200 \<and> res_content_type r = Some ''application/json'')"
proof -
  have "r = empty_response version 302 req \<or> r = empty_response version 404 req \<or>
      r = void_response version req \<or> r = unauthorized_response version req \<or>
      (\<exists>body. r = json_response version body req) \<or>
      (\<exists>status \<in> {415, 500, 501}. r = empty_response version status req)"
  proof (cases rule: handler_cases [of req version cd ops w])
    case (3 call)
    with assms show ?thesis using run_response [of version _ call req w r] by simp
  next
    case (4 call)
    with assms show ?thesis using run_response [of version _ call req w r] by simp
  qed (use assms in simp_all)
  then show ?thesis by (elim disjE exE bexE) (auto simp: response_defs)
qed

theorem handler_response_shape_witness:
  "\<exists>r. fst (handler ''1'' sample_codec sample_api (sample_request Get ''/drives'') 0) = Inr (Some r) \<and>
     res_body r = ''{}'' \<and> res_status r = 200"
proof -
  let ?r = "json_response ''1'' ''{}'' (sample_request Get ''/drives'')"
  have h: "fst (handler ''1'' sample_codec sample_api (sample_request Get ''/drives'') 0) = Inr (Some ?r)"
    by (simp add: handler_def run_def catch_exception_def reply_value_def Let_def
        sample_request_def sample_api_def sample_codec_def)
  from handler_response_shape [OF h] h show ?thesis by (simp add: json_response_def)
qed

text \<open>What an operation with a value sends: 200 with the serialised value exactly when it
  returned one, the request asked for JSON and the value serialises; 415 exactly when it returned
  one and the request did not; 401, 501 and 500 for the errors, and 500 for every exception.\<close>

theorem run_value_response:
  assumes "call req w = (res, w')" and "res \<noteq> Inl UB" and "\<And>m. d m \<noteq> Inl UB"
  shows "run version (Some d) call req w =
    (Inr (case res of
        Inl e \<Rightarrow> Some (empty_response version 500 req)
      | Inr (Inl No_error) \<Rightarrow> None
      | Inr (Inl NotImplemented) \<Rightarrow> Some (empty_response version 501 req)
      | Inr (Inl Failed) \<Rightarrow> Some (empty_response version 500 req)
      | Inr (Inl NeedsPassword) \<Rightarrow> Some (unauthorized_response version req)
      | Inr (Inr m) \<Rightarrow>
          (if req_header req Content_type \<noteq> Some ''application/json'' then Some (empty_response version 415 req)
           else (case d m of Inl e \<Rightarrow> Some (empty_response version 500 req)
                 | Inr body \<Rightarrow> Some (json_response version body req)))), w')"
proof (cases res)
  case (Inl e)
  with assms(1,2) show ?thesis
    by (cases e) (simp_all add: run_def catch_exception_def)
next
  case (Inr b)
  show ?thesis
  proof (cases b)
    case (Inl e)
    with assms(1) Inr show ?thesis
      by (cases e) (simp_all add: run_def catch_exception_def reply_error_def)
  next
    case v: (Inr m)
    show ?thesis
    proof (cases "d m")
      case (Inl e)
      with assms(3) [of m] obtain x where "e = Throw x" by (cases e) auto
      with assms(1) Inr v Inl show ?thesis
        by (simp add: run_def catch_exception_def reply_value_def)
    next
      case r: (Inr body)
      with assms(1) Inr v show ?thesis
        by (simp add: run_def catch_exception_def reply_value_def)
    qed
  qed
qed

theorem run_value_response_witness:
  "run ''1'' (Some (Inr :: string \<Rightarrow> string outcome)) (\<lambda>r w. (Inr (Inl NeedsPassword), w)) (sample_request Get ''/service'') (0 :: nat) =
     (Inr (Some (unauthorized_response ''1'' (sample_request Get ''/service''))), 0)"
  by (subst run_value_response [where res = "Inr (Inl NeedsPassword)" and w' = 0]) simp_all

text \<open>(C29) A connection answers its requests one at a time and in order: in every reachable state
  the responses it sent are those of the requests it handled, run one after the other on the world,
  with at most the answer to the last one still to come, and none when it reads the next request.\<close>

theorem connection_serves_in_order:
  assumes "conn_reachable handle need_eof w c"
  shows "\<exists>rest. serve handle (handled c) w = (map (\<lambda>r. Inr (Some r)) (sent c) @ rest, world c) \<and>
    length rest \<le> 1 \<and> (phase c \<in> {Idle, Reading, Shut} \<longrightarrow> rest = [])"
  using reachable_conn_ok [OF assms] by (auto simp: conn_ok_def)

theorem connection_serves_in_order_witness:
  "\<exists>c. conn_reachable (handler ''1'' sample_codec sample_api) (\<lambda>r. True) 0 c \<and> phase c = Reading \<and>
     serve (handler ''1'' sample_codec sample_api) (handled c) 0 = (map (\<lambda>r. Inr (Some r)) (sent c), world c)"
proof -
  let ?h = "handler ''1'' sample_codec sample_api"
  have "conn_step ?h (\<lambda>r. True) (conn_init 0) (conn_run (conn_init 0))"
    by (rule conn_step.Start) (simp add: conn_init_def)
  then have r: "conn_reachable ?h (\<lambda>r. True) 0 (conn_run (conn_init 0))"
    by (rule conn_reachable.Step [OF conn_reachable.Init])
  have "phase (conn_run (conn_init (0 :: nat))) = Reading"
    by (simp add: conn_run_def do_read_def)
  with connection_serves_in_order [OF r] r show ?thesis by auto
qed

end
