(* ===== verification/Json.thy ===== *)
theory Json
  imports Prelude Complex_Main "HOL-Library.Char_ord" "HOL-Library.List_Lexorder"
begin

text \<open>
  The values of the vendored JSON library
  (\<open>externals/nlohmann_json/include/nlohmann/json.hpp\<close>): the variant \<open>basic_json\<close>
  without its binary and discarded alternatives, which no text and no message makes.  An object is a
  \<open>std::map\<close>: the list of its members in the order of the keys, which
  \<open>std::string\<close> compares by unsigned characters as the order of lists over \<open>Char_ord\<close>
  does.  \<open>json_sorted\<close> is the invariant of that map at every level, and every way of the library
  to make an object keeps it.
\<close>

section \<open>Values\<close>

datatype json =
    JNull
  | JBool bool
  | JUnsigned "64 word"
  | JInteger int
  | JFloat rat
  | JString string
  | JArray "json list"
  | JObject "(string \<times> json) list"

text \<open>\<open>at\<close> with a key, and the assignment to a member, which makes an object of null.\<close>

definition json_at :: "string \<Rightarrow> json \<Rightarrow> json outcome" where
  "json_at key j =
     (case j of
        JObject ms \<Rightarrow>
          (case map_of ms key of Some v \<Rightarrow> Inr v | None \<Rightarrow> Inl (Throw Json_out_of_range))
      | _ \<Rightarrow> Inl (Throw Json_type_error))"

fun member_set :: "string \<Rightarrow> json \<Rightarrow> (string \<times> json) list \<Rightarrow> (string \<times> json) list" where
  "member_set key v [] = [(key, v)]"
| "member_set key v ((k, x) # ms) =
     (if k = key then (k, v) # ms
      else if key < k then (key, v) # (k, x) # ms
      else (k, x) # member_set key v ms)"

definition json_set :: "string \<Rightarrow> json \<Rightarrow> json \<Rightarrow> json outcome" where
  "json_set key v j =
     (case j of
        JNull \<Rightarrow> Inr (JObject [(key, v)])
      | JObject ms \<Rightarrow> Inr (JObject (member_set key v ms))
      | _ \<Rightarrow> Inl (Throw Json_type_error))"

definition member_sets :: "(string \<times> json) list \<Rightarrow> (string \<times> json) list \<Rightarrow> (string \<times> json) list" where
  "member_sets kvs ms = fold (\<lambda>(k, v). member_set k v) kvs ms"

text \<open>The body of a generated \<open>to_json\<close> on a null value.\<close>

definition json_object :: "(string \<times> json) list \<Rightarrow> json" where
  "json_object kvs = JObject (member_sets kvs [])"

section \<open>Objects as maps\<close>

lemma map_of_member_set [simp]: "map_of (member_set k v ms) = (map_of ms)(k \<mapsto> v)"
  by (induction ms rule: member_set.induct [of _ k v]) (auto simp: fun_eq_iff)

lemma member_sets_simps [simp]:
  "member_sets [] ms = ms" "member_sets ((k, v) # kvs) ms = member_sets kvs (member_set k v ms)"
  by (simp_all add: member_sets_def)

lemma map_of_member_sets: "map_of (member_sets kvs ms) = fold (\<lambda>(k, v) m. m(k \<mapsto> v)) kvs (map_of ms)"
  by (induction kvs arbitrary: ms) auto

lemma json_at_object [simp]: "json_at k (JObject ms) =
    (case map_of ms k of Some v \<Rightarrow> Inr v | None \<Rightarrow> Inl (Throw Json_out_of_range))"
  by (simp add: json_at_def)

lemma json_at_json_object [simp]: "json_at k (json_object kvs) =
    (case fold (\<lambda>(k, v) m. m(k \<mapsto> v)) kvs Map.empty k of Some v \<Rightarrow> Inr v | None \<Rightarrow> Inl (Throw Json_out_of_range))"
  by (simp add: json_object_def map_of_member_sets)

lemma member_set_fst: "fst ` set (member_set k v ms) = insert k (fst ` set ms)"
  by (induction k v ms rule: member_set.induct) auto

lemma member_set_sorted:
  "sorted_wrt (<) (map fst ms) \<Longrightarrow> sorted_wrt (<) (map fst (member_set k v ms))"
proof (induction k v ms rule: member_set.induct)
  case (2 key v k x ms)
  then show ?case
    using member_set_fst [of key v ms] by (auto simp: image_iff)
qed simp

lemma member_set_snd: "snd ` set (member_set k v ms) \<subseteq> insert v (snd ` set ms)"
  by (induction k v ms rule: member_set.induct) auto

lemma member_set_above: "\<forall>k' \<in> fst ` set ms. k' < k \<Longrightarrow> member_set k v ms = ms @ [(k, v)]"
  by (induction k v ms rule: member_set.induct) auto

section \<open>The invariant\<close>

fun json_sorted :: "json \<Rightarrow> bool" where
  "json_sorted (JArray js) = (\<forall>j \<in> set js. json_sorted j)"
| "json_sorted (JObject ms) =
     (sorted_wrt (<) (map fst ms) \<and> (\<forall>m \<in> set ms. json_sorted (snd m)))"
| "json_sorted _ = True"

lemma member_set_json_sorted:
  "json_sorted (JObject ms) \<Longrightarrow> json_sorted v \<Longrightarrow> json_sorted (JObject (member_set k v ms))"
  using member_set_snd [of k v ms] by (force simp: member_set_sorted)

lemma member_sets_json_sorted:
  "json_sorted (JObject ms) \<Longrightarrow> list_all (\<lambda>m. json_sorted (snd m)) kvs \<Longrightarrow>
   json_sorted (JObject (member_sets kvs ms))"
proof (induction kvs arbitrary: ms)
  case (Cons m kvs)
  then show ?case
    by (cases m) (simp add: member_set_json_sorted del: json_sorted.simps)
qed simp

lemma json_object_sorted: "list_all (\<lambda>m. json_sorted (snd m)) kvs \<Longrightarrow> json_sorted (json_object kvs)"
  unfolding json_object_def by (rule member_sets_json_sorted) simp_all

lemma json_set_sorted: "json_set k v j = Inr j' \<Longrightarrow> json_sorted j \<Longrightarrow> json_sorted v \<Longrightarrow> json_sorted j'"
  by (auto simp: json_set_def member_set_json_sorted simp del: json_sorted.simps split: json.splits)
    simp_all

end
