(* ===== verification/Doubles.thy ===== *)
theory Doubles
  imports Prelude "HOL-Library.Log_Nat"
begin

text \<open>
  Doubles, as the program computes with them: rationals rounded to 53 bits, and their conversions to integers.
  A number that needs no more than 53 bits is kept, which is what the conversions of sizes and positions
  rest on.
\<close>

section \<open>Rounding\<close>

text \<open>A \<open>double\<close>: the nearest number with 53 bits, the even one of two (the exponents in
  use are far from the ends of their range).\<close>

definition half_even :: "rat \<Rightarrow> int" where
  "half_even x =
     (let f = \<lfloor>x\<rfloor>; r = x - of_int f in
      if r < 1 / 2 then f else if 1 / 2 < r then f + 1 else if even f then f else f + 1)"

definition pow2 :: "int \<Rightarrow> rat" where
  "pow2 e = (if 0 \<le> e then 2 ^ nat e else 1 / 2 ^ nat (- e))"

definition exponent :: "rat \<Rightarrow> int" where
  "exponent q =
     (case quotient_of q of (n, d) \<Rightarrow>
      let k = bitlen n - bitlen d in (if pow2 k \<le> q then k else k - 1))"

definition double_of :: "rat \<Rightarrow> rat" where
  "double_of q =
     (if q = 0 then 0
      else let e = exponent \<bar>q\<bar> - 52; m = of_int (half_even (\<bar>q\<bar> / pow2 e)) * pow2 e
           in if q < 0 then - m else m)"

definition to_zero :: "rat \<Rightarrow> int" where
  "to_zero q = (if q < 0 then - \<lfloor>- q\<rfloor> else \<lfloor>q\<rfloor>)"

text \<open>Division by zero gives an infinity or no number; neither has a value as an integer.\<close>

definition double_div :: "rat \<Rightarrow> rat \<Rightarrow> rat option" where
  "double_div a b = (if b = 0 then None else Some (double_of (a / b)))"

definition double_to_int :: "nat \<Rightarrow> int \<Rightarrow> rat option \<Rightarrow> int outcome" where
  "double_to_int bits lowest x =
     (case x of None \<Rightarrow> Inl UB
      | Some q \<Rightarrow> if lowest \<le> to_zero q \<and> to_zero q < 2 ^ bits then Inr (to_zero q) else Inl UB)"

section \<open>Exact numbers\<close>

lemma pow2_powi: "pow2 e = 2 powi e"
  by (simp add: pow2_def power_int_def power_one_over inverse_eq_divide)

lemma pow2_add: "pow2 (a + b) = pow2 a * pow2 b"
  by (simp add: pow2_powi power_int_add)

lemma pow2_diff: "pow2 (a - b) = pow2 a / pow2 b"
  by (simp add: pow2_powi power_int_diff)

lemma pow2_pos [simp]: "0 < pow2 e" by (simp add: pow2_def)

lemma pow2_mono: "a \<le> b \<Longrightarrow> pow2 a \<le> pow2 b"
  by (simp add: pow2_powi power_int_increasing)

lemma pow2_less_imp: "pow2 a < pow2 b \<Longrightarrow> a < b"
  using pow2_mono [of b a] by (rule_tac ccontr) simp

lemma bitlen_bounds_rat:
  assumes "0 < n"
  shows "pow2 (bitlen n - 1) \<le> of_int n" and "of_int n < pow2 (bitlen n)"
proof -
  have b: "2 ^ nat (bitlen n - 1) \<le> n" "n < 2 ^ nat (bitlen n)" using bitlen_bounds [OF assms] by simp_all
  have p: "0 < bitlen n" using b(2) assms bitlen_nonneg [of n] by (cases "bitlen n = 0") auto
  have "(of_int (2 ^ nat (bitlen n - 1)) :: rat) \<le> of_int n" "(of_int n :: rat) < of_int (2 ^ nat (bitlen n))"
    using b by (simp_all only: of_int_le_iff of_int_less_iff)
  then show "pow2 (bitlen n - 1) \<le> of_int n" "of_int n < pow2 (bitlen n)"
    using p by (simp_all add: pow2_def)
qed

lemma exponent_bounds:
  assumes "0 < q"
  shows "pow2 (exponent q) \<le> q" and "q < pow2 (exponent q + 1)"
proof -
  obtain n d where nd: "quotient_of q = (n, d)" by fastforce
  have d: "0 < d" and q: "q = of_int n / of_int d"
    using nd quotient_of_denom_pos quotient_of_div by blast+
  with assms have n: "0 < n" by (simp add: zero_less_divide_iff)
  let ?k = "bitlen n - bitlen d"
  note bn = bitlen_bounds_rat [OF n] and bd = bitlen_bounds_rat [OF d]
  have "pow2 (?k - 1) * of_int d \<le> pow2 (?k - 1) * pow2 (bitlen d)" using bd(2) by simp
  also have "\<dots> = pow2 (bitlen n - 1)" by (simp add: pow2_add [symmetric])
  finally have lo: "pow2 (?k - 1) \<le> q" using bn(1) d unfolding q by (simp add: field_simps)
  have "of_int n < pow2 (bitlen n)" by (rule bn(2))
  also have "\<dots> = pow2 (?k + 1) * pow2 (bitlen d - 1)" by (simp add: pow2_add [symmetric])
  also have "\<dots> \<le> pow2 (?k + 1) * of_int d" using bd(1) by simp
  finally have hi: "q < pow2 (?k + 1)" using d unfolding q by (simp add: field_simps)
  have e: "exponent q = (if pow2 ?k \<le> q then ?k else ?k - 1)" by (simp add: exponent_def nd)
  show "pow2 (exponent q) \<le> q" "q < pow2 (exponent q + 1)" using lo hi by (simp_all add: e)
qed

lemma half_even_int [simp]: "half_even (of_int n) = n"
  by (simp add: half_even_def Let_def)

lemma double_pos:
  "0 < q \<Longrightarrow> double_of q = of_int (half_even (q / pow2 (exponent q - 52))) * pow2 (exponent q - 52)"
  by (simp add: double_of_def Let_def)

text \<open>A number of at most 53 bits, at any exponent.\<close>

lemma double_exact_pos:
  assumes "0 < m" and "m < 2 ^ 53"
  shows "double_of (of_int m * pow2 k) = of_int m * pow2 k"
proof -
  let ?q = "of_int m * pow2 k" and ?e = "exponent (of_int m * pow2 k) - 52"
  have q: "0 < ?q" using assms(1) by simp
  have "(of_int m :: rat) < of_int (2 ^ 53)" using assms(2) by (simp only: of_int_less_iff)
  then have "(of_int m :: rat) < pow2 53" by (simp add: pow2_def)
  then have "?q < pow2 (53 + k)" by (simp add: pow2_add)
  then have "pow2 (exponent ?q) < pow2 (53 + k)" using exponent_bounds(1) [OF q] by linarith
  then have k: "?e \<le> k" using pow2_less_imp by fastforce
  have "?q / pow2 ?e = of_int m * pow2 (k - ?e)" by (simp only: pow2_diff times_divide_eq_right)
  also have "pow2 (k - ?e) = of_int (2 ^ nat (k - ?e))" using k by (simp add: pow2_def)
  also have "of_int m * of_int (2 ^ nat (k - ?e)) = (of_int (m * 2 ^ nat (k - ?e)) :: rat)" by simp
  finally have h: "of_int (half_even (?q / pow2 ?e)) = ?q / pow2 ?e" by (simp only: half_even_int)
  have "double_of ?q = of_int (half_even (?q / pow2 ?e)) * pow2 ?e"
    by (rule double_pos [OF q])
  then show ?thesis by (simp add: h less_imp_neq [OF pow2_pos, symmetric])
qed

lemma double_of_nat:
  assumes "n < 2 ^ 53"
  shows "double_of (of_nat n) = of_nat n"
proof (cases "n = 0")
  case True
  then show ?thesis by (simp add: double_of_def)
next
  case False
  have "int n < 2 ^ 53" using assms by (metis of_nat_less_iff of_nat_numeral of_nat_power)
  with False show ?thesis using double_exact_pos [of "int n" 0] by (simp add: pow2_def)
qed

lemma double_of_nat_power:
  assumes "n < 2 ^ 53"
  shows "double_of (of_nat n * 2 ^ k) = of_nat n * 2 ^ k"
proof (cases "n = 0")
  case True
  then show ?thesis by (simp add: double_of_def)
next
  case False
  have "int n < 2 ^ 53" using assms by (metis of_nat_less_iff of_nat_numeral of_nat_power)
  with False show ?thesis using double_exact_pos [of "int n" "int k"] by (simp add: pow2_def)
qed

lemma double_product:
  assumes "n < 2 ^ 53"
  shows "double_of (double_of (of_nat n) * double_of (of_nat (2 ^ k))) = of_nat (n * 2 ^ k)"
proof -
  have "double_of (2 ^ k) = 2 ^ k" using double_of_nat_power [of 1 k] by simp
  then show ?thesis using double_of_nat_power [OF assms, of k] by (simp add: double_of_nat [OF assms])
qed

end
