(* ===== verification/Protocol.thy ===== *)
theory Protocol
  imports Json Doubles
begin

text \<open>
  \<open>src/protobuf/\<close>: the messages of the protocol between client and server and their
  conversions to and from JSON, which the macro \<open>NLOHMANN_DEFINE_TYPE_NON_INTRUSIVE\<close>
  writes: \<open>to_json\<close> assigns the members by name, \<open>from_json\<close> reads them in
  order with \<open>at\<close>, which throws when the value is not an object or has no such member.  The values are those of \<open>Json\<close>.

  The locale \<open>json_codec\<close> is the contract of a pair of conversions; every message has it.
\<close>

section \<open>The conversions of the library\<close>

text \<open>The conversions of the library for the member types.  An arithmetic type reads any kind
  of number by \<open>static_cast\<close>; a float outside the range of the type is undefined.\<close>

definition get_string :: "json \<Rightarrow> string outcome" where
  "get_string j = (case j of JString s \<Rightarrow> Inr s | _ \<Rightarrow> Inl (Throw Json_type_error))"

definition get_bool :: "json \<Rightarrow> bool outcome" where
  "get_bool j = (case j of JBool b \<Rightarrow> Inr b | _ \<Rightarrow> Inl (Throw Json_type_error))"

definition get_u64 :: "json \<Rightarrow> 64 word outcome" where
  "get_u64 j =
     (case j of
        JUnsigned w \<Rightarrow> Inr w
      | JInteger i \<Rightarrow> Inr (of_int i)
      | JFloat q \<Rightarrow>
          (if 0 \<le> to_zero q \<and> to_zero q < 2 ^ 64 then Inr (of_int (to_zero q)) else Inl UB)
      | _ \<Rightarrow> Inl (Throw Json_type_error))"

text \<open>The underlying type of the enumerations is \<open>unsigned int\<close>.\<close>

definition get_u32 :: "json \<Rightarrow> 32 word outcome" where
  "get_u32 j =
     (case j of
        JUnsigned w \<Rightarrow> Inr (ucast w)
      | JInteger i \<Rightarrow> Inr (of_int i)
      | JFloat q \<Rightarrow>
          (if 0 \<le> to_zero q \<and> to_zero q < 2 ^ 32 then Inr (of_int (to_zero q)) else Inl UB)
      | _ \<Rightarrow> Inl (Throw Json_type_error))"

definition get_array :: "(json \<Rightarrow> 'a outcome) \<Rightarrow> json \<Rightarrow> 'a list outcome" where
  "get_array get j = (case j of JArray js \<Rightarrow> mapM get js | _ \<Rightarrow> Inl (Throw Json_type_error))"

definition json_of_array :: "('a \<Rightarrow> json) \<Rightarrow> 'a list \<Rightarrow> json" where
  "json_of_array put xs = JArray (map put xs)"

section \<open>Enumerations\<close>

text \<open>A value outside the bits an enumeration needs cannot be converted to it; \<open>Action\<close>
  needs three bits, so it has values without a name.\<close>

datatype service_state = Stopped | Running | Starting | Stopping

datatype control_action = Stop | Start | Restart | Enable | Disable | Unnamed_action "32 word"

datatype adapter_state = Down | Up

definition code_of_service_state :: "service_state \<Rightarrow> 32 word" where
  "code_of_service_state s = (case s of Stopped \<Rightarrow> 0 | Running \<Rightarrow> 1 | Starting \<Rightarrow> 2 | Stopping \<Rightarrow> 3)"

definition code_of_action :: "control_action \<Rightarrow> 32 word" where
  "code_of_action a =
     (case a of Stop \<Rightarrow> 0 | Start \<Rightarrow> 1 | Restart \<Rightarrow> 2 | Enable \<Rightarrow> 3 | Disable \<Rightarrow> 4
      | Unnamed_action w \<Rightarrow> w)"

definition code_of_adapter_state :: "adapter_state \<Rightarrow> 32 word" where
  "code_of_adapter_state s = (case s of Down \<Rightarrow> 0 | Up \<Rightarrow> 1)"

definition json_of_service_state :: "service_state \<Rightarrow> json" where
  "json_of_service_state s = JUnsigned (ucast (code_of_service_state s))"

definition json_of_action :: "control_action \<Rightarrow> json" where
  "json_of_action a = JUnsigned (ucast (code_of_action a))"

definition json_of_adapter_state :: "adapter_state \<Rightarrow> json" where
  "json_of_adapter_state s = JUnsigned (ucast (code_of_adapter_state s))"

definition get_service_state :: "json \<Rightarrow> service_state outcome" where
  "get_service_state j =
     bind (get_u32 j) (\<lambda>v. if v = 0 then Inr Stopped else if v = 1 then Inr Running
       else if v = 2 then Inr Starting else if v = 3 then Inr Stopping else Inl UB)"

definition get_action :: "json \<Rightarrow> control_action outcome" where
  "get_action j =
     bind (get_u32 j) (\<lambda>v. if v = 0 then Inr Stop else if v = 1 then Inr Start
       else if v = 2 then Inr Restart else if v = 3 then Inr Enable else if v = 4 then Inr Disable
       else if v < 8 then Inr (Unnamed_action v) else Inl UB)"

definition get_adapter_state :: "json \<Rightarrow> adapter_state outcome" where
  "get_adapter_state j =
     bind (get_u32 j) (\<lambda>v. if v = 0 then Inr Down else if v = 1 then Inr Up else Inl UB)"

section \<open>Messages\<close>

record msg_serviceinfo =
  si_server :: string
  si_types :: "string list"

record msg_servicesrequest =
  sr_type :: string

record msg_service =
  svc_id :: string
  svc_state :: service_state
  svc_enabled :: bool
  svc_type :: string
  svc_display_name :: string
  svc_description :: string

record msg_control =
  ctl_id :: string
  ctl_action :: control_action

record msg_services =
  svcs_services :: "msg_service list"

record msg_partition =
  part_dev_node :: string
  part_size :: "64 word"
  part_used :: "64 word"
  part_mountpoint :: string
  part_filesystem :: string

record msg_drive =
  drv_dev_node :: string
  drv_size :: "64 word"
  drv_model :: string
  drv_manufacturer :: string
  drv_interface :: string
  drv_partitions :: "msg_partition list"

record msg_drives =
  drvs_drives :: "msg_drive list"

record msg_update =
  upd_source :: string
  upd_name :: string
  upd_old_version :: string
  upd_new_version :: string

record msg_updates =
  upds_updates :: "msg_update list"

record msg_system =
  sys_hostname :: string
  sys_mac_address :: string
  sys_ip_address :: string
  sys_operating_system :: string
  sys_kernel :: string
  sys_architecture :: string
  sys_vm_platform :: string
  sys_icon :: string

record msg_adapter =
  ad_name :: string
  ad_state :: adapter_state
  ad_link_speed :: "64 word"
  ad_mtu :: "64 word"
  ad_mac_address :: string
  ad_ip_address :: string
  ad_bytes_rx :: "64 word"
  ad_bytes_tx :: "64 word"
  ad_time :: "64 word"

record msg_adapters =
  ads_adapters :: "msg_adapter list"

section \<open>The generated conversions\<close>

definition json_of_serviceinfo :: "msg_serviceinfo \<Rightarrow> json" where
  "json_of_serviceinfo m = json_object
     [(''server'', JString (si_server m)),
      (''types'', json_of_array JString (si_types m))]"

definition get_serviceinfo :: "json \<Rightarrow> msg_serviceinfo outcome" where
  "get_serviceinfo j =
     bind (bind (json_at ''server'' j) get_string) (\<lambda>v_server.
     bind (bind (json_at ''types'' j) (get_array get_string)) (\<lambda>v_types.
     Inr \<lparr>si_server = v_server, si_types = v_types\<rparr>))"

definition json_of_servicesrequest :: "msg_servicesrequest \<Rightarrow> json" where
  "json_of_servicesrequest m = json_object
     [(''type'', JString (sr_type m))]"

definition get_servicesrequest :: "json \<Rightarrow> msg_servicesrequest outcome" where
  "get_servicesrequest j =
     bind (bind (json_at ''type'' j) get_string) (\<lambda>v_type.
     Inr \<lparr>sr_type = v_type\<rparr>)"

definition json_of_service :: "msg_service \<Rightarrow> json" where
  "json_of_service m = json_object
     [(''id'', JString (svc_id m)),
      (''state'', json_of_service_state (svc_state m)),
      (''enabled'', JBool (svc_enabled m)),
      (''type'', JString (svc_type m)),
      (''display_name'', JString (svc_display_name m)),
      (''description'', JString (svc_description m))]"

definition get_service :: "json \<Rightarrow> msg_service outcome" where
  "get_service j =
     bind (bind (json_at ''id'' j) get_string) (\<lambda>v_id.
     bind (bind (json_at ''state'' j) get_service_state) (\<lambda>v_state.
     bind (bind (json_at ''enabled'' j) get_bool) (\<lambda>v_enabled.
     bind (bind (json_at ''type'' j) get_string) (\<lambda>v_type.
     bind (bind (json_at ''display_name'' j) get_string) (\<lambda>v_display_name.
     bind (bind (json_at ''description'' j) get_string) (\<lambda>v_description.
     Inr \<lparr>svc_id = v_id, svc_state = v_state, svc_enabled = v_enabled, svc_type = v_type, svc_display_name = v_display_name, svc_description = v_description\<rparr>))))))"

definition json_of_control :: "msg_control \<Rightarrow> json" where
  "json_of_control m = json_object
     [(''id'', JString (ctl_id m)),
      (''action'', json_of_action (ctl_action m))]"

definition get_control :: "json \<Rightarrow> msg_control outcome" where
  "get_control j =
     bind (bind (json_at ''id'' j) get_string) (\<lambda>v_id.
     bind (bind (json_at ''action'' j) get_action) (\<lambda>v_action.
     Inr \<lparr>ctl_id = v_id, ctl_action = v_action\<rparr>))"

definition json_of_services :: "msg_services \<Rightarrow> json" where
  "json_of_services m = json_object
     [(''services'', json_of_array json_of_service (svcs_services m))]"

definition get_services :: "json \<Rightarrow> msg_services outcome" where
  "get_services j =
     bind (bind (json_at ''services'' j) (get_array get_service)) (\<lambda>v_services.
     Inr \<lparr>svcs_services = v_services\<rparr>)"

definition json_of_partition :: "msg_partition \<Rightarrow> json" where
  "json_of_partition m = json_object
     [(''dev_node'', JString (part_dev_node m)),
      (''size'', JUnsigned (part_size m)),
      (''used'', JUnsigned (part_used m)),
      (''mountpoint'', JString (part_mountpoint m)),
      (''filesystem'', JString (part_filesystem m))]"

definition get_partition :: "json \<Rightarrow> msg_partition outcome" where
  "get_partition j =
     bind (bind (json_at ''dev_node'' j) get_string) (\<lambda>v_dev_node.
     bind (bind (json_at ''size'' j) get_u64) (\<lambda>v_size.
     bind (bind (json_at ''used'' j) get_u64) (\<lambda>v_used.
     bind (bind (json_at ''mountpoint'' j) get_string) (\<lambda>v_mountpoint.
     bind (bind (json_at ''filesystem'' j) get_string) (\<lambda>v_filesystem.
     Inr \<lparr>part_dev_node = v_dev_node, part_size = v_size, part_used = v_used, part_mountpoint = v_mountpoint, part_filesystem = v_filesystem\<rparr>)))))"

definition json_of_drive :: "msg_drive \<Rightarrow> json" where
  "json_of_drive m = json_object
     [(''dev_node'', JString (drv_dev_node m)),
      (''size'', JUnsigned (drv_size m)),
      (''model'', JString (drv_model m)),
      (''manufacturer'', JString (drv_manufacturer m)),
      (''interface'', JString (drv_interface m)),
      (''partitions'', json_of_array json_of_partition (drv_partitions m))]"

definition get_drive :: "json \<Rightarrow> msg_drive outcome" where
  "get_drive j =
     bind (bind (json_at ''dev_node'' j) get_string) (\<lambda>v_dev_node.
     bind (bind (json_at ''size'' j) get_u64) (\<lambda>v_size.
     bind (bind (json_at ''model'' j) get_string) (\<lambda>v_model.
     bind (bind (json_at ''manufacturer'' j) get_string) (\<lambda>v_manufacturer.
     bind (bind (json_at ''interface'' j) get_string) (\<lambda>v_interface.
     bind (bind (json_at ''partitions'' j) (get_array get_partition)) (\<lambda>v_partitions.
     Inr \<lparr>drv_dev_node = v_dev_node, drv_size = v_size, drv_model = v_model, drv_manufacturer = v_manufacturer, drv_interface = v_interface, drv_partitions = v_partitions\<rparr>))))))"

definition json_of_drives :: "msg_drives \<Rightarrow> json" where
  "json_of_drives m = json_object
     [(''drives'', json_of_array json_of_drive (drvs_drives m))]"

definition get_drives :: "json \<Rightarrow> msg_drives outcome" where
  "get_drives j =
     bind (bind (json_at ''drives'' j) (get_array get_drive)) (\<lambda>v_drives.
     Inr \<lparr>drvs_drives = v_drives\<rparr>)"

definition json_of_update :: "msg_update \<Rightarrow> json" where
  "json_of_update m = json_object
     [(''source'', JString (upd_source m)),
      (''name'', JString (upd_name m)),
      (''old_version'', JString (upd_old_version m)),
      (''new_version'', JString (upd_new_version m))]"

definition get_update :: "json \<Rightarrow> msg_update outcome" where
  "get_update j =
     bind (bind (json_at ''source'' j) get_string) (\<lambda>v_source.
     bind (bind (json_at ''name'' j) get_string) (\<lambda>v_name.
     bind (bind (json_at ''old_version'' j) get_string) (\<lambda>v_old_version.
     bind (bind (json_at ''new_version'' j) get_string) (\<lambda>v_new_version.
     Inr \<lparr>upd_source = v_source, upd_name = v_name, upd_old_version = v_old_version, upd_new_version = v_new_version\<rparr>))))"

definition json_of_updates :: "msg_updates \<Rightarrow> json" where
  "json_of_updates m = json_object
     [(''updates'', json_of_array json_of_update (upds_updates m))]"

definition get_updates :: "json \<Rightarrow> msg_updates outcome" where
  "get_updates j =
     bind (bind (json_at ''updates'' j) (get_array get_update)) (\<lambda>v_updates.
     Inr \<lparr>upds_updates = v_updates\<rparr>)"

definition json_of_system :: "msg_system \<Rightarrow> json" where
  "json_of_system m = json_object
     [(''hostname'', JString (sys_hostname m)),
      (''mac_address'', JString (sys_mac_address m)),
      (''ip_address'', JString (sys_ip_address m)),
      (''operating_system'', JString (sys_operating_system m)),
      (''kernel'', JString (sys_kernel m)),
      (''architecture'', JString (sys_architecture m)),
      (''vm_platform'', JString (sys_vm_platform m)),
      (''icon'', JString (sys_icon m))]"

definition get_system :: "json \<Rightarrow> msg_system outcome" where
  "get_system j =
     bind (bind (json_at ''hostname'' j) get_string) (\<lambda>v_hostname.
     bind (bind (json_at ''mac_address'' j) get_string) (\<lambda>v_mac_address.
     bind (bind (json_at ''ip_address'' j) get_string) (\<lambda>v_ip_address.
     bind (bind (json_at ''operating_system'' j) get_string) (\<lambda>v_operating_system.
     bind (bind (json_at ''kernel'' j) get_string) (\<lambda>v_kernel.
     bind (bind (json_at ''architecture'' j) get_string) (\<lambda>v_architecture.
     bind (bind (json_at ''vm_platform'' j) get_string) (\<lambda>v_vm_platform.
     bind (bind (json_at ''icon'' j) get_string) (\<lambda>v_icon.
     Inr \<lparr>sys_hostname = v_hostname, sys_mac_address = v_mac_address, sys_ip_address = v_ip_address, sys_operating_system = v_operating_system, sys_kernel = v_kernel, sys_architecture = v_architecture, sys_vm_platform = v_vm_platform, sys_icon = v_icon\<rparr>))))))))"

definition json_of_adapter :: "msg_adapter \<Rightarrow> json" where
  "json_of_adapter m = json_object
     [(''name'', JString (ad_name m)),
      (''state'', json_of_adapter_state (ad_state m)),
      (''link_speed'', JUnsigned (ad_link_speed m)),
      (''mtu'', JUnsigned (ad_mtu m)),
      (''mac_address'', JString (ad_mac_address m)),
      (''ip_address'', JString (ad_ip_address m)),
      (''bytes_rx'', JUnsigned (ad_bytes_rx m)),
      (''bytes_tx'', JUnsigned (ad_bytes_tx m)),
      (''time'', JUnsigned (ad_time m))]"

definition get_adapter :: "json \<Rightarrow> msg_adapter outcome" where
  "get_adapter j =
     bind (bind (json_at ''name'' j) get_string) (\<lambda>v_name.
     bind (bind (json_at ''state'' j) get_adapter_state) (\<lambda>v_state.
     bind (bind (json_at ''link_speed'' j) get_u64) (\<lambda>v_link_speed.
     bind (bind (json_at ''mtu'' j) get_u64) (\<lambda>v_mtu.
     bind (bind (json_at ''mac_address'' j) get_string) (\<lambda>v_mac_address.
     bind (bind (json_at ''ip_address'' j) get_string) (\<lambda>v_ip_address.
     bind (bind (json_at ''bytes_rx'' j) get_u64) (\<lambda>v_bytes_rx.
     bind (bind (json_at ''bytes_tx'' j) get_u64) (\<lambda>v_bytes_tx.
     bind (bind (json_at ''time'' j) get_u64) (\<lambda>v_time.
     Inr \<lparr>ad_name = v_name, ad_state = v_state, ad_link_speed = v_link_speed, ad_mtu = v_mtu, ad_mac_address = v_mac_address, ad_ip_address = v_ip_address, ad_bytes_rx = v_bytes_rx, ad_bytes_tx = v_bytes_tx, ad_time = v_time\<rparr>)))))))))"

definition json_of_adapters :: "msg_adapters \<Rightarrow> json" where
  "json_of_adapters m = json_object
     [(''adapters'', json_of_array json_of_adapter (ads_adapters m))]"

definition get_adapters :: "json \<Rightarrow> msg_adapters outcome" where
  "get_adapters j =
     bind (bind (json_at ''adapters'' j) (get_array get_adapter)) (\<lambda>v_adapters.
     Inr \<lparr>ads_adapters = v_adapters\<rparr>)"

section \<open>The contract of a pair of conversions\<close>

locale json_codec =
  fixes put :: "'a \<Rightarrow> json" and get :: "json \<Rightarrow> 'a outcome" and valid :: "'a \<Rightarrow> bool"
  assumes get_put: "valid x \<Longrightarrow> get (put x) = Inr x"
begin

lemma put_inject: "valid x \<Longrightarrow> valid y \<Longrightarrow> put x = put y \<Longrightarrow> x = y"
  using get_put by (metis Inr_inject)

lemma array_get_put: "(\<And>x. x \<in> set xs \<Longrightarrow> valid x) \<Longrightarrow> get_array get (json_of_array put xs) = Inr xs"
  by (simp add: get_array_def json_of_array_def mapM_map_inverse get_put)

lemma array_put_inject:
  "list_all valid xs \<Longrightarrow> list_all valid ys \<Longrightarrow> json_of_array put xs = json_of_array put ys \<Longrightarrow> xs = ys"
proof -
  assume e: "json_of_array put xs = json_of_array put ys"
  assume "list_all valid xs" and "list_all valid ys"
  then have "get_array get (json_of_array put xs) = Inr xs" "get_array get (json_of_array put ys) = Inr ys"
    by (simp_all only: list_all_iff array_get_put)
  with e show ?thesis by (metis Inr_inject)
qed

end

interpretation js_string: json_codec JString get_string "\<lambda>s. True"
  by unfold_locales (simp add: get_string_def)

interpretation js_bool: json_codec JBool get_bool "\<lambda>b. True"
  by unfold_locales (simp add: get_bool_def)

interpretation js_u64: json_codec JUnsigned get_u64 "\<lambda>w. True"
  by unfold_locales (simp add: get_u64_def)

interpretation js_service_state: json_codec json_of_service_state get_service_state "\<lambda>s. True"
  by unfold_locales
    (simp add: json_of_service_state_def get_service_state_def get_u32_def code_of_service_state_def
      split: service_state.splits)

text \<open>An unnamed action keeps its value when it is one of the three.\<close>

definition action_valid :: "control_action \<Rightarrow> bool" where
  "action_valid a = (case a of Unnamed_action w \<Rightarrow> 4 < w \<and> w < 8 | _ \<Rightarrow> True)"

lemma ucast_code: "ucast (ucast w :: 64 word) = w" for w :: "32 word"
  by (rule bit_word_eqI) (simp add: bit_simps)

interpretation js_action: json_codec json_of_action get_action action_valid
proof
  fix a
  assume "action_valid a"
  then show "get_action (json_of_action a) = Inr a"
    by (cases a)
      (auto simp: json_of_action_def get_action_def get_u32_def code_of_action_def action_valid_def
        ucast_code)
qed

interpretation js_adapter_state: json_codec json_of_adapter_state get_adapter_state "\<lambda>s. True"
  by unfold_locales
    (simp add: json_of_adapter_state_def get_adapter_state_def get_u32_def code_of_adapter_state_def
      split: adapter_state.splits)

lemmas js_get_put =
  js_string.get_put js_bool.get_put js_u64.get_put js_service_state.get_put js_action.get_put
  js_adapter_state.get_put js_string.array_get_put

lemmas js_simps = js_get_put

interpretation js_serviceinfo: json_codec json_of_serviceinfo get_serviceinfo "\<lambda>m. True"
  by unfold_locales (simp add: json_of_serviceinfo_def get_serviceinfo_def js_simps)

interpretation js_servicesrequest: json_codec json_of_servicesrequest get_servicesrequest "\<lambda>m. True"
  by unfold_locales (simp add: json_of_servicesrequest_def get_servicesrequest_def js_simps)

interpretation js_service: json_codec json_of_service get_service "\<lambda>m. True"
  by unfold_locales (simp add: json_of_service_def get_service_def js_simps)

interpretation js_control: json_codec json_of_control get_control "\<lambda>m. action_valid (ctl_action m)"
  by unfold_locales (simp add: json_of_control_def get_control_def js_simps)

interpretation js_services: json_codec json_of_services get_services "\<lambda>m. True"
  by unfold_locales (simp add: json_of_services_def get_services_def js_simps js_service.array_get_put)

interpretation js_partition: json_codec json_of_partition get_partition "\<lambda>m. True"
  by unfold_locales (simp add: json_of_partition_def get_partition_def js_simps)

interpretation js_drive: json_codec json_of_drive get_drive "\<lambda>m. True"
  by unfold_locales (simp add: json_of_drive_def get_drive_def js_simps js_partition.array_get_put)

interpretation js_drives: json_codec json_of_drives get_drives "\<lambda>m. True"
  by unfold_locales (simp add: json_of_drives_def get_drives_def js_simps js_drive.array_get_put)

interpretation js_update: json_codec json_of_update get_update "\<lambda>m. True"
  by unfold_locales (simp add: json_of_update_def get_update_def js_simps)

interpretation js_updates: json_codec json_of_updates get_updates "\<lambda>m. True"
  by unfold_locales (simp add: json_of_updates_def get_updates_def js_simps js_update.array_get_put)

interpretation js_system: json_codec json_of_system get_system "\<lambda>m. True"
  by unfold_locales (simp add: json_of_system_def get_system_def js_simps)

interpretation js_adapter: json_codec json_of_adapter get_adapter "\<lambda>m. True"
  by unfold_locales (simp add: json_of_adapter_def get_adapter_def js_simps)

interpretation js_adapters: json_codec json_of_adapters get_adapters "\<lambda>m. True"
  by unfold_locales (simp add: json_of_adapters_def get_adapters_def js_simps js_adapter.array_get_put)

section \<open>Properties\<close>

lemma above_four:
  "w \<noteq> 0 \<Longrightarrow> w \<noteq> 1 \<Longrightarrow> w \<noteq> 2 \<Longrightarrow> w \<noteq> 3 \<Longrightarrow> w \<noteq> 4 \<Longrightarrow> 4 < w" for w :: "32 word"
proof -
  assume "w \<noteq> 0" "w \<noteq> 1" "w \<noteq> 2" "w \<noteq> 3" "w \<noteq> 4"
  then have "unat w \<noteq> 0" "unat w \<noteq> 1" "unat w \<noteq> 2" "unat w \<noteq> 3" "unat w \<noteq> 4"
    by (simp_all add: word_unat_eq_iff)
  then have "4 < unat w" by linarith
  then show ?thesis by (simp add: word_less_nat_alt)
qed

lemma eight_above: "\<not> (8 :: 32 word) \<le> 1" "\<not> (8 :: 32 word) \<le> 0" "\<not> (8 :: 32 word) \<le> 2"
  "\<not> (8 :: 32 word) \<le> 3" "\<not> (8 :: 32 word) \<le> 4"
  by (simp_all add: word_le_nat_alt)


text \<open>Reading a control request leaves the defined part of the language exactly when the
  request is an object whose action is a number outside the enumeration; this happens before the
  request is authenticated.\<close>

theorem get_control_UB_iff:
  "get_control j = Inl UB \<longleftrightarrow>
   (\<exists>ms s v. j = JObject ms \<and> map_of ms ''id'' = Some (JString s) \<and> map_of ms ''action'' = Some v \<and>
      (get_u32 v = Inl UB \<or> (\<exists>w. get_u32 v = Inr w \<and> 8 \<le> w)))"
proof -
  have a: "get_action v = Inl UB \<longleftrightarrow> get_u32 v = Inl UB \<or> (\<exists>w. get_u32 v = Inr w \<and> 8 \<le> w)" for v
    by (cases "get_u32 v") (auto simp: get_action_def not_less eight_above)
  have s: "get_string v = Inl UB \<longleftrightarrow> False" "get_string v = Inr t \<longleftrightarrow> v = JString t" for v t
    by (cases v; simp add: get_string_def)+
  have at: "json_at k j = Inl UB \<longleftrightarrow> False"
    "json_at k j = Inr v \<longleftrightarrow> (\<exists>ms. j = JObject ms \<and> map_of ms k = Some v)" for k v
    by (cases j; simp add: json_at_def split: option.splits)+
  show ?thesis
    by (auto simp: get_control_def outcome_simps at s a)
qed

end
