(* ===== verification/Cxx_Numbers.thy ===== *)
theory Cxx_Numbers
  imports Ljh_Strings
begin

text \<open>
  The conversions from text to numbers of the C++ library that the program calls:
  \<open>std::stoull\<close> and \<open>std::stoi\<close> with their base and the count of the characters
  they read, and positions in strings as unsigned 64-bit values, where \<open>npos\<close> is the
  largest one and sums wrap around.
\<close>

section \<open>Digits\<close>

definition hex_value :: "char \<Rightarrow> nat option" where
  "hex_value c =
     (let n = of_char c :: nat in
      if 48 \<le> n \<and> n \<le> 57 then Some (n - 48)
      else if 65 \<le> n \<and> n \<le> 70 then Some (n - 55)
      else if 97 \<le> n \<and> n \<le> 102 then Some (n - 87)
      else None)"

definition digit_value :: "nat \<Rightarrow> char \<Rightarrow> nat option" where
  "digit_value base c =
     (case hex_value c of None \<Rightarrow> None | Some v \<Rightarrow> if v < base then Some v else None)"

definition is_digit :: "nat \<Rightarrow> char \<Rightarrow> bool" where
  "is_digit base c \<longleftrightarrow> digit_value base c \<noteq> None"

definition number :: "nat \<Rightarrow> string \<Rightarrow> nat" where
  "number base s = foldl (\<lambda>acc c. base * acc + the (digit_value base c)) 0 s"

text \<open>\<open>strtoull\<close>: white space, a sign, for base 16 an optional \<open>0x\<close>, then the
  digits.  The result is the sign, the digits and the number of characters read.\<close>

definition skip_prefix :: "nat \<Rightarrow> string \<Rightarrow> string" where
  "skip_prefix base s =
     (if base = 16 \<and> 2 < length s \<and> s ! 0 = CHR ''0'' \<and> (s ! 1 = CHR ''x'' \<or> s ! 1 = CHR ''X'') \<and>
         is_digit 16 (s ! 2)
      then drop 2 s else s)"

definition strto :: "nat \<Rightarrow> string \<Rightarrow> (bool \<times> string \<times> nat) option" where
  "strto base s =
     (let t = dropWhile isspace s;
          negative = (t \<noteq> [] \<and> hd t = CHR ''-'');
          u = (if t \<noteq> [] \<and> (hd t = CHR ''-'' \<or> hd t = CHR ''+'') then tl t else t);
          v = skip_prefix base u;
          digits = takeWhile (is_digit base) v
      in if digits = [] then None
         else Some (negative, digits, length s - length v + length digits))"

definition stoull :: "nat \<Rightarrow> string \<Rightarrow> 64 word outcome" where
  "stoull base s =
     (case strto base s of
        None \<Rightarrow> Inl (Throw Invalid_argument)
      | Some (negative, digits, used) \<Rightarrow>
          (if 2 ^ 64 \<le> number base digits then Inl (Throw Out_of_range)
           else Inr (if negative then - of_nat (number base digits) else of_nat (number base digits))))"

text \<open>The same over the integers, for evaluation.\<close>

lemma stoull_code [code]:
  "stoull base s =
     (case strto base s of
        None \<Rightarrow> Inl (Throw Invalid_argument)
      | Some (negative, digits, used) \<Rightarrow>
          (let n = int (number base digits) in
           if 18446744073709551616 \<le> n then Inl (Throw Out_of_range)
           else Inr (of_int (if negative then - n else n))))"
proof -
  have "2 ^ 64 \<le> n \<longleftrightarrow> 18446744073709551616 \<le> int n" for n :: nat by simp
  then show ?thesis by (auto simp: stoull_def Let_def split: option.splits)
qed

text \<open>\<open>std::stoi\<close> with the count it stores through its second argument.\<close>

definition stoi :: "nat \<Rightarrow> string \<Rightarrow> (int \<times> nat) outcome" where
  "stoi base s =
     (case strto base s of
        None \<Rightarrow> Inl (Throw Invalid_argument)
      | Some (negative, digits, used) \<Rightarrow>
          (let v = (if negative then - int (number base digits) else int (number base digits)) in
           if v < - (2 ^ 31) \<or> 2 ^ 31 \<le> v then Inl (Throw Out_of_range) else Inr (v, used)))"

section \<open>Positions\<close>

definition npos :: nat where "npos = 2 ^ 64 - 1"

text \<open>\<open>s.find(c, from)\<close> and \<open>s.substr(pos, len)\<close> on unsigned values.\<close>

definition find_char :: "char \<Rightarrow> string \<Rightarrow> nat \<Rightarrow> nat" where
  "find_char c s from_pos =
     (case find_pos (\<lambda>x. x = c) (drop from_pos s) of Some i \<Rightarrow> from_pos + i | None \<Rightarrow> npos)"

definition size_add :: "nat \<Rightarrow> nat \<Rightarrow> nat" where
  "size_add a b = (a + b) mod 2 ^ 64"

definition size_sub :: "nat \<Rightarrow> nat \<Rightarrow> nat" where
  "size_sub a b = (a + (2 ^ 64 - b)) mod 2 ^ 64"

section \<open>Lemmas\<close>

lemma size_sub_le: "b \<le> a \<Longrightarrow> a < 2 ^ 64 \<Longrightarrow> size_sub a b = a - b"
proof -
  assume "b \<le> a" and a: "a < 2 ^ 64"
  then have "a + (2 ^ 64 - b) = (a - b) + 2 ^ 64" by simp
  then have "size_sub a b = ((a - b) + 2 ^ 64) mod 2 ^ 64" by (simp only: size_sub_def)
  also have "\<dots> = a - b" using a by (subst mod_add_self2) (rule mod_less, simp)
  finally show ?thesis .
qed

lemma size_add_less: "a + b < 2 ^ 64 \<Longrightarrow> size_add a b = a + b"
  by (simp add: size_add_def)

definition hex_digit :: "nat \<Rightarrow> char" where
  "hex_digit n = ''0123456789abcdef'' ! n"

lemma below_16: "k < 16 \<Longrightarrow> k \<in> set [0, 1, 2, 3, 4, 5, 6, 7, 8, 9, 10, 11, 12, 13, 14, 15]" for k :: nat
  by (simp, arith)

lemma hex_digits:
  "list_all (\<lambda>k. hex_value (hex_digit k) = Some k \<and> \<not> isspace (hex_digit k) \<and>
     hex_digit k \<noteq> CHR ''-'' \<and> hex_digit k \<noteq> CHR ''+'')
   [0, 1, 2, 3, 4, 5, 6, 7, 8, 9, 10, 11, 12, 13, 14, 15]"
  by (simp add: hex_digit_def hex_value_def isspace_def)

lemma hex_digit_simps:
  assumes "k < 16"
  shows "hex_value (hex_digit k) = Some k" "\<not> isspace (hex_digit k)"
    "hex_digit k \<noteq> CHR ''-''" "hex_digit k \<noteq> CHR ''+''"
  using hex_digits below_16 [OF assms] by (simp_all only: list_all_iff) metis+

lemma strto_hex_pair:
  assumes "j < 16" and "k < 16"
  shows "strto 16 [hex_digit j, hex_digit k] = Some (False, [hex_digit j, hex_digit k], 2)"
    and "number 16 [hex_digit j, hex_digit k] = 16 * j + k"
proof -
  note h = hex_digit_simps [OF assms(1)] hex_digit_simps [OF assms(2)]
  show "strto 16 [hex_digit j, hex_digit k] = Some (False, [hex_digit j, hex_digit k], 2)"
    using h assms by (simp add: strto_def skip_prefix_def is_digit_def digit_value_def Let_def)
  show "number 16 [hex_digit j, hex_digit k] = 16 * j + k"
    using h assms by (simp add: number_def digit_value_def)
qed

lemma hex_byte:
  "of_char c div 16 < (16 :: nat)" "of_char c mod 16 < (16 :: nat)"
  "16 * (of_char c div 16) + of_char c mod 16 = (of_char c :: nat)"
  by (rule less_mult_imp_div_less) simp_all

lemma stoull_hex_byte:
  "stoull 16 [hex_digit (of_char c div 16), hex_digit (of_char c mod 16)] = Inr (of_nat (of_char c))"
proof -
  have "(of_char c :: nat) < 256" by simp
  then have "(of_char c :: nat) < 2 ^ 64" by (rule less_trans) simp
  then show ?thesis
    using strto_hex_pair [OF hex_byte(1,2), of c c] by (simp add: stoull_def hex_byte(3) not_le)
qed

lemma stoi_hex_byte:
  "stoi 16 [hex_digit (of_char c div 16), hex_digit (of_char c mod 16)] = Inr (int (of_char c), 2)"
proof -
  have "(of_char c :: nat) < 256" by simp
  then have "(of_char c :: nat) < 2 ^ 31" by (rule less_trans) simp
  then have "int (of_char c) < 2 ^ 31" by (metis of_nat_less_iff of_nat_numeral of_nat_power)
  then show ?thesis
    using strto_hex_pair [OF hex_byte(1,2), of c c] by (simp add: stoi_def hex_byte(3) Let_def)
qed

lemma find_char_hit: "c \<notin> set p \<Longrightarrow> find_char c (q @ p @ c # s) (length q) = length q + length p"
proof -
  assume "c \<notin> set p"
  then have "find_pos (\<lambda>x. x = c) (p @ c # s) = Some (length p)"
    by (intro find_pos_append_hit) auto
  then show ?thesis by (simp add: find_char_def)
qed

lemma find_char_hit0: "c \<notin> set p \<Longrightarrow> find_char c (p @ c # s) 0 = length p"
  using find_char_hit [of c p "[]" s] by simp

section \<open>Decimal numbers\<close>

text \<open>\<open>std::to_string\<close> of an unsigned value.\<close>

fun to_string :: "nat \<Rightarrow> string" where
  "to_string n = (if n < 10 then [hex_digit n] else to_string (n div 10) @ [hex_digit (n mod 10)])"

declare to_string.simps [simp del]


end
