(* ===== verification/Services.thy ===== *)
theory Services
  imports Auth Protocol Cxx_Numbers
begin

text \<open>
  \<open>src/server/services.cpp\<close>: the service manager of the machine, what the server tells
  about its services, and the control of one service.  The D-Bus connection, the functions of
  OpenRC and of the Windows service manager are arguments, gathered in a record per back end; the
  numeric constants of the Windows headers are a record too.
\<close>

section \<open>The service manager\<close>

datatype service_manager = Unknown_manager | Systemd | Openrc

text \<open>The static variable of \<open>get_service_manager\<close>: its initialiser runs once, and again
  on the next call when it threw.  \<open>names\<close> is the answer of \<open>ListNames\<close>.\<close>

definition detect_manager :: "bool \<Rightarrow> string list outcome \<Rightarrow> service_manager outcome" where
  "detect_manager rc_loaded names =
     (if rc_loaded then Inr Openrc
      else bind names (\<lambda>dbus_services.
        Inr (if ''org.freedesktop.systemd1'' \<in> set dbus_services then Systemd else Unknown_manager)))"

definition get_service_manager ::
  "bool \<Rightarrow> string list outcome \<Rightarrow> (service_manager option, service_manager) cmd" where
  "get_service_manager rc_loaded names static =
     (case static of
        Some m \<Rightarrow> (Inr m, static)
      | None \<Rightarrow>
          (case detect_manager rc_loaded names of
             Inl e \<Rightarrow> (Inl e, None)
           | Inr m \<Rightarrow> (Inr m, Some m)))"

section \<open>Info::Service\<close>

definition info_service_linux :: "service_manager \<Rightarrow> msg_serviceinfo expected" where
  "info_service_linux m =
     (case m of
        Systemd \<Rightarrow>
          Inr \<lparr>si_server = ''systemd'',
            si_types = [''All'', ''Service'', ''Socket'', ''Device'', ''Mount'', ''Automount'', ''Swap'',
              ''Target'', ''Path'', ''Timer'', ''Snapshot'', ''Slice'', ''Scope'']\<rparr>
      | Openrc \<Rightarrow> Inr \<lparr>si_server = ''openrc'', si_types = [''All'', ''Service'']\<rparr>
      | Unknown_manager \<Rightarrow> Inl NotImplemented)"

definition info_service_windows :: "msg_serviceinfo expected" where
  "info_service_windows =
     Inr \<lparr>si_server = ''Service Manager'',
       si_types = [''All'', ''Process'', ''Kernel Driver'', ''File System Driver'', ''Adapter'',
         ''Recongizer Driver'']\<rparr>"

section \<open>Unit names\<close>

text \<open>The loop that replaces \<open>\xHH\<close>, from index \<open>a\<close> on a string that is not
  empty: \<open>insert\<close> puts the letter before the backslash and \<open>erase\<close> removes up to
  four characters after it.\<close>

function unescape_loop :: "nat \<Rightarrow> string \<Rightarrow> string outcome" where
  "unescape_loop a s =
     (if a < length s - 1 then
        (if s ! a = CHR 0x5C \<and> s ! Suc a = CHR ''x'' then
           bind (substr s (a + 2) 2) (\<lambda>value.
           bind (stoull 16 value) (\<lambda>n.
             unescape_loop (Suc a) (take a s @ char_of (unat n) # drop (a + 4) s)))
         else unescape_loop (Suc a) s)
      else Inr s)"
  by pat_completeness auto
termination
  by (relation "measure (\<lambda>(a, s). length s - a)") auto

declare unescape_loop.simps [simp del]

text \<open>The bound \<open>size() - 1\<close> wraps for an empty string, and the loop reads past its
  end.\<close>

definition unescape :: "string \<Rightarrow> string outcome" where
  "unescape s = (if s = [] then Inl UB else unescape_loop 0 s)"

text \<open>\<open>std::toupper\<close> in the C locale.\<close>

definition toupper :: "char \<Rightarrow> char" where
  "toupper c =
     (let n = of_char c :: nat in if 97 \<le> n \<and> n \<le> 122 then char_of (n - 32) else c)"

text \<open>\<open>s.substr(s.find_last_of(c) + 1)\<close>: all of it without the character.\<close>

definition after_last :: "char \<Rightarrow> string \<Rightarrow> string" where
  "after_last c s = rev (takeWhile (\<lambda>x. x \<noteq> c) (rev s))"

definition unit_type :: "string \<Rightarrow> string" where
  "unit_type ident =
     (case after_last (CHR ''.'') ident of [] \<Rightarrow> [] | c # cs \<Rightarrow> toupper c # cs)"

section \<open>Info::Services: systemd\<close>

text \<open>What the loops use of the bus: id, description and path of every unit, the unit files, and
  the properties of a unit.\<close>

record systemd_bus =
  list_units :: "(string \<times> string \<times> string) list outcome"
  list_unit_files :: "string list outcome"
  load_unit :: "string \<Rightarrow> string outcome"
  unit_property :: "string \<Rightarrow> string \<Rightarrow> string outcome"

text \<open>\<open>emplace_back()\<close> value-initialises: no state is \<open>Stopped\<close>.\<close>

definition unit_state :: "string \<Rightarrow> service_state" where
  "unit_state active_state =
     (if active_state = ''active'' then Running
      else if active_state = ''activating'' then Starting
      else if active_state = ''deactivating'' then Stopping
      else Stopped)"

definition unit_enabled :: "string \<Rightarrow> bool" where
  "unit_enabled enabled_state \<longleftrightarrow> enabled_state = ''enabled'' \<or> enabled_state = ''static''"

definition unit_info :: "systemd_bus \<Rightarrow> string \<Rightarrow> string \<Rightarrow> string \<Rightarrow> msg_service outcome" where
  "unit_info bus path raw_id raw_description =
     bind (unescape raw_id) (\<lambda>ident.
     bind (unescape raw_description) (\<lambda>description.
     bind (unit_property bus path ''UnitFileState'') (\<lambda>enabled_state.
     bind (unit_property bus path ''ActiveState'') (\<lambda>active_state.
     Inr \<lparr>svc_id = ident, svc_state = unit_state active_state, svc_enabled = unit_enabled enabled_state,
          svc_type = unit_type ident, svc_display_name = ident, svc_description = description\<rparr>))))"

text \<open>The loop over the loaded units: the services and the set of their files.\<close>

definition loaded_step ::
  "systemd_bus \<Rightarrow> msg_service list \<times> string set \<Rightarrow> string \<times> string \<times> string \<Rightarrow>
   (msg_service list \<times> string set) outcome" where
  "loaded_step bus st unit =
     (case st of (services, files) \<Rightarrow>
      (case unit of (ident, description, path) \<Rightarrow>
        bind (unit_property bus path ''FragmentPath'') (\<lambda>file.
        bind (unit_info bus path ident description) (\<lambda>info.
        Inr (services @ [info], if file = [] then files else insert file files)))))"

text \<open>The loop over the unit files that are not loaded; templates are skipped.\<close>

definition unloaded_step ::
  "systemd_bus \<Rightarrow> string set \<Rightarrow> msg_service list \<Rightarrow> string \<Rightarrow> msg_service list outcome" where
  "unloaded_step bus files services file =
     (if file \<in> files then Inr services
      else if CHR ''@'' \<in> set file then Inr services
      else
        (let ident = after_last (CHR ''/'') file in
         bind (load_unit bus ident) (\<lambda>path.
         bind (unit_property bus path ''Description'') (\<lambda>description.
         bind (unit_info bus path ident description) (\<lambda>info.
         Inr (services @ [info]))))))"

definition catch_dbus :: "'a outcome \<Rightarrow> 'a outcome" where
  "catch_dbus m = (case m of Inl (Throw Dbus_error) \<Rightarrow> Inl (Throw Runtime_error) | _ \<Rightarrow> m)"

definition systemd_services :: "systemd_bus \<Rightarrow> msg_services outcome" where
  "systemd_services bus =
     catch_dbus
       (bind (list_units bus) (\<lambda>units.
        bind (foldM (loaded_step bus) ([], {}) units) (\<lambda>(loaded, files).
        bind (list_unit_files bus) (\<lambda>unloaded.
        bind (foldM (unloaded_step bus files) loaded unloaded) (\<lambda>services.
        Inr \<lparr>svcs_services = services\<rparr>)))))"

section \<open>Info::Services: OpenRC\<close>

record openrc_lib =
  rc_init_files :: "string list outcome"
  rc_runlevels :: "string list"
  rc_exists :: "string \<Rightarrow> bool"
  rc_description :: "string \<Rightarrow> string option"
  rc_in_runlevel :: "string \<Rightarrow> string \<Rightarrow> bool"
  rc_state :: "string \<Rightarrow> 32 word"

definition rc_started :: "32 word" where "rc_started = 0x0002"

definition rc_stopping :: "32 word" where "rc_stopping = 0x0004"

definition rc_starting :: "32 word" where "rc_starting = 0x0008"

definition openrc_state :: "32 word \<Rightarrow> service_state" where
  "openrc_state state =
     (let s = and state 0xFF in
      if s = rc_started then Running
      else if s = rc_starting then Starting
      else if s = rc_stopping then Stopping
      else Stopped)"

text \<open>A null description is assigned to a string.\<close>

definition openrc_info :: "openrc_lib \<Rightarrow> string \<Rightarrow> msg_service outcome" where
  "openrc_info rc ident =
     (case rc_description rc ident of
        None \<Rightarrow> Inl UB
      | Some desc \<Rightarrow>
          Inr \<lparr>svc_id = ident, svc_state = openrc_state (rc_state rc ident),
               svc_enabled = list_ex (rc_in_runlevel rc ident) (rc_runlevels rc),
               svc_type = ''Service'', svc_display_name = ident, svc_description = desc\<rparr>)"

definition openrc_services :: "openrc_lib \<Rightarrow> msg_services outcome" where
  "openrc_services rc =
     bind (rc_init_files rc) (\<lambda>ids.
     bind (mapM (openrc_info rc) (filter (rc_exists rc) ids)) (\<lambda>services.
     Inr \<lparr>svcs_services = services\<rparr>))"

text \<open>\<open>type\<close> is computed from the request and not used by the Linux branches.\<close>

definition requested_type :: "msg_servicesrequest \<Rightarrow> string" where
  "requested_type data = (if sr_type data \<noteq> [] then sr_type data else ''All'')"

definition info_services_linux ::
  "service_manager \<Rightarrow> systemd_bus \<Rightarrow> openrc_lib \<Rightarrow> msg_servicesrequest \<Rightarrow> msg_services expected outcome" where
  "info_services_linux m bus rc data =
     (let type = requested_type data in
      case m of
        Systemd \<Rightarrow> bind (systemd_services bus) (\<lambda>s. Inr (Inr s))
      | Openrc \<Rightarrow> bind (openrc_services rc) (\<lambda>s. Inr (Inr s))
      | Unknown_manager \<Rightarrow> Inr (Inl NotImplemented))"

section \<open>Info::Services: Windows\<close>

text \<open>The constants of the Windows headers, and what the loop reads of one entry and its
  configuration.\<close>

record win_consts =
  service_type_all :: "32 word"
  service_win32 :: "32 word"
  service_kernel_driver :: "32 word"
  service_file_system_driver :: "32 word"
  service_adapter :: "32 word"
  service_recognizer_driver :: "32 word"
  service_start_pending :: "32 word"
  service_running :: "32 word"
  service_stop_pending :: "32 word"
  service_auto_start :: "32 word"
  service_boot_start :: "32 word"
  service_system_start :: "32 word"

record win_entry =
  we_name :: string
  we_display :: string
  we_state :: "32 word"
  we_type :: "32 word"
  we_description :: "string option"
  we_start_type :: "32 word"

definition win_types_to_get :: "win_consts \<Rightarrow> string \<Rightarrow> 32 word option" where
  "win_types_to_get k type =
     (if type = ''All'' then Some (service_type_all k)
      else if type = ''Process'' then Some (service_win32 k)
      else if type = ''Kernel Driver'' then Some (service_kernel_driver k)
      else if type = ''File System Driver'' then Some (service_file_system_driver k)
      else if type = ''Adapter'' then Some (service_adapter k)
      else if type = ''Recongizer Driver'' then Some (service_recognizer_driver k)
      else None)"

definition win_service_state :: "win_consts \<Rightarrow> 32 word \<Rightarrow> service_state" where
  "win_service_state k state =
     (if state = service_start_pending k then Starting
      else if state = service_running k then Running
      else if state = service_stop_pending k then Stopping
      else Stopped)"

definition win_service_type :: "win_consts \<Rightarrow> 32 word \<Rightarrow> string" where
  "win_service_type k type =
     (if and type (service_win32 k) \<noteq> 0 then ''Process''
      else if and type (service_kernel_driver k) \<noteq> 0 then ''Kernel Driver''
      else if and type (service_file_system_driver k) \<noteq> 0 then ''File System Driver''
      else if and type (service_adapter k) \<noteq> 0 then ''Adapter''
      else if and type (service_recognizer_driver k) \<noteq> 0 then ''Recongizer Driver''
      else [])"

definition win_service_info :: "win_consts \<Rightarrow> win_entry \<Rightarrow> msg_service" where
  "win_service_info k e =
     \<lparr>svc_id = we_name e, svc_state = win_service_state k (we_state e),
      svc_enabled = (we_start_type e \<in> {service_auto_start k, service_boot_start k, service_system_start k}),
      svc_type = win_service_type k (we_type e), svc_display_name = we_display e,
      svc_description = (case we_description e of None \<Rightarrow> [] | Some d \<Rightarrow> d)\<rparr>"

text \<open>\<open>enum_status\<close> is \<open>EnumServicesStatusExA\<close> for a mask of types.\<close>

definition info_services_windows ::
  "win_consts \<Rightarrow> (32 word \<Rightarrow> win_entry list) \<Rightarrow> msg_servicesrequest \<Rightarrow> msg_services expected" where
  "info_services_windows k enum_status data =
     (case win_types_to_get k (requested_type data) of
        None \<Rightarrow> Inl Failed
      | Some types \<Rightarrow> Inr \<lparr>svcs_services = map (win_service_info k) (enum_status types)\<rparr>)"

section \<open>Control::Service\<close>

text \<open>The calls on a unit and on the manager, and the OpenRC functions with \<open>exec\<close>.\<close>

record 'w unit_calls =
  uc_load :: "string \<Rightarrow> ('w, string) cmd"
  uc_call :: "string \<Rightarrow> string \<Rightarrow> ('w, unit) cmd"
  uc_property :: "string \<Rightarrow> string \<Rightarrow> ('w, string) cmd"
  uc_enable_files :: "string \<Rightarrow> ('w, unit) cmd"
  uc_disable_files :: "string \<Rightarrow> ('w, unit) cmd"

record 'w openrc_calls =
  ro_resolve :: "string \<Rightarrow> string option"
  ro_exec :: "string \<Rightarrow> ('w, int \<times> string) cmd"
  ro_add :: "string \<Rightarrow> string \<Rightarrow> ('w, bool) cmd"
  ro_runlevels :: "string list"
  ro_in_runlevel :: "string \<Rightarrow> string \<Rightarrow> ('w, bool) cmd"
  ro_delete :: "string \<Rightarrow> string \<Rightarrow> ('w, bool) cmd"

definition succeed :: "('w, unit expected) cmd" where
  "succeed = cret (Inr ())"

definition fail_with :: "errors \<Rightarrow> ('w, unit expected) cmd" where
  "fail_with e = cret (Inl e)"

definition catch_dbus_cmd :: "('w, 'a) cmd \<Rightarrow> ('w, 'a) cmd" where
  "catch_dbus_cmd c w = (case c w of (m, w') \<Rightarrow> (catch_dbus m, w'))"

definition control_systemd :: "'w unit_calls \<Rightarrow> msg_control \<Rightarrow> ('w, unit expected) cmd" where
  "control_systemd uc data =
     catch_dbus_cmd
       (cbind (uc_load uc (ctl_id data)) (\<lambda>unit_path.
        let on_unit = (\<lambda>method. cbind (uc_call uc unit_path method) (\<lambda>_. succeed));
            on_files = (\<lambda>change. cbind (uc_property uc unit_path ''FragmentPath'') (\<lambda>path.
              if path = [] then fail_with Failed else cbind (change (ctl_id data)) (\<lambda>_. succeed)))
        in case ctl_action data of
             Stop \<Rightarrow> on_unit ''Stop''
           | Start \<Rightarrow> on_unit ''Start''
           | Restart \<Rightarrow> on_unit ''Restart''
           | Enable \<Rightarrow> on_files (uc_enable_files uc)
           | Disable \<Rightarrow> on_files (uc_disable_files uc)
           | Unnamed_action _ \<Rightarrow> fail_with NotImplemented))"

text \<open>\<open>exec(path + verb)\<close> and its exit code.\<close>

definition run_script :: "'w openrc_calls \<Rightarrow> string \<Rightarrow> ('w, unit expected) cmd" where
  "run_script ro command =
     cbind (ro_exec ro command) (\<lambda>(code, std_out). if code \<noteq> 0 then fail_with Failed else succeed)"

definition control_openrc :: "'w openrc_calls \<Rightarrow> msg_control \<Rightarrow> ('w, unit expected) cmd" where
  "control_openrc ro data =
     (case ro_resolve ro (ctl_id data) of
        None \<Rightarrow> cfail UB
      | Some path \<Rightarrow>
          (case ctl_action data of
             Stop \<Rightarrow> run_script ro (path @ '' stop'')
           | Start \<Rightarrow> run_script ro (path @ '' start'')
           | Restart \<Rightarrow> run_script ro (path @ '' restart'')
           | Enable \<Rightarrow>
               cbind (ro_add ro ''default'' (ctl_id data)) (\<lambda>ok. if \<not> ok then fail_with Failed else succeed)
           | Disable \<Rightarrow>
               cbind (cfor (\<lambda>level. cbind (ro_in_runlevel ro (ctl_id data) level) (\<lambda>there.
                   if there then cbind (ro_delete ro level (ctl_id data)) (\<lambda>_. cret ()) else cret ()))
                 (ro_runlevels ro)) (\<lambda>_. succeed)
           | Unnamed_action _ \<Rightarrow> fail_with NotImplemented))"

definition control_service_linux ::
  "string outcome \<Rightarrow> service_manager outcome \<Rightarrow> 'w unit_calls \<Rightarrow> 'w openrc_calls \<Rightarrow>
   fields \<Rightarrow> msg_control \<Rightarrow> ('w, unit expected) cmd" where
  "control_service_linux config manager uc ro flds data =
     (case fld_authentication flds of
        None \<Rightarrow> fail_with NeedsPassword
      | Some auth \<Rightarrow>
          cbind (clift (authenticate config auth)) (\<lambda>ok.
          if \<not> ok then fail_with NeedsPassword
          else
            cbind (clift manager) (\<lambda>m.
              case m of
                Systemd \<Rightarrow> control_systemd uc data
              | Openrc \<Rightarrow> control_openrc ro data
              | Unknown_manager \<Rightarrow> fail_with NotImplemented)))"

text \<open>The Windows branch: the calls return nonzero on success, and the code takes nonzero for a
  failure.\<close>

record 'w win_calls =
  wc_stop :: "('w, int) cmd"
  wc_start :: "('w, int) cmd"
  wc_auto_start :: "('w, int) cmd"
  wc_demand_start :: "('w, int) cmd"

definition win_check :: "('w, int) cmd \<Rightarrow> ('w, unit expected) cmd \<Rightarrow> ('w, unit expected) cmd" where
  "win_check call rest = cbind call (\<lambda>r. if r \<noteq> 0 then fail_with Failed else rest)"

definition control_windows ::
  "string outcome \<Rightarrow> 'w win_calls \<Rightarrow> fields \<Rightarrow> msg_control \<Rightarrow> ('w, unit expected) cmd" where
  "control_windows config wc flds data =
     (case fld_authentication flds of
        None \<Rightarrow> fail_with NeedsPassword
      | Some auth \<Rightarrow>
          cbind (clift (authenticate config auth)) (\<lambda>ok.
          if \<not> ok then fail_with NeedsPassword
          else
            (case ctl_action data of
               Stop \<Rightarrow> win_check (wc_stop wc) succeed
             | Start \<Rightarrow> win_check (wc_start wc) succeed
             | Restart \<Rightarrow> win_check (wc_stop wc) (win_check (wc_start wc) succeed)
             | Enable \<Rightarrow> win_check (wc_auto_start wc) succeed
             | Disable \<Rightarrow> win_check (wc_demand_start wc) succeed
             | Unnamed_action _ \<Rightarrow> succeed)))"

section \<open>Escaped names\<close>

text \<open>How systemd writes a name: the special characters, the backslash among them, as
  \<open>\xHH\<close>.\<close>

definition escape_char :: "(char \<Rightarrow> bool) \<Rightarrow> char \<Rightarrow> string" where
  "escape_char special c =
     (if special c then [CHR 0x5C, CHR ''x'', hex_digit (of_char c div 16), hex_digit (of_char c mod 16)]
      else [c])"

definition escape :: "(char \<Rightarrow> bool) \<Rightarrow> string \<Rightarrow> string" where
  "escape special s = concat (map (escape_char special) s)"

lemma unescape_letter:
  "unescape_loop (length p) (p @ CHR 0x5C # CHR ''x'' # hex_digit (of_char c div 16) # hex_digit (of_char c mod 16) # t)
   = unescape_loop (Suc (length p)) ((p @ [c]) @ t)"
proof -
  have n: "(of_char c :: nat) < 256" by simp
  have "of_char c mod 18446744073709551616 = (of_char c :: nat)"
    by (rule mod_less, rule less_trans [OF n]) simp
  then have "char_of (unat (of_nat (of_char c) :: 64 word)) = c"
    by (simp add: unat_of_nat)
  with stoull_hex_byte [of c] show ?thesis
    by (subst unescape_loop.simps) (simp add: nth_append substr_def)
qed

lemma unescape_plain:
  assumes "c \<noteq> CHR 0x5C"
  shows "unescape_loop (length p) (p @ c # t) =
    (if t = [] then Inr (p @ [c]) else unescape_loop (Suc (length p)) ((p @ [c]) @ t))"
  using assms by (subst unescape_loop.simps) (simp add: nth_append)

lemma unescape_loop_escape:
  "special (CHR 0x5C) \<Longrightarrow> unescape_loop (length p) (p @ escape special s) = Inr (p @ s)"
proof (induction s arbitrary: p)
  case Nil
  have "\<not> length p < length p - 1" by simp
  then show ?case by (simp add: escape_def unescape_loop.simps [of "length p"])
next
  case (Cons c s)
  from Cons.IH [of "p @ [c]"] Cons.prems
  have ih: "unescape_loop (Suc (length p)) ((p @ [c]) @ escape special s) = Inr (p @ c # s)" by simp
  show ?case
  proof (cases "special c")
    case True
    then show ?thesis
      using ih unescape_letter [of p c "escape special s"] by (simp add: escape_def escape_char_def)
  next
    case False
    with Cons.prems have "c \<noteq> CHR 0x5C" by metis
    moreover have "escape special s = [] \<longleftrightarrow> s = []"
      by (cases s) (auto simp: escape_def escape_char_def)
    ultimately show ?thesis
      using ih False unescape_plain [of c p "escape special s"]
      by (auto simp: escape_def escape_char_def)
  qed
qed

lemma escape_nonempty: "s \<noteq> [] \<Longrightarrow> escape special s \<noteq> []"
  by (cases s) (auto simp: escape_def escape_char_def)

section \<open>The systemd listing\<close>

lemma loaded_step_Inr:
  "loaded_step bus (seen, files) (i, d, path) = Inr st \<longleftrightarrow>
   (\<exists>f info. unit_property bus path ''FragmentPath'' = Inr f \<and> unit_info bus path i d = Inr info \<and>
      st = (seen @ [info], if f = [] then files else insert f files))"
  by (auto simp: loaded_step_def outcome_simps)

lemma loaded_fold:
  "foldM (loaded_step bus) (seen, files) us = Inr (services, files') \<Longrightarrow>
   \<exists>infos. mapM (\<lambda>(i, d, path). unit_info bus path i d) us = Inr infos \<and> services = seen @ infos \<and>
     files' = files \<union>
       {f. f \<noteq> [] \<and> (\<exists>(i, d, path) \<in> set us. unit_property bus path ''FragmentPath'' = Inr f)}"
proof (induction us arbitrary: seen files)
  case Nil
  then show ?case by simp
next
  case (Cons u us)
  obtain i d path where u: "u = (i, d, path)" by (cases u)
  from Cons.prems obtain f info where f: "unit_property bus path ''FragmentPath'' = Inr f"
    and info: "unit_info bus path i d = Inr info"
    and rest: "foldM (loaded_step bus) (seen @ [info], if f = [] then files else insert f files) us
      = Inr (services, files')"
    by (auto simp: u bind_eq_Inr_iff loaded_step_Inr)
  from Cons.IH [OF rest] obtain infos where
    "mapM (\<lambda>(i, d, path). unit_info bus path i d) us = Inr infos" "services = (seen @ [info]) @ infos"
    "files' = (if f = [] then files else insert f files) \<union>
       {f. f \<noteq> [] \<and> (\<exists>(i, d, path) \<in> set us. unit_property bus path ''FragmentPath'' = Inr f)}"
    by blast
  then show ?case using f info by (auto simp: u)
qed

text \<open>The unit files that are listed: not loaded, and no template.\<close>

definition fresh_files :: "string set \<Rightarrow> string list \<Rightarrow> string list" where
  "fresh_files files fs = filter (\<lambda>f. f \<notin> files \<and> CHR ''@'' \<notin> set f) fs"

definition file_info :: "systemd_bus \<Rightarrow> string \<Rightarrow> msg_service outcome" where
  "file_info bus file =
     bind (load_unit bus (after_last (CHR ''/'') file)) (\<lambda>path.
     bind (unit_property bus path ''Description'') (\<lambda>description.
     unit_info bus path (after_last (CHR ''/'') file) description))"

lemma unloaded_step_eq:
  "unloaded_step bus files before f =
     (if f \<in> files \<or> CHR ''@'' \<in> set f then Inr before
      else bind (file_info bus f) (\<lambda>info. Inr (before @ [info])))"
  by (simp add: unloaded_step_def file_info_def Let_def bind_assoc)

lemma unloaded_fold:
  "foldM (unloaded_step bus files) before fs = Inr services \<Longrightarrow>
   \<exists>infos. mapM (file_info bus) (fresh_files files fs) = Inr infos \<and> services = before @ infos"
proof (induction fs arbitrary: before)
  case Nil
  then show ?case by (simp add: fresh_files_def)
next
  case (Cons f fs)
  show ?case
  proof (cases "f \<in> files \<or> CHR ''@'' \<in> set f")
    case True
    with Cons show ?thesis by (auto simp: unloaded_step_eq [of bus files before f] fresh_files_def)
  next
    case False
    with Cons.prems obtain info where info: "file_info bus f = Inr info"
      and rest: "foldM (unloaded_step bus files) (before @ [info]) fs = Inr services"
      by (auto simp: unloaded_step_eq [of bus files before f] bind_eq_Inr_iff)
    from Cons.IH [OF rest] info False show ?thesis by (auto simp: fresh_files_def)
  qed
qed

text \<open>A bus with one loaded unit, another unit file and a template.\<close>

definition sample_bus :: systemd_bus where
  "sample_bus =
     \<lparr>list_units = Inr [(''a.service'', ''A'', ''/u/a'')],
      list_unit_files = Inr [''/lib/a.service'', ''/lib/b.timer'', ''/lib/t@.service''],
      load_unit = \<lambda>u. Inr (''/u/'' @ u),
      unit_property = \<lambda>path p.
        Inr (if p = ''FragmentPath'' then (if path = ''/u/a'' then ''/lib/a.service'' else [])
             else if p = ''ActiveState'' then ''active'' else if p = ''Description'' then ''B'' else ''static'')\<rparr>"

section \<open>Properties\<close>

text \<open>Reading an escaped unit name gives back the name: the loop undoes systemd's
  \<open>\xHH\<close> escapes, one character for each, and leaves every other character alone.\<close>

theorem unescape_escape:
  assumes "special (CHR 0x5C)" and "s \<noteq> []"
  shows "unescape (escape special s) = Inr s"
  using unescape_loop_escape [of special "[]" s] assms escape_nonempty [of s special]
  by (simp add: unescape_def)

theorem unescape_escape_witness:
  "unescape (escape (\<lambda>c. c = CHR 0x5C \<or> c = CHR ''-'') ''dev-sda.device'') = Inr ''dev-sda.device''"
  by (rule unescape_escape) simp_all

text \<open>What the server lists under systemd: first every loaded unit in the order of the bus,
  then every unit file that is neither the file of a loaded unit nor a template, each once and in
  order; nothing else is listed and nothing is left out.\<close>

theorem systemd_services_spec:
  assumes "systemd_services bus = Inr listing" and "list_units bus = Inr us"
    and "list_unit_files bus = Inr fs"
  shows "\<exists>loaded unloaded.
    svcs_services listing = loaded @ unloaded \<and>
    mapM (\<lambda>(i, d, path). unit_info bus path i d) us = Inr loaded \<and>
    mapM (file_info bus)
      (fresh_files {f. f \<noteq> [] \<and> (\<exists>(i, d, path) \<in> set us. unit_property bus path ''FragmentPath'' = Inr f)} fs)
      = Inr unloaded"
proof -
  have c: "catch_dbus m = Inr x \<longleftrightarrow> m = Inr x" for m :: "msg_services outcome" and x
    by (auto simp: catch_dbus_def split: sum.splits fault.splits exn.splits)
  from assms obtain loaded files where
    l: "foldM (loaded_step bus) ([], {}) us = Inr (loaded, files)"
    and u: "foldM (unloaded_step bus files) loaded fs = Inr (svcs_services listing)"
    by (auto simp: systemd_services_def c bind_eq_Inr_iff)
  from loaded_fold [OF l] unloaded_fold [OF u] show ?thesis by auto
qed

theorem systemd_services_spec_witness:
  "\<exists>listing. systemd_services sample_bus = Inr listing \<and> length (svcs_services listing) = 2 \<and>
     (\<exists>loaded unloaded. svcs_services listing = loaded @ unloaded \<and>
        mapM (\<lambda>(i, d, path). unit_info sample_bus path i d) [(''a.service'', ''A'', ''/u/a'')] = Inr loaded)"
proof -
  let ?l = "\<lparr>svcs_services =
     [\<lparr>svc_id = ''a.service'', svc_state = Running, svc_enabled = True, svc_type = ''Service'',
        svc_display_name = ''a.service'', svc_description = ''A''\<rparr>,
      \<lparr>svc_id = ''b.timer'', svc_state = Running, svc_enabled = True, svc_type = ''Timer'',
        svc_display_name = ''b.timer'', svc_description = ''B''\<rparr>]\<rparr>"
  have l: "systemd_services sample_bus = Inr ?l" by code_simp
  have u: "list_units sample_bus = Inr [(''a.service'', ''A'', ''/u/a'')]"
    "list_unit_files sample_bus = Inr [''/lib/a.service'', ''/lib/b.timer'', ''/lib/t@.service'']"
    by (simp_all add: sample_bus_def)
  from systemd_services_spec [OF l u] have
    "\<exists>loaded unloaded. svcs_services ?l = loaded @ unloaded \<and>
        mapM (\<lambda>(i, d, path). unit_info sample_bus path i d) [(''a.service'', ''A'', ''/u/a'')] = Inr loaded"
    by blast
  with l show ?thesis by (intro exI [of _ ?l]) simp
qed

lemma control_refused:
  assumes "\<And>header. fld_authentication flds = Some header \<Longrightarrow> authenticate config header \<noteq> Inr True"
  shows "control_service_linux config manager uc ro flds data w =
    (case fld_authentication flds of
       None \<Rightarrow> (Inr (Inl NeedsPassword), w)
     | Some header \<Rightarrow>
         (case authenticate config header of
            Inl e \<Rightarrow> (Inl e, w) | Inr _ \<Rightarrow> (Inr (Inl NeedsPassword), w)))"
proof (cases "fld_authentication flds")
  case None
  then show ?thesis by (simp add: control_service_linux_def fail_with_def)
next
  case (Some header)
  show ?thesis
  proof (cases "authenticate config header")
    case (Inl e)
    with Some show ?thesis by (simp add: control_service_linux_def cbind_def)
  next
    case (Inr ok)
    with assms [OF Some] Some show ?thesis
      by (simp add: control_service_linux_def cbind_def fail_with_def)
  qed
qed

text \<open>A request to control a service reaches the service manager only with the password:
  without a header, or when the check of the header refuses it or fails, the machine is left as it
  was, and the answer is the demand for a password or the failure of the check.\<close>

theorem control_service_refuses:
  assumes "\<And>header. fld_authentication flds = Some header \<Longrightarrow> authenticate config header \<noteq> Inr True"
  shows "control_service_linux config manager uc ro flds data w =
    (case fld_authentication flds of
       None \<Rightarrow> (Inr (Inl NeedsPassword), w)
     | Some header \<Rightarrow>
         (case authenticate config header of
            Inl e \<Rightarrow> (Inl e, w) | Inr _ \<Rightarrow> (Inr (Inl NeedsPassword), w)))"
  by (rule control_refused) (rule assms)

theorem control_service_refuses_witness:
  "control_service_linux (Inr ''[admin]'') (Inr Systemd)
     \<lparr>uc_load = \<lambda>i. cret i, uc_call = \<lambda>p m w. (Inr (), Suc w), uc_property = \<lambda>p q. cret q,
      uc_enable_files = \<lambda>i w. (Inr (), Suc w), uc_disable_files = \<lambda>i w. (Inr (), Suc w)\<rparr>
     \<lparr>ro_resolve = Some, ro_exec = \<lambda>c w. (Inr (0, []), Suc w), ro_add = \<lambda>l i w. (Inr True, Suc w),
      ro_runlevels = [], ro_in_runlevel = \<lambda>l i. cret True, ro_delete = \<lambda>l i w. (Inr True, Suc w)\<rparr>
     \<lparr>fld_authentication = None\<rparr> \<lparr>ctl_id = ''sshd.service'', ctl_action = Stop\<rparr> 0
   = (Inr (Inl NeedsPassword), 0)"
  by (subst control_service_refuses) simp_all

text \<open>The Windows branch reports the opposite of what happened: a stop of a service answers
  success exactly when \<open>ControlService\<close> returned zero, its report of a failure.\<close>

theorem control_windows_stop:
  assumes "fld_authentication flds = Some header" and "authenticate config header = Inr True"
    and "ctl_action data = Stop" and "wc_stop wc w = (Inr r, w')"
  shows "control_windows config wc flds data w = (Inr (if r = 0 then Inr () else Inl Failed), w')"
  using assms
  by (simp add: control_windows_def win_check_def cbind_def fail_with_def succeed_def)

theorem control_windows_stop_witness:
  "control_windows (Inr (''[admin]'' @ CHR 0x0A # ''password=cat''))
     \<lparr>wc_stop = \<lambda>w. (Inr 1, Suc w), wc_start = \<lambda>w. (Inr 1, Suc w),
      wc_auto_start = \<lambda>w. (Inr 1, w), wc_demand_start = \<lambda>w. (Inr 1, w)\<rparr>
     \<lparr>fld_authentication = Some ''Basic YWRtaW46Y2F0''\<rparr> \<lparr>ctl_id = ''Spooler'', ctl_action = Stop\<rparr> (0 :: nat)
   = (Inr (Inl Failed), 1)"
proof -
  have a: "authenticate (Inr (''[admin]'' @ CHR 0x0A # ''password=cat'')) ''Basic YWRtaW46Y2F0'' = Inr True"
    by code_simp
  show ?thesis
    by (subst control_windows_stop [OF _ a, where r = 1 and w' = 1]) simp_all
qed

end
