(* ===== verification/Host_Info.thy ===== *)
theory Host_Info
  imports Auth Protocol Cxx_Numbers
begin

text \<open>
  What the server tells about its machine on Linux: \<open>src/server/system.cpp\<close> (names, icon,
  addresses, power), \<open>network.cpp\<close> (adapters and their counters) and
  \<open>updates.cpp\<close> (the package managers).  Files, the list of interface addresses and the
  processes that \<open>exec\<close> starts are arguments.
\<close>

section \<open>system.cpp: names\<close>

text \<open>\<open>front\<close> of an empty string is undefined; \<open>size() - 2\<close> of a string of one
  quote wraps, and \<open>substr\<close> clips it.\<close>

definition remove_quotes :: "string \<Rightarrow> string outcome" where
  "remove_quotes input =
     (if input = [] then Inl UB
      else if hd input = CHR 0x22 \<and> last input = CHR 0x22
      then substr input 1 (size_sub (length input) 2)
      else Inr input)"

definition starts_with :: "string \<Rightarrow> string \<Rightarrow> bool" where
  "starts_with key line \<longleftrightarrow> take (length key) line = key"

record os_release =
  os_name :: string
  os_id :: string
  os_pretty :: string
  os_version :: string

definition if_key :: "string \<Rightarrow> string \<Rightarrow> (string \<Rightarrow> 's \<Rightarrow> 's) \<Rightarrow> 's \<Rightarrow> 's outcome" where
  "if_key key line put s =
     (if starts_with key line
      then bind (substr_from line (length key)) (\<lambda>t. bind (remove_quotes t) (\<lambda>v. Inr (put v s)))
      else Inr s)"

definition os_release_line :: "os_release \<Rightarrow> string \<Rightarrow> os_release outcome" where
  "os_release_line r line =
     bind (if_key ''NAME='' line (\<lambda>v. os_name_update (\<lambda>_. v)) r) (\<lambda>r.
     bind (if_key ''VERSION='' line (\<lambda>v. os_version_update (\<lambda>_. v)) r) (\<lambda>r.
     bind (if_key ''ID='' line (\<lambda>v. os_id_update (\<lambda>_. v)) r) (\<lambda>r.
     if_key ''PRETTY_NAME='' line (\<lambda>v. os_pretty_update (\<lambda>_. v)) r)))"

text \<open>The loop \<open>while (file) getline\<close>: every line, and an empty one at the end.  A file
  that does not open has none.\<close>

definition getlines :: "string \<Rightarrow> string list" where
  "getlines content = split content (CHR 0x0A) 0"

definition os_release :: "string \<Rightarrow> os_release outcome" where
  "os_release content =
     foldM os_release_line \<lparr>os_name = [], os_id = [], os_pretty = [], os_version = []\<rparr> (getlines content)"

definition operating_system :: "os_release \<Rightarrow> string" where
  "operating_system r =
     (if os_pretty r = [] \<or> os_id r \<in> {''antergos'', ''linuxmint'', ''ubuntu''}
      then trim (os_name r @ '' '' @ os_version r)
      else os_pretty r)"

record machine_info =
  mi_icon :: string
  mi_hostname :: string

definition machine_info_line :: "machine_info \<Rightarrow> string \<Rightarrow> machine_info outcome" where
  "machine_info_line r line =
     bind (if_key ''ICON_NAME='' line (\<lambda>v. mi_icon_update (\<lambda>_. v)) r) (\<lambda>r.
     if_key ''PRETTY_HOSTNAME='' line (\<lambda>v. mi_hostname_update (\<lambda>_. v)) r)"

definition machine_info :: "string \<Rightarrow> string \<Rightarrow> machine_info outcome" where
  "machine_info nodename content =
     foldM machine_info_line \<lparr>mi_icon = ''unknown'', mi_hostname = nodename\<rparr> (getlines content)"

definition chassis_type_as_system_icon :: "int \<Rightarrow> string" where
  "chassis_type_as_system_icon a =
     (if a \<in> {0x01, 0x03, 0x04, 0x05, 0x06, 0x07, 0x0D, 0x10, 0x22, 0x23, 0x24} then ''computer''
      else if a \<in> {0x08, 0x09, 0x0A, 0x0C, 0x0E, 0x1F, 0x20} then ''computer-laptop''
      else if a \<in> {0x11, 0x12, 0x13, 0x14, 0x15, 0x16, 0x17, 0x1C, 0x1D} then ''network-server''
      else if a = 0x0B then ''phone''
      else if a = 0x1E then ''tablet''
      else if a \<in> {0x02, 0x0F, 0x18, 0x19, 0x1A, 0x1B, 0x21} then ''unknown''
      else [])"

section \<open>system.cpp: addresses\<close>

datatype family = AF_INET | AF_INET6 | AF_PACKET | AF_other

text \<open>An entry of \<open>getifaddrs\<close>; \<open>ifa_addr\<close> may be null.  \<open>ifa_text\<close> is
  what \<open>inet_ntop\<close> writes for it, \<open>ifa_hw\<close> the bytes of a packet address.\<close>

record ifaddr =
  ifa_name :: string
  ifa_family :: "family option"
  ifa_text :: string
  ifa_hw :: "8 word list"

text \<open>One of the two search loops: the first entry of the family whose name does not start with
  \<open>lo\<close>.\<close>

fun first_address :: "family \<Rightarrow> ifaddr list \<Rightarrow> ifaddr option outcome" where
  "first_address fam [] = Inr None"
| "first_address fam (a # as) =
     (if starts_with ''lo'' (ifa_name a) then first_address fam as
      else (case ifa_family a of
              None \<Rightarrow> Inl UB
            | Some f \<Rightarrow> if f = fam then Inr (Some a) else first_address fam as))"

definition hex_upper :: "8 word \<Rightarrow> string" where
  "hex_upper b = [''0123456789ABCDEF'' ! (unat b div 16), ''0123456789ABCDEF'' ! (unat b mod 16)]"

definition mac_text :: "8 word list \<Rightarrow> string" where
  "mac_text bs = join (CHR '':'') (map hex_upper (take 6 bs))"

fun hardware_address :: "string \<Rightarrow> ifaddr list \<Rightarrow> string outcome" where
  "hardware_address name [] = Inr []"
| "hardware_address name (a # as) =
     (if name = ifa_name a then
        (case ifa_family a of
           None \<Rightarrow> Inl UB
         | Some f \<Rightarrow> if f = AF_PACKET then Inr (mac_text (ifa_hw a)) else hardware_address name as)
      else hardware_address name as)"

definition addresses :: "ifaddr list \<Rightarrow> (string \<times> string) outcome" where
  "addresses as =
     bind (first_address AF_INET as) (\<lambda>v4.
     bind (case v4 of Some a \<Rightarrow> Inr (Some a) | None \<Rightarrow> first_address AF_INET6 as) (\<lambda>found.
     bind (hardware_address (case found of None \<Rightarrow> [] | Some a \<Rightarrow> ifa_name a) as) (\<lambda>mac.
     Inr (case found of None \<Rightarrow> [] | Some a \<Rightarrow> ifa_text a, mac))))"

section \<open>system.cpp: Info::System and power\<close>

record utsname =
  nodename :: string
  sysname :: string
  release :: string
  machine :: string

text \<open>The two files, empty when they do not open; the chassis file is None when it does not
  exist.\<close>

definition info_system ::
  "utsname \<Rightarrow> string \<Rightarrow> string \<Rightarrow> string outcome option \<Rightarrow> ifaddr list \<Rightarrow> msg_system expected outcome" where
  "info_system uname os_release_file machine_info_file chassis_file as =
     bind (os_release os_release_file) (\<lambda>os.
     bind (machine_info (nodename uname) machine_info_file) (\<lambda>mi.
     bind (if mi_icon mi = ''unknown'' then
             (case chassis_file of
                None \<Rightarrow> Inr (mi_icon mi)
              | Some content \<Rightarrow>
                  bind content (\<lambda>c. bind (stoi 10 c) (\<lambda>(n, used). Inr (chassis_type_as_system_icon n))))
           else Inr (mi_icon mi)) (\<lambda>icon.
     bind (addresses as) (\<lambda>(ip, mac).
     Inr (Inr \<lparr>sys_hostname = mi_hostname mi, sys_mac_address = mac, sys_ip_address = ip,
       sys_operating_system = operating_system os,
       sys_kernel = sysname uname @ '' '' @ release uname, sys_architecture = machine uname,
       sys_vm_platform = [], sys_icon = icon\<rparr>)))))"

definition power_command ::
  "string \<Rightarrow> string \<Rightarrow> (string \<Rightarrow> ('w, int \<times> string) cmd) \<Rightarrow> ('w, unit expected) cmd" where
  "power_command first_cmd second_cmd exec =
     cbind (exec first_cmd) (\<lambda>(exit1, out1).
       if exit1 \<noteq> 0 then
         cbind (exec second_cmd) (\<lambda>(exit2, out2).
           if exit2 \<noteq> 0 then cret (Inl Failed) else cret (Inr ()))
       else cret (Inr ()))"

text \<open>Neither operation looks at the fields of its request.\<close>

definition control_shutdown_linux ::
  "(string \<Rightarrow> ('w, int \<times> string) cmd) \<Rightarrow> fields \<Rightarrow> ('w, unit expected) cmd" where
  "control_shutdown_linux exec flds = power_command ''poweroff now'' ''shutdown now'' exec"

definition control_reboot_linux ::
  "(string \<Rightarrow> ('w, int \<times> string) cmd) \<Rightarrow> fields \<Rightarrow> ('w, unit expected) cmd" where
  "control_reboot_linux exec flds = power_command ''reboot now'' ''shutdown -r now'' exec"

section \<open>network.cpp\<close>

text \<open>\<open>net_files\<close> is the directory of adapters; \<open>net_read\<close> reads a file of one;
  \<open>net_ip\<close> is the address \<open>ioctl\<close> finds.\<close>

record net_env =
  net_files :: "string list outcome"
  net_has_type :: "string \<Rightarrow> bool"
  net_read :: "string \<Rightarrow> string \<Rightarrow> string outcome"
  net_ip :: "string \<Rightarrow> string"
  net_time :: "string \<Rightarrow> 64 word"

definition adapter_info :: "net_env \<Rightarrow> string \<Rightarrow> msg_adapter outcome" where
  "adapter_info env name =
     bind (net_read env name ''address'') (\<lambda>mac.
     bind (net_read env name ''operstate'') (\<lambda>state.
     bind (net_read env name ''statistics/rx_bytes'') (\<lambda>rx.
     bind (net_read env name ''statistics/tx_bytes'') (\<lambda>tx.
     bind (stoull 10 rx) (\<lambda>bytes_rx.
     bind (stoull 10 tx) (\<lambda>bytes_tx.
     bind (net_read env name ''mtu'') (\<lambda>mtu_text.
     bind (stoull 10 mtu_text) (\<lambda>mtu.
     bind (net_read env name ''speed'') (\<lambda>speed.
     bind (if speed \<noteq> [] \<and> speed \<noteq> ''-1'' then bind (stoull 10 speed) (\<lambda>s. Inr (s * 1000000)) else Inr 0)
       (\<lambda>link_speed.
     Inr \<lparr>ad_name = name, ad_state = (if state = ''up'' then Up else Down), ad_link_speed = link_speed,
       ad_mtu = mtu, ad_mac_address = mac,
       ad_ip_address = (if state = ''up'' then net_ip env name else []),
       ad_bytes_rx = bytes_rx, ad_bytes_tx = bytes_tx, ad_time = net_time env name\<rparr>))))))))))"

definition adapter_step :: "net_env \<Rightarrow> msg_adapter list \<Rightarrow> string \<Rightarrow> msg_adapter list outcome" where
  "adapter_step env adapters name =
     (if \<not> net_has_type env name then Inr adapters
      else bind (net_read env name ''type'') (\<lambda>type.
        if type = ''772'' then Inr adapters
        else bind (adapter_info env name) (\<lambda>a. Inr (adapters @ [a]))))"

definition info_adapters_linux :: "net_env \<Rightarrow> msg_adapters expected outcome" where
  "info_adapters_linux env =
     bind (net_files env) (\<lambda>names.
     bind (foldM (adapter_step env) [] names) (\<lambda>adapters.
     Inr (Inr \<lparr>ads_adapters = adapters\<rparr>)))"

section \<open>updates.cpp\<close>

definition new_update :: msg_update where
  "new_update = \<lparr>upd_source = [], upd_name = [], upd_old_version = [], upd_new_version = []\<rparr>"

text \<open>The decoders write to the update they are given and tell whether to keep it.  Positions are
  unsigned 64-bit values: without a space the position is \<open>npos\<close>, and \<open>npos + 1\<close> is
  zero.\<close>

definition pacman_decode :: "string \<Rightarrow> (msg_update \<times> bool) outcome" where
  "pacman_decode package =
     (let space1 = find_char (CHR '' '') package 0 in
      bind (substr package 0 (size_sub space1 0)) (\<lambda>name.
      let space2 = find_char (CHR '' '') package (size_add space1 1) in
      bind (substr package space1 (size_sub space2 space1)) (\<lambda>old.
      bind (substr_from package (size_add space2 4)) (\<lambda>new.
      Inr (new_update\<lparr>upd_name := name, upd_old_version := old, upd_new_version := new\<rparr>, True)))))"

definition apt_decode :: "string \<Rightarrow> (msg_update \<times> bool) outcome" where
  "apt_decode package =
     (let info = split package (CHR '' '') 0 in
      if length info \<noteq> 6 then Inr (new_update, False)
      else
        bind (substr (info ! 0) 0 (find_char (CHR ''/'') (info ! 0) 0)) (\<lambda>name.
        bind (substr (info ! 5) 0 (size_sub (length (info ! 5)) 1)) (\<lambda>old.
        Inr (new_update\<lparr>upd_name := name, upd_old_version := old, upd_new_version := info ! 1\<rparr>, True))))"

text \<open>The regular expression of \<open>apk_decode\<close>, \<open>(.*)-(\d.*?-r\d)\<close>, on a text
  without line terminators: the first group is as long as it can be and the second one as short.\<close>

definition is_decimal :: "char \<Rightarrow> bool" where
  "is_decimal c \<longleftrightarrow> CHR ''0'' = c \<or> c \<in> set ''123456789''"

fun release_end :: "string \<Rightarrow> nat option" where
  "release_end (a # b # c # s) =
     (if a = CHR ''-'' \<and> b = CHR ''r'' \<and> is_decimal c then Some 3
      else map_option Suc (release_end (b # c # s)))"
| "release_end _ = None"

definition version_at :: "string \<Rightarrow> nat \<Rightarrow> (string \<times> string) option" where
  "version_at s p =
     (case drop p s of
        m # d # rest \<Rightarrow>
          (if m = CHR ''-'' \<and> is_decimal d
           then map_option (\<lambda>n. (take p s, d # take n rest)) (release_end rest) else None)
      | _ \<Rightarrow> None)"

definition apk_match :: "string \<Rightarrow> (string \<times> string) option" where
  "apk_match s =
     (case find (\<lambda>m. m \<noteq> None) (map (version_at s) (rev [0..<length s])) of Some m \<Rightarrow> m | None \<Rightarrow> None)"

definition apk_decode :: "string \<Rightarrow> (msg_update \<times> bool) outcome" where
  "apk_decode package =
     (let info = split package (CHR ''='') 0 in
      if length info \<noteq> 2 then Inr (new_update, False)
      else
        (case apk_match (info ! 0) of
           None \<Rightarrow> Inr (new_update, False)
         | Some (name, version) \<Rightarrow>
             Inr (new_update\<lparr>upd_name := name, upd_old_version := version, upd_new_version := info ! 1\<rparr>, True)))"

definition decode_step ::
  "(string \<Rightarrow> (msg_update \<times> bool) outcome) \<Rightarrow> msg_update list \<Rightarrow> string \<Rightarrow> msg_update list outcome" where
  "decode_step dec updates package =
     (if package = [] then Inr updates
      else bind (dec package) (\<lambda>(u, keep). Inr (if keep then updates @ [u] else updates)))"

definition run_manager ::
  "(string \<Rightarrow> ('w, int \<times> string) cmd) \<Rightarrow> string \<Rightarrow> string \<Rightarrow> (string \<Rightarrow> (msg_update \<times> bool) outcome) \<Rightarrow>
   msg_update list \<Rightarrow> ('w, msg_update list) cmd" where
  "run_manager exec command flags dec updates =
     cbind (exec (command @ '' '' @ flags)) (\<lambda>(exit_code, std_out).
       if exit_code = 0 then clift (foldM (decode_step dec) updates (split std_out (CHR 0x0A) 0))
       else cret updates)"

definition info_updates_linux ::
  "(string \<Rightarrow> ('w, int \<times> string) cmd) \<Rightarrow> ('w, msg_updates expected) cmd" where
  "info_updates_linux exec =
     cbind (run_manager exec ''pacman'' ''-Qu'' pacman_decode []) (\<lambda>u1.
     cbind (run_manager exec ''apt'' ''list --upgradable'' apt_decode u1) (\<lambda>u2.
     cbind (run_manager exec ''apk'' (''version -v -l '' @ [CHR 0x27] @ ''<'' @ [CHR 0x27]) apk_decode u2) (\<lambda>u3.
     cret (Inr \<lparr>upds_updates = u3\<rparr>))))"

section \<open>Lemmas\<close>

lemma foldM_Inl_iff:
  assumes "\<And>s x e. f s x = Inl e \<longleftrightarrow> e = E \<and> bad x"
  shows "foldM f s xs = Inl e \<longleftrightarrow> e = E \<and> (\<exists>x \<in> set xs. bad x)"
proof (induction xs arbitrary: s)
  case Nil
  show ?case by simp
next
  case (Cons x xs)
  show ?case
  proof (cases "bad x")
    case True
    then have "f s x = Inl E" using assms by simp
    with True show ?thesis by auto
  next
    case False
    then obtain s' where "f s x = Inr s'" using assms [of s x] by (cases "f s x") auto
    with Cons False show ?thesis by simp
  qed
qed

lemma remove_quotes_Inl: "remove_quotes s = Inl e \<longleftrightarrow> e = UB \<and> s = []"
  by (cases s) (auto simp: remove_quotes_def substr_def)

lemma if_key_Inl: "if_key key line put s = Inl e \<longleftrightarrow> e = UB \<and> line = key"
proof (cases "starts_with key line")
  case True
  then have l: "length key \<le> length line" "line = key @ drop (length key) line"
    by (auto simp: starts_with_def min_def dest: arg_cong [where f = length] split: if_splits)
      (metis append_take_drop_id)
  then have "drop (length key) line = [] \<longleftrightarrow> line = key" by (metis append_Nil2 append_eq_conv_conj drop_all order_refl)
  with True l(1) show ?thesis
    by (simp add: if_key_def substr_from_def bind_eq_Inl_iff remove_quotes_Inl)
next
  case False
  then have "line \<noteq> key" by (auto simp: starts_with_def)
  with False show ?thesis by (simp add: if_key_def)
qed

lemma bind_if_key_Inl:
  "(\<And>s'. g s' = Inl e \<longleftrightarrow> e = UB \<and> Q) \<Longrightarrow>
   bind (if_key key line put s) g = Inl e \<longleftrightarrow> e = UB \<and> (line = key \<or> Q)"
proof -
  assume g: "\<And>s'. g s' = Inl e \<longleftrightarrow> e = UB \<and> Q"
  show ?thesis
  proof (cases "if_key key line put s")
    case (Inl e')
    with if_key_Inl [of key line put s e'] show ?thesis by auto
  next
    case (Inr s')
    then have "line \<noteq> key" using if_key_Inl [of key line put s UB] by auto
    with Inr g show ?thesis by simp
  qed
qed

lemma os_release_line_Inl:
  "os_release_line r line = Inl e \<longleftrightarrow>
   e = UB \<and> line \<in> {''NAME='', ''VERSION='', ''ID='', ''PRETTY_NAME=''}"
proof -
  have "os_release_line r line = Inl e \<longleftrightarrow>
      e = UB \<and> (line = ''NAME='' \<or> line = ''VERSION='' \<or> line = ''ID='' \<or> line = ''PRETTY_NAME='')"
    unfolding os_release_line_def by (intro bind_if_key_Inl if_key_Inl)
  then show ?thesis by simp
qed

lemma adapter_fold:
  "foldM (adapter_step env) seen names = Inr adapters \<Longrightarrow>
   \<exists>infos. adapters = seen @ infos \<and>
     mapM (adapter_info env)
       (filter (\<lambda>n. net_has_type env n \<and> net_read env n ''type'' \<noteq> Inr ''772'') names) = Inr infos"
proof (induction names arbitrary: seen)
  case Nil
  then show ?case by simp
next
  case (Cons n names)
  show ?case
  proof (cases "net_has_type env n \<and> net_read env n ''type'' \<noteq> Inr ''772''")
    case False
    then have "adapter_step env seen n = Inr seen" by (auto simp: adapter_step_def)
    with Cons False show ?thesis by auto
  next
    case True
    with Cons.prems obtain a where a: "adapter_info env n = Inr a"
      and rest: "foldM (adapter_step env) (seen @ [a]) names = Inr adapters"
      by (auto simp: adapter_step_def [of env seen n] bind_eq_Inr_iff split: if_splits)
    from Cons.IH [OF rest] a True show ?thesis by auto
  qed
qed

lemma find_char_second:
  "c \<notin> set p \<Longrightarrow> find_char c (q @ x # p @ c # s) (Suc (length q)) = Suc (length q + length p)"
  using find_char_hit [of c p "q @ [x]" s] by simp

lemma split_fields:
  "ps \<noteq> [] \<Longrightarrow> list_all (\<lambda>p. sep \<notin> set p) ps \<Longrightarrow> split (join sep ps) sep 0 = ps"
  by (rule split_join) (auto simp: list_all_iff)

section \<open>Properties\<close>

text \<open>Reading \<open>/etc/os-release\<close> fails exactly on a file with a line that is one of
  the four keys without a value, and then by undefined behaviour: \<open>remove_quotes\<close> looks at
  the first character of an empty string.\<close>

theorem os_release_Inl_iff:
  "os_release content = Inl e \<longleftrightarrow>
   e = UB \<and> set (getlines content) \<inter> {''NAME='', ''VERSION='', ''ID='', ''PRETTY_NAME=''} \<noteq> {}"
proof -
  have "os_release content = Inl e \<longleftrightarrow>
      e = UB \<and> (\<exists>l \<in> set (getlines content). l \<in> {''NAME='', ''VERSION='', ''ID='', ''PRETTY_NAME=''})"
    unfolding os_release_def by (rule foldM_Inl_iff) (rule os_release_line_Inl)
  also have "(\<exists>l \<in> set (getlines content). l \<in> {''NAME='', ''VERSION='', ''ID='', ''PRETTY_NAME=''}) \<longleftrightarrow>
      set (getlines content) \<inter> {''NAME='', ''VERSION='', ''ID='', ''PRETTY_NAME=''} \<noteq> {}"
    by (simp only: disjoint_iff_not_equal) blast
  finally show ?thesis .
qed

text \<open>The adapters the server lists are the ones of the directory that have a type file and
  are not loopback devices, each once and in order, with what their files say.\<close>

theorem info_adapters_spec:
  assumes "info_adapters_linux env = Inr (Inr listing)" and "net_files env = Inr names"
  shows "mapM (adapter_info env)
      (filter (\<lambda>n. net_has_type env n \<and> net_read env n ''type'' \<noteq> Inr ''772'') names)
    = Inr (ads_adapters listing)"
proof -
  from assms obtain adapters where "foldM (adapter_step env) [] names = Inr adapters"
    and "listing = \<lparr>ads_adapters = adapters\<rparr>"
    by (auto simp: info_adapters_linux_def bind_eq_Inr_iff)
  with adapter_fold [of env "[]" names adapters] show ?thesis by auto
qed

lemma adapter_info_name: "adapter_info env name = Inr d \<Longrightarrow> ad_name d = name"
  by (auto simp: adapter_info_def bind_eq_Inr_iff)

lemma mapM_adapter_info:
  "mapM (adapter_info env) names = Inr ds \<Longrightarrow>
   map ad_name ds = names \<and> (\<forall>d \<in> set ds. adapter_info env (ad_name d) = Inr d)"
proof (induction names arbitrary: ds)
  case (Cons name names)
  then obtain d ds' where d: "adapter_info env name = Inr d" "mapM (adapter_info env) names = Inr ds'" "ds = d # ds'"
    by (auto simp: bind_eq_Inr_iff)
  with Cons.IH [OF d(2)] adapter_info_name [OF d(1)] show ?case by simp
qed simp

definition sample_net :: net_env where
  "sample_net =
     \<lparr>net_files = Inr [''lo'', ''eth0''], net_has_type = \<lambda>n. True,
      net_read = \<lambda>n f.
        Inr (if f = ''type'' then (if n = ''lo'' then ''772'' else ''1'')
             else if f = ''operstate'' then ''up'' else if f = ''address'' then ''aa:bb'' else ''1000''),
      net_ip = \<lambda>n. ''10.0.0.1'', net_time = \<lambda>n. 7\<rparr>"

definition sample_card :: msg_adapter where
  "sample_card =
     \<lparr>ad_name = ''eth0'', ad_state = Up, ad_link_speed = 1000000000, ad_mtu = 1000,
      ad_mac_address = ''aa:bb'', ad_ip_address = ''10.0.0.1'', ad_bytes_rx = 1000, ad_bytes_tx = 1000,
      ad_time = 7\<rparr>"

lemma sample_net_listing:
  "info_adapters_linux sample_net = Inr (Inr \<lparr>ads_adapters = [sample_card]\<rparr>)"
  "net_files sample_net = Inr [''lo'', ''eth0'']"
proof -
  have d: "strto 10 ''1000'' = Some (False, ''1000'', 4)" "number 10 ''1000'' = 1000" by code_simp+
  then have s: "stoull 10 ''1000'' = Inr 1000" by (simp add: stoull_def)
  show "info_adapters_linux sample_net = Inr (Inr \<lparr>ads_adapters = [sample_card]\<rparr>)"
    by (simp add: info_adapters_linux_def sample_net_def adapter_step_def adapter_info_def s sample_card_def)
qed (simp add: sample_net_def)

theorem info_adapters_spec_witness:
  "mapM (adapter_info sample_net) [''eth0''] = Inr [sample_card]"
  using info_adapters_spec [OF sample_net_listing] by (simp add: sample_net_def)

text \<open>A line of \<open>pacman -Qu\<close> gives the name and the new version, and the old version
  with the space before it: the second field is taken from the position of the space, not from the
  one after it.\<close>

theorem pacman_decode_line:
  assumes "CHR '' '' \<notin> set name" and "CHR '' '' \<notin> set old"
    and "length name + length old + length new + 5 < 2 ^ 64"
  shows "pacman_decode (name @ '' '' @ old @ '' -> '' @ new) =
    Inr (\<lparr>upd_source = [], upd_name = name, upd_old_version = '' '' @ old, upd_new_version = new\<rparr>, True)"
proof -
  let ?p = "name @ '' '' @ old @ '' -> '' @ new"
  have s1: "find_char (CHR '' '') ?p 0 = length name"
    using find_char_hit0 [OF assms(1)] by simp
  have s2: "find_char (CHR '' '') ?p (Suc (length name)) = Suc (length name + length old)"
    using find_char_second [OF assms(2), of name "CHR '' ''" "''-> '' @ new"] by simp
  have a1: "size_add (length name) 1 = Suc (length name)"
    using assms(3) by (simp add: size_add_less)
  have a2: "size_sub (length name) 0 = length name"
    using assms(3) by (intro trans [OF size_sub_le]) simp_all
  have a3: "size_sub (Suc (length name + length old)) (length name) = Suc (length old)"
    using assms(3) by (intro trans [OF size_sub_le]) simp_all
  have a4: "size_add (Suc (length name + length old)) 4 = length name + length old + 5"
    using assms(3) by (simp add: size_add_less)
  have "?p = (name @ '' '' @ old @ '' -> '') @ new"
    and "length (name @ '' '' @ old @ '' -> '') = length name + length old + 5" by simp_all
  then have d: "drop (length name + length old + 5) ?p = new" by (metis append_eq_conv_conj)
  have b: "length name + length old + 5 \<le> length ?p" by simp
  show ?thesis
    unfolding pacman_decode_def Let_def s1 a1 a2 s2 a3 a4 substr_from_def d
    using b by (simp add: substr_def new_update_def)
qed

theorem pacman_decode_line_witness:
  "pacman_decode ''zlib 1.2 -> 1.3'' =
   Inr (\<lparr>upd_source = [], upd_name = ''zlib'', upd_old_version = '' 1.2'', upd_new_version = ''1.3''\<rparr>, True)"
  using pacman_decode_line [of "''zlib''" "''1.2''" "''1.3''"] by simp

text \<open>A line of \<open>apt list --upgradable\<close> gives the package without its repository, the
  installed version without the closing bracket, and the new version.\<close>

theorem apt_decode_line:
  assumes "CHR ''/'' \<notin> set name"
    and "list_all (\<lambda>p. CHR '' '' \<notin> set p) [name, repo, new, arch, old]"
    and "length name + length repo + length old + 2 < 2 ^ 64"
  shows "apt_decode (join (CHR '' '') [name @ ''/'' @ repo, new, arch, ''[upgradable'', ''from:'', old @ '']''])
    = Inr (\<lparr>upd_source = [], upd_name = name, upd_old_version = old, upd_new_version = new\<rparr>, True)"
proof -
  let ?fs = "[name @ ''/'' @ repo, new, arch, ''[upgradable'', ''from:'', old @ '']'']"
  have fields: "split (join (CHR '' '') ?fs) (CHR '' '') 0 = ?fs"
    by (rule split_fields) (use assms(2) in auto)
  have slash: "find_char (CHR ''/'') (name @ ''/'' @ repo) 0 = length name"
    using find_char_hit0 [OF assms(1), of repo] by simp
  have "size_sub (length (old @ '']'')) 1 = length old"
    using assms(3) by (intro trans [OF size_sub_le]) simp_all
  with slash show ?thesis
    unfolding apt_decode_def fields Let_def by (simp add: substr_def new_update_def)
qed

theorem apt_decode_line_witness:
  "apt_decode ''bash/stable 5.2 amd64 [upgradable from: 5.1]'' =
   Inr (\<lparr>upd_source = [], upd_name = ''bash'', upd_old_version = ''5.1'', upd_new_version = ''5.2''\<rparr>, True)"
  using apt_decode_line [of "''bash''" "''stable''" "''5.2''" "''amd64''" "''5.1''"] by simp

end
