(* ===== verification/Drives_Info.thy ===== *)
theory Drives_Info
  imports Auth Protocol Cxx_Numbers "HOL-Library.List_Lexorder" "HOL-Library.Char_ord" "HOL-Library.Multiset"
begin

text \<open>
  The Linux branch of \<open>Info::Drives\<close> (\<open>src/server/drives.cpp\<close>): the lines of
  \<open>lsblk\<close> become drives and partitions.  The map \<open>drives_\<close> holds pointers into the
  vector of drives, which a growth of the vector invalidates; a pointer is an index with the
  generation of the vector's storage it was taken in.  The growth of the storage, which the library
  chooses, and the process \<open>df\<close> are arguments.
\<close>

section \<open>State\<close>

record drives_state =
  ds_drives :: "msg_drive list"
  ds_capacity :: nat
  ds_generation :: nat
  ds_pointers :: "(string \<times> (nat \<times> nat)) list"
  ds_seen :: "string set"

definition drives_init :: drives_state where
  "drives_init =
     \<lparr>ds_drives = [], ds_capacity = 0, ds_generation = 0, ds_pointers = [], ds_seen = {}\<rparr>"

text \<open>\<open>emplace_back\<close>: a full storage is replaced by one of the size \<open>grow\<close> gives.\<close>

definition emplace_drive :: "(nat \<Rightarrow> nat) \<Rightarrow> msg_drive \<Rightarrow> drives_state \<Rightarrow> drives_state" where
  "emplace_drive grow d st =
     (if length (ds_drives st) < ds_capacity st then st\<lparr>ds_drives := ds_drives st @ [d]\<rparr>
      else st\<lparr>ds_drives := ds_drives st @ [d], ds_capacity := grow (ds_capacity st),
              ds_generation := Suc (ds_generation st)\<rparr>)"

section \<open>Lines\<close>

text \<open>The loop over \<open>\xHH\<close> in a field.  \<open>idx\<close> is the number of characters
  \<open>stoi\<close> read.\<close>

function decode_field_loop :: "nat \<Rightarrow> string \<Rightarrow> string outcome" where
  "decode_field_loop a s =
     (if a < length s then
        (if s ! a = CHR 0x5C \<and> Suc a < length s \<and> s ! Suc a = CHR ''x'' then
           bind (substr s (a + 2) 2) (\<lambda>number.
           bind (stoi 16 number) (\<lambda>(n, idx).
             if a + 2 + idx \<le> length s
             then decode_field_loop (Suc a) (take a s @ char_of (nat (n mod 256)) # drop (a + 2 + idx) s)
             else Inl (Throw Out_of_range)))
         else decode_field_loop (Suc a) s)
      else Inr s)"
  by pat_completeness auto
termination
  by (relation "measure (\<lambda>(a, s). length s - a)") auto

declare decode_field_loop.simps [simp del]

definition decode_field :: "string \<Rightarrow> string outcome" where
  "decode_field s = decode_field_loop 0 s"

text \<open>The fields of the second line of \<open>df\<close>: erasing an empty first one steps before the
  beginning of the vector.\<close>

definition df_fields :: "string \<Rightarrow> string list outcome" where
  "df_fields out =
     bind (vec_get (split out (CHR 0x0A) 0) 1) (\<lambda>line.
       let df = split line (CHR '' '') 0 in
       if hd df = [] then Inl UB else Inr (filter (\<lambda>s. s \<noteq> []) df))"

definition df_sizes :: "(string \<Rightarrow> (int \<times> string) outcome) \<Rightarrow> string \<Rightarrow> (string \<times> string) outcome" where
  "df_sizes exec name =
     bind (exec (''df -aB1 /dev/'' @ name)) (\<lambda>(code, out).
     bind (df_fields out) (\<lambda>df.
     bind (vec_get df 0) (\<lambda>dev.
       if dev = ''/dev/'' @ name then
         bind (vec_get df 1) (\<lambda>size. bind (vec_get df 4) (\<lambda>used. Inr (size, used)))
       else Inr ([], []))))"

definition is_decimal_digit :: "char \<Rightarrow> bool" where
  "is_decimal_digit c \<longleftrightarrow> c \<in> set ''1234567890''"

text \<open>\<open>info[0].substr(0, number)\<close>: the name before its first digit, all of it without
  one.\<close>

definition base_name :: "string \<Rightarrow> string" where
  "base_name name = takeWhile (\<lambda>c. \<not> is_decimal_digit c) name"

definition has_number :: "string \<Rightarrow> bool" where
  "has_number name \<longleftrightarrow> list_ex is_decimal_digit name"

definition add_drive :: "(nat \<Rightarrow> nat) \<Rightarrow> string list \<Rightarrow> drives_state \<Rightarrow> drives_state outcome" where
  "add_drive grow info st =
     bind (vec_get info 0) (\<lambda>name.
     bind (vec_get info 2) (\<lambda>raw.
     bind (decode_field raw) (\<lambda>model.
     bind (vec_get info 3) (\<lambda>size_text.
     bind (stoull 10 size_text) (\<lambda>size.
     let st' = emplace_drive grow \<lparr>drv_dev_node = name, drv_size = size, drv_model = model,
           drv_manufacturer = [], drv_interface = [], drv_partitions = []\<rparr> st
     in Inr (st'\<lparr>ds_pointers :=
          ds_pointers st' @ [(name, (length (ds_drives st), ds_generation st'))]\<rparr>))))))"

definition partition_of ::
  "(string \<Rightarrow> (int \<times> string) outcome) \<Rightarrow> string list \<Rightarrow> msg_partition outcome" where
  "partition_of exec info =
     bind (vec_get info 0) (\<lambda>name.
     bind (vec_get info 1) (\<lambda>raw.
     bind (decode_field raw) (\<lambda>mountpoint.
     bind (vec_get info 4) (\<lambda>filesystem.
     bind (if length info \<le> 5 then bind (df_sizes exec name) (\<lambda>(s, u). Inr (info @ [s, u])) else Inr info)
       (\<lambda>info'.
     bind (vec_get info' 5) (\<lambda>fssize.
     bind (if fssize \<noteq> [] then
             bind (stoull 10 fssize) (\<lambda>size.
             bind (vec_get info' 6) (\<lambda>used_text. bind (stoull 10 used_text) (\<lambda>used. Inr (size, used))))
           else bind (vec_get info' 3) (\<lambda>size_text. bind (stoull 10 size_text) (\<lambda>size. Inr (size, size))))
       (\<lambda>(size, used).
     Inr \<lparr>part_dev_node = name, part_size = size, part_used = used, part_mountpoint = mountpoint,
       part_filesystem = filesystem\<rparr>)))))))"

text \<open>\<open>drives_.at(key)->partitions.emplace_back()\<close>, then the fields.\<close>

definition add_partition ::
  "(string \<Rightarrow> (int \<times> string) outcome) \<Rightarrow> string \<Rightarrow> string list \<Rightarrow> drives_state \<Rightarrow> drives_state outcome" where
  "add_partition exec key info st =
     (case map_of (ds_pointers st) key of
        None \<Rightarrow> Inl (Throw Out_of_range)
      | Some (i, g) \<Rightarrow>
          if g \<noteq> ds_generation st then Inl UB
          else bind (partition_of exec info) (\<lambda>p.
            Inr (st\<lparr>ds_drives := (ds_drives st)[i := (ds_drives st ! i)
              \<lparr>drv_partitions := drv_partitions (ds_drives st ! i) @ [p]\<rparr>]\<rparr>)))"

definition drive_line ::
  "(nat \<Rightarrow> nat) \<Rightarrow> (string \<Rightarrow> (int \<times> string) outcome) \<Rightarrow> drives_state \<Rightarrow> string \<Rightarrow> drives_state outcome" where
  "drive_line grow exec st line =
     (if line = [] then Inr st
      else
        (let info = split line (CHR '' '') 0; name = info ! 0 in
         if name \<in> ds_seen st then Inr st
         else
           (let contains_base_drive = (base_name name \<in> ds_seen st) in
            bind (if contains_base_drive then Inr st else add_drive grow info st) (\<lambda>st1.
            bind (if has_number name
                  then add_partition exec (if contains_base_drive then base_name name else name) info st1
                  else Inr st1) (\<lambda>st2.
            Inr (st2\<lparr>ds_seen := insert name (ds_seen st2)\<rparr>))))))"

section \<open>Order\<close>

text \<open>The comparison of the drives by \<open>std::sort\<close>: \<open>substr(2)\<close> first, so that
  the kinds of drives (sd, sr, vd) mix.\<close>

definition drive_before :: "string \<Rightarrow> string \<Rightarrow> bool" where
  "drive_before a b = (let a2 = drop 2 a; b2 = drop 2 b in if a2 = b2 then b < a else a2 < b2)"

fun insert_by :: "('a \<Rightarrow> 'a \<Rightarrow> bool) \<Rightarrow> 'a \<Rightarrow> 'a list \<Rightarrow> 'a list" where
  "insert_by before x [] = [x]"
| "insert_by before x (y # ys) = (if before y x then y # insert_by before x ys else x # y # ys)"

definition sort_by :: "('a \<Rightarrow> 'a \<Rightarrow> bool) \<Rightarrow> 'a list \<Rightarrow> 'a list" where
  "sort_by before xs = foldr (insert_by before) xs []"

definition sort_partitions :: "msg_drive \<Rightarrow> msg_drive" where
  "sort_partitions d =
     d\<lparr>drv_partitions := sort_by (\<lambda>a b. part_dev_node a < part_dev_node b) (drv_partitions d)\<rparr>"

text \<open>With two drives or more every name is compared, and \<open>substr(2)\<close> throws on a name of
  fewer than two characters.\<close>

definition sort_drives :: "msg_drive list \<Rightarrow> msg_drive list outcome" where
  "sort_drives ds =
     (if 2 \<le> length ds \<and> list_ex (\<lambda>d. length (drv_dev_node d) < 2) ds
      then Inl (Throw Out_of_range)
      else Inr (sort_by (\<lambda>a b. drive_before (drv_dev_node a) (drv_dev_node b)) ds))"

section \<open>Info::Drives\<close>

definition lsblk_all :: string where
  "lsblk_all = ''lsblk -brn --output NAME,MOUNTPOINT,MODEL,SIZE,FSTYPE,FSSIZE,FSUSED''"

definition lsblk_old :: string where
  "lsblk_old = ''lsblk -brn --output NAME,MOUNTPOINT,MODEL,SIZE,FSTYPE''"

definition info_drives_linux ::
  "(nat \<Rightarrow> nat) \<Rightarrow> (string \<Rightarrow> (int \<times> string) outcome) \<Rightarrow> msg_drives expected outcome" where
  "info_drives_linux grow exec =
     bind (exec lsblk_all) (\<lambda>(code, out1).
     bind (if code \<noteq> 0 then bind (exec lsblk_old) (\<lambda>(c, out2). Inr out2) else Inr out1) (\<lambda>std_out.
     bind (foldM (drive_line grow exec) drives_init (split std_out (CHR 0x0A) 0)) (\<lambda>st.
     bind (sort_drives (ds_drives st)) (\<lambda>ds.
     Inr (Inr \<lparr>drvs_drives = map sort_partitions ds\<rparr>)))))"

section \<open>The order of the drives\<close>

lemma drive_before_irrefl: "\<not> drive_before a a"
  by (simp add: drive_before_def)

lemma drive_before_trans: "drive_before a b \<Longrightarrow> drive_before b c \<Longrightarrow> drive_before a c"
  by (auto simp: drive_before_def Let_def split: if_splits)

lemma drive_before_total: "a \<noteq> b \<Longrightarrow> drive_before a b \<or> drive_before b a"
  by (auto simp: drive_before_def Let_def)

lemma mset_insert_by: "mset (insert_by before x ys) = mset (x # ys)"
  by (induction ys) auto

lemma mset_sort_by: "mset (sort_by before xs) = mset xs"
  by (induction xs) (simp_all add: sort_by_def mset_insert_by)

lemma set_sort_by: "set (sort_by before xs) = set xs"
  using mset_sort_by [of before xs] by (rule mset_eq_setD)

lemma set_insert_by: "set (insert_by before x ys) = insert x (set ys)"
  using mset_insert_by [of before x ys] by (metis list.set(2) set_mset_mset)

lemma sorted_insert_by:
  assumes t: "\<And>a b c. before a b \<Longrightarrow> before b c \<Longrightarrow> before a c" and i: "\<And>a. \<not> before a a"
    and n: "\<And>a b c. \<not> before b a \<Longrightarrow> \<not> before c b \<Longrightarrow> \<not> before c a"
    and "sorted_wrt (\<lambda>a b. \<not> before b a) ys"
  shows "sorted_wrt (\<lambda>a b. \<not> before b a) (insert_by before x ys)"
  using assms(4)
proof (induction ys)
  case Nil
  show ?case by simp
next
  case (Cons y ys)
  show ?case
  proof (cases "before y x")
    case True
    then have "\<not> before x y" using t i by blast
    with Cons True show ?thesis by (auto simp: set_insert_by)
  next
    case False
    then have "\<not> before z x" if "z \<in> set ys" for z
      using Cons.prems that n by (metis sorted_wrt.simps(2))
    with False Cons.prems show ?thesis by simp
  qed
qed

lemma drive_before_neg_trans:
  "\<not> drive_before b a \<Longrightarrow> \<not> drive_before c b \<Longrightarrow> \<not> drive_before c a"
  using drive_before_total drive_before_trans by metis

lemma sorted_sort_drives:
  "sorted_wrt (\<lambda>a b. \<not> drive_before (drv_dev_node b) (drv_dev_node a))
     (sort_by (\<lambda>a b. drive_before (drv_dev_node a) (drv_dev_node b)) ds)"
proof (induction ds)
  case Nil
  show ?case by (simp add: sort_by_def)
next
  case (Cons d ds)
  have "sorted_wrt (\<lambda>a b. \<not> drive_before (drv_dev_node b) (drv_dev_node a))
      (insert_by (\<lambda>a b. drive_before (drv_dev_node a) (drv_dev_node b)) d
        (sort_by (\<lambda>a b. drive_before (drv_dev_node a) (drv_dev_node b)) ds))"
  proof (rule sorted_insert_by [OF _ _ _ Cons.IH])
    show "drive_before (drv_dev_node a) (drv_dev_node c)"
      if "drive_before (drv_dev_node a) (drv_dev_node b)" "drive_before (drv_dev_node b) (drv_dev_node c)"
      for a b c
      using that by (rule drive_before_trans)
    show "\<not> drive_before (drv_dev_node c) (drv_dev_node a)"
      if "\<not> drive_before (drv_dev_node b) (drv_dev_node a)" "\<not> drive_before (drv_dev_node c) (drv_dev_node b)"
      for a b c
      using that by (rule drive_before_neg_trans)
  qed (rule drive_before_irrefl)
  then show ?case by (simp add: sort_by_def)
qed

section \<open>Partitions under their drive\<close>

definition filed :: "msg_drive \<Rightarrow> bool" where
  "filed d \<longleftrightarrow> (\<forall>p \<in> set (drv_partitions d).
     part_dev_node p = drv_dev_node d \<or> base_name (part_dev_node p) = drv_dev_node d)"

definition drives_ok :: "drives_state \<Rightarrow> bool" where
  "drives_ok st \<longleftrightarrow>
     (\<forall>(name, i, g) \<in> set (ds_pointers st).
        i < length (ds_drives st) \<and> drv_dev_node (ds_drives st ! i) = name) \<and>
     (\<forall>d \<in> set (ds_drives st). filed d)"

lemma drives_ok_init: "drives_ok drives_init"
  by (simp add: drives_ok_def drives_init_def)

lemma emplace_drives: "ds_drives (emplace_drive grow d st) = ds_drives st @ [d]"
  "ds_pointers (emplace_drive grow d st) = ds_pointers st"
  by (simp_all add: emplace_drive_def)

lemma drives_ok_add_drive:
  "drives_ok st \<Longrightarrow> add_drive grow info st = Inr st' \<Longrightarrow> drives_ok st'"
proof -
  assume ok: "drives_ok st" and "add_drive grow info st = Inr st'"
  then obtain name model size where
    st': "let d = \<lparr>drv_dev_node = name, drv_size = size, drv_model = model,
        drv_manufacturer = [], drv_interface = [], drv_partitions = []\<rparr>; s = emplace_drive grow d st in
      st' = s\<lparr>ds_pointers := ds_pointers s @ [(name, (length (ds_drives st), ds_generation s))]\<rparr>"
    unfolding add_drive_def Let_def by (auto simp only: bind_eq_Inr_iff sum.inject)
  define d where "d = \<lparr>drv_dev_node = name, drv_size = size, drv_model = model,
        drv_manufacturer = [], drv_interface = [], drv_partitions = []\<rparr>"
  have ds: "ds_drives st' = ds_drives st @ [d]"
    and ps: "\<exists>g. ds_pointers st' = ds_pointers st @ [(drv_dev_node d, length (ds_drives st), g)]"
    using st' by (auto simp: Let_def emplace_drives d_def)
  have "filed d" by (simp add: filed_def d_def)
  moreover have "i < length (ds_drives st') \<and> drv_dev_node (ds_drives st' ! i) = name"
    if "(name, i, g) \<in> set (ds_pointers st')" for name i g
  proof (cases "(name, i, g) \<in> set (ds_pointers st)")
    case True
    with ok have "i < length (ds_drives st) \<and> drv_dev_node (ds_drives st ! i) = name"
      by (auto simp: drives_ok_def)
    then show ?thesis by (simp add: ds nth_append)
  next
    case False
    with that ps ds show ?thesis by auto
  qed
  ultimately show ?thesis using ok by (auto simp: drives_ok_def ds)
qed

lemma partition_of_name:
  "partition_of exec info = Inr p \<Longrightarrow> info \<noteq> [] \<and> part_dev_node p = info ! 0"
  by (auto simp: partition_of_def bind_eq_Inr_iff vec_get_def split: if_splits)

lemma drives_ok_add_partition:
  assumes "drives_ok st" and "add_partition exec key info st = Inr st'"
    and "key = info ! 0 \<or> key = base_name (info ! 0)"
  shows "drives_ok st'"
proof -
  from assms(2) obtain i p where m: "map_of (ds_pointers st) key = Some (i, ds_generation st)"
    and p: "partition_of exec info = Inr p"
    and st': "st' = st\<lparr>ds_drives := (ds_drives st)[i := (ds_drives st ! i)
      \<lparr>drv_partitions := drv_partitions (ds_drives st ! i) @ [p]\<rparr>]\<rparr>"
    by (auto simp: add_partition_def bind_eq_Inr_iff split: option.splits if_splits)
  from m have "(key, i, ds_generation st) \<in> set (ds_pointers st)" by (rule map_of_SomeD)
  with assms(1) have i: "i < length (ds_drives st)" "drv_dev_node (ds_drives st ! i) = key"
    by (auto simp: drives_ok_def)
  let ?d = "(ds_drives st ! i)\<lparr>drv_partitions := drv_partitions (ds_drives st ! i) @ [p]\<rparr>"
  have "filed (ds_drives st ! i)" using assms(1) i(1) by (simp add: drives_ok_def)
  then have f: "filed ?d"
    using i(2) assms(3) partition_of_name [OF p] by (auto simp: filed_def)
  have "drv_dev_node ((ds_drives st)[i := ?d] ! j) = drv_dev_node (ds_drives st ! j)" for j
    using i(1) by (cases "j = i") simp_all
  moreover have "filed d" if "d \<in> set ((ds_drives st)[i := ?d])" for d
    using that f assms(1) set_update_subset_insert [of "ds_drives st" i ?d] by (auto simp: drives_ok_def)
  ultimately show ?thesis using assms(1) by (simp add: drives_ok_def st')
qed

lemma drives_ok_seen: "drives_ok (st\<lparr>ds_seen := s\<rparr>) \<longleftrightarrow> drives_ok st"
  by (simp add: drives_ok_def)

lemma drives_ok_line:
  assumes "drives_ok st" and "drive_line grow exec st line = Inr st'"
  shows "drives_ok st'"
proof -
  let ?info = "split line (CHR '' '') 0"
  let ?c = "base_name (?info ! 0) \<in> ds_seen st"
  show ?thesis
  proof (cases "line = [] \<or> ?info ! 0 \<in> ds_seen st")
    case True
    then have "drive_line grow exec st line = Inr st" unfolding drive_line_def Let_def by auto
    with assms show ?thesis by simp
  next
    case False
    with assms(2) have "bind (if ?c then Inr st else add_drive grow ?info st) (\<lambda>st1.
        bind (if has_number (?info ! 0)
          then add_partition exec (if ?c then base_name (?info ! 0) else ?info ! 0) ?info st1 else Inr st1) (\<lambda>st2.
        Inr (st2\<lparr>ds_seen := insert (?info ! 0) (ds_seen st2)\<rparr>))) = Inr st'"
      unfolding drive_line_def Let_def by simp
    then obtain st1 where 1: "(if ?c then Inr st else add_drive grow ?info st) = Inr st1"
      and r: "bind (if has_number (?info ! 0)
          then add_partition exec (if ?c then base_name (?info ! 0) else ?info ! 0) ?info st1 else Inr st1) (\<lambda>st2.
        Inr (st2\<lparr>ds_seen := insert (?info ! 0) (ds_seen st2)\<rparr>)) = Inr st'"
      unfolding bind_eq_Inr_iff by blast
    from r obtain st2 where 2: "(if has_number (?info ! 0)
          then add_partition exec (if ?c then base_name (?info ! 0) else ?info ! 0) ?info st1 else Inr st1) = Inr st2"
      and 3: "Inr (st2\<lparr>ds_seen := insert (?info ! 0) (ds_seen st2)\<rparr>) = Inr st'"
      unfolding bind_eq_Inr_iff by blast
    have "drives_ok st1"
      using 1 assms(1) drives_ok_add_drive [of st grow ?info st1] by (cases ?c) auto
    then have "drives_ok st2"
      using 2 drives_ok_add_partition [of st1 exec _ ?info st2] by (auto split: if_splits)
    with 3 show ?thesis by (auto simp: drives_ok_seen)
  qed
qed

section \<open>Properties\<close>


text \<open>A disk with one partition, and the growth of the storage by doubling.\<close>

definition double_capacity :: "nat \<Rightarrow> nat" where
  "double_capacity c = (if c = 0 then 1 else 2 * c)"

definition sample_lsblk :: "string \<Rightarrow> (int \<times> string) outcome" where
  "sample_lsblk cmd = Inr (0, ''sda  Disk 9'' @ CHR 0x0A # ''sda1 /  8 ext4 7 6'')"



text \<open>Sorting the drives keeps every drive and puts no drive after one that comes before it
  in the order of the code, which is a strict total order of the names.\<close>

theorem sort_drives_sorted:
  assumes "sort_drives ds = Inr sorted_ds"
  shows "mset sorted_ds = mset ds \<and>
    sorted_wrt (\<lambda>a b. \<not> drive_before (drv_dev_node b) (drv_dev_node a)) sorted_ds"
  using assms sorted_sort_drives mset_sort_by
  by (auto simp: sort_drives_def split: if_splits)

theorem sort_drives_sorted_witness:
  "\<exists>a b. sort_drives [a, b] = Inr [b, a] \<and> drv_dev_node a = ''sdb'' \<and> drv_dev_node b = ''sra'' \<and>
     sorted_wrt (\<lambda>a b. \<not> drive_before (drv_dev_node b) (drv_dev_node a)) [b, a]"
proof -
  let ?mk = "\<lambda>n. \<lparr>drv_dev_node = n, drv_size = 0, drv_model = [], drv_manufacturer = [],
    drv_interface = [], drv_partitions = []\<rparr>"
  have s: "sort_drives [?mk ''sdb'', ?mk ''sra''] = Inr [?mk ''sra'', ?mk ''sdb'']" by code_simp
  with sort_drives_sorted [OF s] show ?thesis
    by (intro exI [of _ "?mk ''sdb''"] exI [of _ "?mk ''sra''"]) simp
qed

end
