(* ===== verification/Server_Main.thy ===== *)
theory Server_Main
  imports Ini Cxx_Numbers
begin

text \<open>
  \<open>src/server/main.cpp\<close>: the command line, the choice of address and port, the exit
  codes, and the two helpers every part of the server uses, \<open>exec\<close> and \<open>read_file\<close>.
  \<open>boost::lexical_cast\<close> to a 16-bit number is an argument.
\<close>

section \<open>The command line\<close>

record parsed_args =
  pa_address :: "string option"
  pa_port :: "16 word option"
  pa_config_file :: "string option"

definition no_args :: parsed_args where
  "no_args = \<lparr>pa_address = None, pa_port = None, pa_config_file = None\<rparr>"

text \<open>The loop of \<open>parse_args\<close> over the arguments after the name of the program.  A left
  value is the code \<open>print_help\<close> exits with.  An option at the end takes the null pointer
  that ends \<open>argv\<close> for its value.\<close>

fun parse_args :: "(string \<Rightarrow> 16 word option) \<Rightarrow> parsed_args \<Rightarrow> string list \<Rightarrow> (int + parsed_args) outcome" where
  "parse_args lexical_cast p [] = Inr (Inr p)"
| "parse_args lexical_cast p (arg # rest) =
     (if arg = ''--help'' \<or> arg = ''-h'' then Inr (Inl 0)
      else if arg = ''--address'' then
        (case rest of
           [] \<Rightarrow> Inl UB
         | v # rest' \<Rightarrow> parse_args lexical_cast (p\<lparr>pa_address := Some v\<rparr>) rest')
      else if arg = ''--port'' then
        (case rest of
           [] \<Rightarrow> Inl UB
         | v # rest' \<Rightarrow>
             (case lexical_cast v of
                None \<Rightarrow> Inl (Throw Bad_lexical_cast)
              | Some n \<Rightarrow> parse_args lexical_cast (p\<lparr>pa_port := Some n\<rparr>) rest'))
      else if arg = ''--config'' \<or> arg = ''-c'' then
        (case rest of
           [] \<Rightarrow> Inl UB
         | v # rest' \<Rightarrow> parse_args lexical_cast (p\<lparr>pa_config_file := Some v\<rparr>) rest')
      else Inr (Inl (- 1)))"

section \<open>Configuration\<close>

definition default_address :: string where "default_address = ''0.0.0.0''"

definition default_port :: "16 word" where "default_port = 29921"

definition default_config_file :: string where
  "default_config_file = ''/etc/bakaneko-server.ini''"

definition value_or :: "'a option \<Rightarrow> 'a \<Rightarrow> 'a" where
  "value_or x dflt = (case x of None \<Rightarrow> dflt | Some v \<Rightarrow> v)"

text \<open>\<open>ini_file[section][key].get<T>(default)\<close> on a file that is not const.\<close>

definition get_or :: "(string \<Rightarrow> 'a option) \<Rightarrow> ini \<Rightarrow> string \<Rightarrow> string \<Rightarrow> 'a \<Rightarrow> ('a \<times> ini) outcome" where
  "get_or lexical_cast f section_name key dflt =
     (case ini_ref section_name f of (i, f') \<Rightarrow>
        bind (sec_ref key (f' ! i)) (\<lambda>(j, sec).
        bind (item_get_default lexical_cast (sec_items sec ! j) dflt) (\<lambda>v.
        Inr (v, f'[i := sec]))))"

text \<open>The lambda that reads the file: a left value is the exit code without a password.  The
  value of the file is computed even when the argument overrides it.\<close>

definition listen_on ::
  "(string \<Rightarrow> 16 word option) \<Rightarrow> parsed_args \<Rightarrow> string outcome \<Rightarrow> (int + string \<times> 16 word) outcome" where
  "listen_on lexical_cast args config =
     bind config (\<lambda>file_data.
     bind (load_file file_data []) (\<lambda>f.
     case ini_ref ''admin'' f of (i, f1) \<Rightarrow>
       if \<not> sec_has ''password'' (f1 ! i) then Inr (Inl (- 2))
       else
         (case ini_ref ''networking'' f1 of (j, f2) \<Rightarrow>
            bind (get_or Some f2 ''networking'' ''address'' default_address) (\<lambda>(address, f3).
            bind (get_or lexical_cast f3 ''networking'' ''port'' default_port) (\<lambda>(port, f4).
            Inr (Inr (value_or (pa_address args) address, value_or (pa_port args) port)))))))"

text \<open>\<open>main\<close> up to the start of the server: it exits with a code, serves, or is undefined;
  every exception is logged and the program returns zero.\<close>

datatype start = Exits int | Serves string "16 word" | Undefined

definition start_server ::
  "(string \<Rightarrow> 16 word option) \<Rightarrow> (string \<Rightarrow> string outcome) \<Rightarrow> string list \<Rightarrow> start" where
  "start_server lexical_cast read argv =
     (case bind (parse_args lexical_cast no_args argv) (\<lambda>r.
             case r of
               Inl code \<Rightarrow> Inr (Inl code)
             | Inr args \<Rightarrow>
                 listen_on lexical_cast args (read (value_or (pa_config_file args) default_config_file))) of
        Inr (Inr (address, port)) \<Rightarrow> Serves address port
      | Inr (Inl code) \<Rightarrow> Exits code
      | Inl (Throw e) \<Rightarrow> Exits 0
      | Inl UB \<Rightarrow> Undefined)"

text \<open>The threads that run the server, the one of \<open>main\<close> included: \<open>reserve\<close> throws
  \<open>length_error\<close> for the size that a negative number converts to, and \<open>hardware_concurrency\<close> is
  zero where it is not known.  \<open>run_server\<close> has the rest of \<open>main\<close>, for an address that can be
  bound.\<close>

definition server_threads :: "32 word \<Rightarrow> nat outcome" where
  "server_threads hardware_concurrency =
     (let thread_count = sint hardware_concurrency
      in if thread_count - 1 < 0 then Inl (Throw Std_exception) else Inr (nat (thread_count - 1) + 1))"

definition run_server ::
  "32 word \<Rightarrow> (string \<Rightarrow> 16 word option) \<Rightarrow> (string \<Rightarrow> string outcome) \<Rightarrow> string list \<Rightarrow> start \<times> nat" where
  "run_server hardware_concurrency lexical_cast read argv =
     (case start_server lexical_cast read argv of
        Serves address port \<Rightarrow>
          (case server_threads hardware_concurrency of
             Inl _ \<Rightarrow> (Exits 0, 0)
           | Inr n \<Rightarrow> (Serves address port, n))
      | r \<Rightarrow> (r, 0))"

section \<open>exec and read_file\<close>

text \<open>One \<open>fgets\<close> into the buffer of 128: up to 127 characters, through the newline.  What
  is appended is the text before its first NUL.\<close>

definition fgets :: "string \<Rightarrow> string" where
  "fgets s =
     (case find_pos (\<lambda>c. c = CHR 0x0A) (take 127 s) of Some i \<Rightarrow> take (Suc i) s | None \<Rightarrow> take 127 s)"

lemma fgets_prefix: "fgets s @ drop (length (fgets s)) s = s"
proof -
  have "\<exists>n. fgets s = take n s" by (auto simp: fgets_def split: option.splits)
  then obtain n where "fgets s = take n s" by blast
  then show ?thesis by (simp add: min_def)
qed

lemma fgets_nonempty: "s \<noteq> [] \<Longrightarrow> 0 < length (fgets s)"
  by (cases "find_pos (\<lambda>c. c = CHR 0x0A) (take 127 s)") (simp_all add: fgets_def)

function exec_output :: "string \<Rightarrow> string" where
  "exec_output s = (if s = [] then [] else c_str (fgets s) @ exec_output (drop (length (fgets s)) s))"
  by pat_completeness auto
termination
  by (relation "measure length", simp) (simp only: in_measure length_drop, metis fgets_nonempty diff_less length_greater_0_conv)

declare exec_output.simps [simp del]

definition exec :: "(string \<Rightarrow> (int \<times> string) option) \<Rightarrow> string \<Rightarrow> (int \<times> string) outcome" where
  "exec popen cmd =
     (case popen (cmd @ '' 2>/dev/null'') of
        None \<Rightarrow> Inl (Throw Runtime_error)
      | Some (status, pipe) \<Rightarrow> Inr (status, exec_output pipe))"

text \<open>The fallback of \<open>read_file\<close> for a file that cannot be mapped: \<open>contents\<close> has
  the size the file reports, with NULs after what could be read.\<close>

definition strip_contents :: "string \<Rightarrow> string" where
  "strip_contents contents =
     (case find_pos (\<lambda>c. c = CHR 0x00) contents of
        None \<Rightarrow> contents
      | Some n \<Rightarrow> if n = 0 then [] else take (n - 1) contents)"

text \<open>\<open>mapped\<close> is None when the view cannot be made; \<open>opened\<close> is what the stream
  reads then.\<close>

definition read_file :: "string option outcome \<Rightarrow> string option \<Rightarrow> string outcome" where
  "read_file mapped opened =
     bind mapped (\<lambda>view.
       case view of
         Some s \<Rightarrow> Inr s
       | None \<Rightarrow>
           (case opened of Some contents \<Rightarrow> Inr (strip_contents contents) | None \<Rightarrow> Inl (Throw System_error)))"

section \<open>Lemmas\<close>


lemma exec_output_all: "CHR 0x00 \<notin> set s \<Longrightarrow> exec_output s = s"
proof (induction s rule: exec_output.induct)
  case (1 s)
  show ?case
  proof (cases "s = []")
    case True
    then show ?thesis by (simp add: exec_output.simps)
  next
    case False
    let ?l = "fgets s" and ?r = "drop (length (fgets s)) s"
    have "set ?l \<union> set ?r = set s" by (metis fgets_prefix set_append)
    with "1.prems" have "CHR 0x00 \<notin> set ?l" "CHR 0x00 \<notin> set ?r" by blast+
    then have "exec_output s = ?l @ ?r"
      using "1.IH" [OF False] False by (simp add: exec_output.simps [of s] c_str_id)
    then show ?thesis by (simp only: fgets_prefix)
  qed
qed

lemma vec_ref_value:
  assumes "vec_ref item_key new_item key items = (j, xs)"
  shows "item_value (xs ! j) = (case vec_look item_key key items of None \<Rightarrow> None | Some it \<Rightarrow> item_value it)"
    and "(case vec_look item_key k xs of None \<Rightarrow> None | Some it \<Rightarrow> item_value it) =
      (case vec_look item_key k items of None \<Rightarrow> None | Some it \<Rightarrow> item_value it)"
proof -
  consider (new) "slot item_key key items = None" "j = length items" "xs = items @ [new_item key]"
    | (old) i where "slot item_key key items = Some i" "j = i" "xs = items"
    using assms by (auto simp: vec_ref_def split: option.splits)
  then have "item_value (xs ! j) =
        (case vec_look item_key key items of None \<Rightarrow> None | Some it \<Rightarrow> item_value it) \<and>
      (case vec_look item_key k xs of None \<Rightarrow> None | Some it \<Rightarrow> item_value it) =
        (case vec_look item_key k items of None \<Rightarrow> None | Some it \<Rightarrow> item_value it)"
  proof cases
    case new
    then have "vec_look item_key key items = None" by (simp add: vec_look_None_iff)
    with new show ?thesis by (simp add: vec_look_snoc new_item_def split: option.splits)
  next
    case old
    then show ?thesis by (simp add: vec_look_def)
  qed
  then show "item_value (xs ! j) =
        (case vec_look item_key key items of None \<Rightarrow> None | Some it \<Rightarrow> item_value it)"
    and "(case vec_look item_key k xs of None \<Rightarrow> None | Some it \<Rightarrow> item_value it) =
        (case vec_look item_key k items of None \<Rightarrow> None | Some it \<Rightarrow> item_value it)" by blast+
qed

lemma get_or_value:
  assumes "key \<noteq> []"
  shows "\<exists>g. (\<forall>s k. ini_value g s k = ini_value f s k) \<and>
    get_or lc f section_name key dflt =
      (case ini_value f section_name key of
         None \<Rightarrow> Inr (dflt, g)
       | Some v \<Rightarrow> (case lc v of None \<Rightarrow> Inl (Throw Bad_lexical_cast) | Some x \<Rightarrow> Inr (x, g)))"
proof -
  obtain i f' where r: "ini_ref section_name f = (i, f')" by fastforce
  obtain j xs where q: "vec_ref item_key new_item key (sec_items (f' ! i)) = (j, xs)" by fastforce
  let ?sec = "(f' ! i)\<lparr>sec_items := xs\<rparr>"
  have v: "ini_value f' s k = ini_value f s k" for s k by (rule ini_ref_value [OF r])
  have sl: "slot sec_name section_name f' = Some i" and nm: "sec_name (f' ! i) = section_name"
    using ini_ref_ok [OF r] by simp_all
  have at: "vec_look sec_name section_name f' = Some (f' ! i)"
    using sl by (simp add: vec_look_def)
  have "ini_value (f'[i := ?sec]) s k = ini_value f' s k" for s k
    using vec_look_update [OF sl, of ?sec s] nm at vec_ref_value(2) [OF q, of k]
    by (simp add: ini_value_look)
  moreover have "item_value (xs ! j) = ini_value f section_name key"
    using vec_ref_value(1) [OF q] at v [of section_name key] by (simp add: ini_value_look)
  ultimately show ?thesis
    using assms v
    by (intro exI [of _ "f'[i := ?sec]"])
      (auto simp: get_or_def r sec_ref_def q item_get_default_def split: option.splits)
qed

lemma get_or_ok:
  assumes "key \<noteq> []" and "\<And>v. ini_value f s key = Some v \<Longrightarrow> lc v \<noteq> None"
  shows "\<exists>g. (\<forall>s k. ini_value g s k = ini_value f s k) \<and>
    get_or lc f s key dflt = Inr (value_or (map_option (\<lambda>v. the (lc v)) (ini_value f s key)) dflt, g)"
proof -
  obtain g where "\<forall>s k. ini_value g s k = ini_value f s k"
    and "get_or lc f s key dflt =
      (case ini_value f s key of
         None \<Rightarrow> Inr (dflt, g)
       | Some v \<Rightarrow> (case lc v of None \<Rightarrow> Inl (Throw Bad_lexical_cast) | Some x \<Rightarrow> Inr (x, g)))"
    by (rule exE [OF get_or_value [OF assms(1), of f lc s dflt]]) (erule conjE, erule (1) that)
  then show ?thesis
    using assms(2) by (intro exI [of _ g]) (auto simp: value_or_def split: option.splits)
qed

lemma has_password:
  assumes "ini_value f ''admin'' ''password'' = Some p" and "ini_ref ''admin'' f = (i, g)"
  shows "sec_has ''password'' (g ! i)"
proof -
  have "ini_value g ''admin'' ''password'' = Some p" using ini_ref_value [OF assms(2)] assms(1) by simp
  moreover have "vec_look sec_name ''admin'' g = Some (g ! i)"
    using ini_ref_ok [OF assms(2)] by (simp add: vec_look_def)
  ultimately have "vec_look item_key ''password'' (sec_items (g ! i)) \<noteq> None"
    by (cases "vec_look item_key ''password'' (sec_items (g ! i))") (simp_all add: ini_value_look)
  then show ?thesis by (simp add: sec_has_def vec_look_None_iff)
qed

section \<open>Properties\<close>

text \<open>Where the server listens: an argument takes precedence over the file and the file over
  the default, for the address and for the port alike, once the file loads, has a password and a
  port that converts.\<close>

theorem start_server_precedence:
  assumes "parse_args lexical_cast no_args argv = Inr (Inr args)"
    and "read (value_or (pa_config_file args) default_config_file) = Inr file_data"
    and "load_file file_data [] = Inr f" and "ini_value f ''admin'' ''password'' = Some p"
    and "\<And>v. ini_value f ''networking'' ''port'' = Some v \<Longrightarrow> lexical_cast v \<noteq> None"
  shows "start_server lexical_cast read argv =
    Serves (value_or (pa_address args) (value_or (ini_value f ''networking'' ''address'') default_address))
      (value_or (pa_port args)
        (value_or (map_option (\<lambda>v. the (lexical_cast v)) (ini_value f ''networking'' ''port'')) default_port))"
proof -
  obtain i f1 where r1: "ini_ref ''admin'' f = (i, f1)" by fastforce
  obtain j f2 where r2: "ini_ref ''networking'' f1 = (j, f2)" by fastforce
  have v2: "ini_value f2 s k = ini_value f s k" for s k
    using ini_ref_value [OF r1] ini_ref_value [OF r2] by simp
  have s: "map_option (\<lambda>v. the (Some v)) x = x" for x :: "string option" by (cases x) simp_all
  have "\<exists>g. (\<forall>s k. ini_value g s k = ini_value f2 s k) \<and>
      get_or Some f2 ''networking'' ''address'' default_address =
        Inr (value_or (map_option (\<lambda>v. the (Some v)) (ini_value f2 ''networking'' ''address'')) default_address, g)"
    by (rule get_or_ok) simp_all
  then obtain f3 where f3: "\<And>s k. ini_value f3 s k = ini_value f s k"
    and a: "get_or Some f2 ''networking'' ''address'' default_address =
      Inr (value_or (ini_value f ''networking'' ''address'') default_address, f3)"
    unfolding s v2 by blast
  have "\<exists>g. (\<forall>s k. ini_value g s k = ini_value f3 s k) \<and>
      get_or lexical_cast f3 ''networking'' ''port'' default_port =
        Inr (value_or (map_option (\<lambda>v. the (lexical_cast v)) (ini_value f3 ''networking'' ''port'')) default_port, g)"
    by (rule get_or_ok) (simp, simp only: f3 assms(5) not_False_eq_True)
  then obtain f4 where
    b: "get_or lexical_cast f3 ''networking'' ''port'' default_port =
      Inr (value_or (map_option (\<lambda>v. the (lexical_cast v)) (ini_value f ''networking'' ''port'')) default_port, f4)"
    unfolding f3 by blast
  have "listen_on lexical_cast args (Inr file_data) = Inr (Inr
      (value_or (pa_address args) (value_or (ini_value f ''networking'' ''address'') default_address),
       value_or (pa_port args)
        (value_or (map_option (\<lambda>v. the (lexical_cast v)) (ini_value f ''networking'' ''port'')) default_port)))"
    using has_password [OF assms(4) r1] by (simp add: listen_on_def assms(3) r1 r2 a b)
  then show ?thesis by (simp add: start_server_def assms(1,2))
qed

theorem start_server_precedence_witness:
  "start_server (\<lambda>s. if s = ''80'' then Some 80 else None)
     (\<lambda>path. Inr (''[admin]'' @ CHR 0x0A # ''password=cat'')) [''--port'', ''80''] = Serves ''0.0.0.0'' 80"
proof -
  let ?lc = "\<lambda>s. if s = ''80'' then Some (80 :: 16 word) else None"
  let ?f = "[\<lparr>sec_name = ''admin'', sec_items = [\<lparr>item_key = ''password'', item_value = Some ''cat''\<rparr>]\<rparr>]"
  have p: "parse_args ?lc no_args [''--port'', ''80''] = Inr (Inr (no_args\<lparr>pa_port := Some 80\<rparr>))"
    by simp
  have l: "load_file (''[admin]'' @ CHR 0x0A # ''password=cat'') [] = Inr ?f" by code_simp
  have v: "ini_value ?f ''admin'' ''password'' = Some ''cat''" by code_simp
  have n: "ini_value ?f ''networking'' ''port'' = None" "ini_value ?f ''networking'' ''address'' = None"
    by code_simp+
  show ?thesis
    by (subst start_server_precedence [OF p refl l v])
      (simp_all add: n value_or_def no_args_def default_address_def)
qed

text \<open>The output of a command arrives whole: the loop over buffers of 128 characters loses
  and repeats nothing, for an output without NUL of any length.\<close>

theorem exec_whole_output:
  assumes "popen (cmd @ '' 2>/dev/null'') = Some (status, pipe)" and "CHR 0x00 \<notin> set pipe"
  shows "exec popen cmd = Inr (status, pipe)"
  using assms by (simp add: exec_def exec_output_all)

theorem exec_whole_output_witness:
  "exec (\<lambda>cmd. Some (0, cmd)) ''lsblk'' = Inr (0, ''lsblk 2>/dev/null'')"
  by (rule exec_whole_output) simp_all

text \<open>A file of the kernel's pseudo file systems, read into a buffer of the reported size,
  yields its text without the newline at its end; a text that does not end in one loses its last
  character.\<close>

theorem strip_contents_pseudo:
  assumes "CHR 0x00 \<notin> set text" and "0 < k"
  shows "strip_contents ((text @ [CHR 0x0A]) @ replicate k (CHR 0x00)) = text \<and>
    strip_contents (text @ replicate k (CHR 0x00)) = butlast text"
proof -
  obtain m where k: "k = Suc m" using assms(2) by (cases k) auto
  have f: "find_pos (\<lambda>c. c = CHR 0x00) (p @ CHR 0x00 # r) = Some (length p)"
    if "CHR 0x00 \<notin> set p" for p r
    using that by (intro find_pos_append_hit) auto
  have "strip_contents ((text @ [CHR 0x0A]) @ CHR 0x00 # replicate m (CHR 0x00)) = text"
    using f [of "text @ [CHR 0x0A]" "replicate m (CHR 0x00)"] assms(1)
    by (simp add: strip_contents_def)
  moreover have "strip_contents (text @ CHR 0x00 # replicate m (CHR 0x00)) = butlast text"
    using f [OF assms(1), of "replicate m (CHR 0x00)"]
    by (simp add: strip_contents_def butlast_conv_take)
  ultimately show ?thesis by (simp add: k)
qed

theorem strip_contents_pseudo_witness:
  "strip_contents ((''up'' @ [CHR 0x0A]) @ replicate 3 (CHR 0x00)) = ''up'' \<and>
   strip_contents (''up'' @ replicate 3 (CHR 0x00)) = ''u''"
  using strip_contents_pseudo [of "''up''" 3] by simp

text \<open>The server never runs without a thread, and not at all where the number of processors is not known.\<close>

lemma run_server_threads:
  "run_server hc lexical_cast read argv = (Serves address port, n) \<longleftrightarrow>
    start_server lexical_cast read argv = Serves address port \<and> 0 < sint hc \<and> n = nat (sint hc)"
  by (auto simp: run_server_def server_threads_def Let_def split: start.split)

lemma run_server_unknown_processors:
  "start_server lexical_cast read argv = Serves address port \<Longrightarrow> run_server 0 lexical_cast read argv = (Exits 0, 0)"
  by (simp add: run_server_def server_threads_def)


end
