(* ===== verification/Terminal.thy ===== *)
theory Terminal
  imports Prelude
begin

text \<open>
  \<open>src/client/term/term.h\<close>, \<open>term.cpp\<close> and the terminals \<open>dumb.cpp\<close> and
  \<open>null.cpp\<close>: lines of symbols, a cursor, and the count of the rows the lines take on the
  screen.  The width of the screen is an argument; text is given as the bytes of its UTF-8 form.

  \<open>page\<close> is what a terminal shall show for text without escape sequences: the locale
  \<open>plain_terminal\<close> is that contract, and from it follows what lines of text look like.
\<close>

section \<open>Symbols and terminals\<close>

type_synonym color = "nat \<times> nat \<times> nat"

record symbol =
  sym_letter :: "32 word"
  sym_foreground :: color
  sym_background :: color
  sym_bold :: bool
  sym_italic :: bool
  sym_underline :: bool

record terminal =
  term_data :: "symbol list list"
  current_char :: int
  current_line :: int
  line_wrap_count :: int

text \<open>The constructor puts one empty line.\<close>

definition new_terminal :: terminal where
  "new_terminal = \<lparr>term_data = [[]], current_char = 0, current_line = 0, line_wrap_count = 0\<rparr>"

section \<open>Types of terminals\<close>

datatype term_kind = Null_term | Dumb_term | Linux_term

definition create_term :: "int \<Rightarrow> term_kind" where
  "create_term t = (if t = 1 then Dumb_term else if t = 2 then Linux_term else Null_term)"

definition term_type :: "term_kind \<Rightarrow> string" where
  "term_type k = (case k of Null_term \<Rightarrow> ''Null'' | Dumb_term \<Rightarrow> ''Dumb'' | Linux_term \<Rightarrow> ''Linux'')"

definition term_report :: "term_kind \<Rightarrow> string" where
  "term_report k = (case k of Null_term \<Rightarrow> ''dumb'' | Dumb_term \<Rightarrow> ''dumb'' | Linux_term \<Rightarrow> ''linux'')"

definition term_type_name :: "int \<Rightarrow> string" where
  "term_type_name t = term_type (create_term t)"

text \<open>The static map; \<open>operator[]\<close> gives zero for a name it does not hold.\<close>

definition term_type_number :: "string \<Rightarrow> int" where
  "term_type_number name =
     (case map_of [(term_type_name 1, 1), (term_type_name 2, 2)] name of None \<Rightarrow> 0 | Some t \<Rightarrow> t)"

section \<open>Counting rows\<close>

definition line_count :: "terminal \<Rightarrow> int" where
  "line_count t = line_wrap_count t"

text \<open>The inner loop of \<open>line_recount\<close>: the wraps in one line.\<close>

fun wraps :: "int \<Rightarrow> int \<Rightarrow> 'a list \<Rightarrow> int" where
  "wraps col count [] = 0"
| "wraps col count (x # xs) =
     (if count > col then 1 + wraps col 1 xs else wraps col (count + 1) xs)"

text \<open>The result tells whether \<open>on_line_count_change\<close> is emitted.\<close>

definition line_recount :: "int \<Rightarrow> terminal \<Rightarrow> terminal \<times> bool" where
  "line_recount col t =
     (let n = int (length (term_data t)) + sum_list (map (wraps col 0) (term_data t))
      in (t\<lparr>line_wrap_count := n\<rparr>, n \<noteq> line_count t))"

section \<open>Writing a symbol\<close>

text \<open>The three branches on \<open>current_char\<close> against \<open>line.size()\<close>.  The comparison
  is unsigned: a negative column pads until the memory ends.\<close>

definition place :: "symbol \<Rightarrow> symbol \<Rightarrow> int \<Rightarrow> symbol list \<Rightarrow> symbol list outcome" where
  "place blank s pos line =
     (if pos < 0 then Inl (Throw Std_exception)
      else if nat pos < length line then Inr (line[nat pos := s])
      else Inr (line @ replicate (nat pos - length line) blank @ [s]))"

text \<open>\<open>data[current_line]\<close>.\<close>

definition current :: "terminal \<Rightarrow> symbol list outcome" where
  "current t = (if current_line t < 0 then Inl UB else vec_get (term_data t) (nat (current_line t)))"

definition set_current :: "symbol list \<Rightarrow> terminal \<Rightarrow> terminal" where
  "set_current line t = t\<lparr>term_data := (term_data t)[nat (current_line t) := line]\<rparr>"

section \<open>The dumb terminal\<close>

definition dumb_symbol :: "32 word \<Rightarrow> symbol" where
  "dumb_symbol l =
     \<lparr>sym_letter = l, sym_foreground = (85, 255, 85), sym_background = (0, 0, 0),
      sym_bold = False, sym_italic = False, sym_underline = False\<rparr>"

text \<open>\<open>(char32_t)letter\<close> of a signed \<open>char\<close>.\<close>

definition letter_code :: "char \<Rightarrow> 32 word" where
  "letter_code c = scast (of_nat (of_char c) :: 8 word)"

text \<open>One pass of the loop of \<open>Dumb::add_text\<close>; the flag is \<open>lines_added\<close>.\<close>

definition dumb_feed :: "int \<Rightarrow> terminal \<times> bool \<Rightarrow> char \<Rightarrow> (terminal \<times> bool) outcome" where
  "dumb_feed columns st letter =
     (case st of (t, lines_added) \<Rightarrow>
      if letter = CHR 0x0A then
        Inr (t\<lparr>term_data := term_data t @ [[]], current_line := current_line t + 1\<rparr>, True)
      else if letter = CHR 0x0D then Inr (t\<lparr>current_char := 0\<rparr>, lines_added)
      else if letter = CHR 0x08 then
        (if current_char t > 0 then
           (if columns = 0 then Inl UB
            else Inr (t\<lparr>current_char := current_char t - 1\<rparr>,
                      lines_added \<or> (current_char t - 1) mod columns = 0))
         else Inr (t, lines_added))
      else if letter = CHR 0x07 then Inr (t, lines_added)
      else
        bind (current t) (\<lambda>line.
        bind (place (dumb_symbol 32) (dumb_symbol (letter_code letter)) (current_char t) line) (\<lambda>line'.
        Inr ((set_current line' t)\<lparr>current_char := current_char t + 1\<rparr>, lines_added))))"

text \<open>The text ends at its first NUL, where the \<open>std::string\<close> is made from the data.\<close>

definition text_bytes :: "string \<Rightarrow> string" where
  "text_bytes text = takeWhile (\<lambda>c. c \<noteq> CHR 0x00) text"

definition dumb_add_text :: "int \<Rightarrow> string \<Rightarrow> terminal \<Rightarrow> terminal outcome" where
  "dumb_add_text columns text t =
     bind (foldM (dumb_feed columns) (t, False) (text_bytes text)) (\<lambda>(t', lines_added).
       Inr (if lines_added then fst (line_recount columns t') else t'))"

definition null_add_text :: "string \<Rightarrow> terminal \<Rightarrow> terminal outcome" where
  "null_add_text text t = Inr t"

section \<open>The page\<close>

text \<open>Lines, and the cursor in them.\<close>

type_synonym page = "symbol list list \<times> nat \<times> nat"

definition put_symbol :: "symbol \<Rightarrow> symbol \<Rightarrow> nat \<Rightarrow> symbol list \<Rightarrow> symbol list" where
  "put_symbol blank s pos line =
     (if pos < length line then line[pos := s]
      else line @ replicate (pos - length line) blank @ [s])"

definition page_step :: "(char \<Rightarrow> symbol) \<Rightarrow> page \<Rightarrow> char \<Rightarrow> page" where
  "page_step draw p c =
     (case p of (ls, l, x) \<Rightarrow>
      if c = CHR 0x0A then (if Suc l = length ls then ls @ [[]] else ls, Suc l, x)
      else if c = CHR 0x0D then (ls, l, 0)
      else (ls[l := put_symbol (draw (CHR '' '')) (draw c) x (ls ! l)], l, Suc x))"

text \<open>Printable ASCII.\<close>

definition printable :: "char \<Rightarrow> bool" where
  "printable c \<longleftrightarrow> 32 \<le> (of_char c :: nat) \<and> (of_char c :: nat) < 127"

definition plain :: "char \<Rightarrow> bool" where
  "plain c \<longleftrightarrow> printable c \<or> c = CHR 0x0A \<or> c = CHR 0x0D"

text \<open>Lines as a program sends them.\<close>

fun crlf :: "string list \<Rightarrow> string" where
  "crlf [] = []"
| "crlf [l] = l"
| "crlf (l # m # ls) = l @ CHR 0x0D # CHR 0x0A # crlf (m # ls)"

text \<open>\<open>ok n\<close>: the terminal can take \<open>n\<close> more characters.\<close>

locale plain_terminal =
  fixes feed :: "'s \<Rightarrow> char \<Rightarrow> 's outcome" and view :: "'s \<Rightarrow> page" and ok :: "nat \<Rightarrow> 's \<Rightarrow> bool"
    and draw :: "char \<Rightarrow> symbol"
  assumes feed_plain:
    "ok (Suc n) s \<Longrightarrow> plain c \<Longrightarrow> \<exists>s'. feed s c = Inr s' \<and> ok n s' \<and> view s' = page_step draw (view s) c"
begin

lemma feed_text:
  "ok (length cs) s \<Longrightarrow> list_all plain cs \<Longrightarrow>
   \<exists>s'. foldM feed s cs = Inr s' \<and> ok 0 s' \<and> view s' = foldl (page_step draw) (view s) cs"
proof (induction cs arbitrary: s)
  case Nil
  then show ?case by simp
next
  case (Cons c cs)
  then obtain s1 where s1: "feed s c = Inr s1" "ok (length cs) s1" "view s1 = page_step draw (view s) c"
    using feed_plain [of "length cs" s c] by auto
  from Cons.IH [OF s1(2)] Cons.prems(2) s1 show ?case by auto
qed

end

section \<open>Lines on a page\<close>

lemma put_symbol_end: "put_symbol blank s (length line) line = line @ [s]"
  by (simp add: put_symbol_def)

lemma page_line:
  "list_all printable l \<Longrightarrow>
   foldl (page_step draw) (before @ [line], length before, length line) l =
     (before @ [line @ map draw l], length before, length line + length l)"
proof (induction l arbitrary: line)
  case Nil
  then show ?case by simp
next
  case (Cons c l)
  then have "c \<noteq> CHR 0x0A" "c \<noteq> CHR 0x0D" by (auto simp: printable_def)
  then have "page_step draw (before @ [line], length before, length line) c =
      (before @ [line @ [draw c]], length before, length (line @ [draw c]))"
    by (simp add: page_step_def put_symbol_end)
  with Cons.IH [of "line @ [draw c]"] Cons.prems show ?case by simp
qed

lemma page_crlf:
  "ls \<noteq> [] \<Longrightarrow> list_all (list_all printable) ls \<Longrightarrow>
   foldl (page_step draw) (before @ [[]], length before, 0) (crlf ls) =
     (before @ map (map draw) ls, length before + length ls - 1, length (last ls))"
proof (induction ls arbitrary: before rule: crlf.induct)
  case (2 l)
  then show ?case using page_line [of l draw before "[]"] by simp
next
  case (3 l m ls)
  have l: "foldl (page_step draw) (before @ [[]], length before, 0) l =
      (before @ [map draw l], length before, length l)"
    using page_line [of l draw before "[]"] 3 by simp
  have nl: "foldl (page_step draw) (before @ [map draw l], length before, length l) [CHR 0x0D, CHR 0x0A] =
      ((before @ [map draw l]) @ [[]], length (before @ [map draw l]), 0)"
    by (simp add: page_step_def)
  have "foldl (page_step draw) (before @ [[]], length before, 0) (l @ [CHR 0x0D, CHR 0x0A] @ crlf (m # ls)) =
      foldl (page_step draw) ((before @ [map draw l]) @ [[]], length (before @ [map draw l]), 0) (crlf (m # ls))"
    by (simp only: foldl_append l nl)
  with "3.IH" [of "before @ [map draw l]"] "3.prems" show ?case by simp
qed simp

lemma crlf_plain: "list_all (list_all printable) ls \<Longrightarrow> list_all plain (crlf ls)"
  by (induction ls rule: crlf.induct) (auto simp: plain_def list_all_iff)

lemma crlf_text: "list_all (list_all printable) ls \<Longrightarrow> text_bytes (crlf ls) = crlf ls"
  unfolding text_bytes_def
proof (rule takeWhile_all)
  fix c
  assume "list_all (list_all printable) ls" and "c \<in> set (crlf ls)"
  then have "plain c" using crlf_plain by (simp add: list_all_iff)
  then show "c \<noteq> CHR 0x00" by (auto simp: plain_def printable_def)
qed

section \<open>The dumb terminal keeps the contract\<close>

definition term_ok :: "terminal \<Rightarrow> bool" where
  "term_ok t \<longleftrightarrow> 0 \<le> current_char t \<and> 0 \<le> current_line t \<and> current_line t < int (length (term_data t))"

definition dumb_ok :: "terminal \<Rightarrow> bool" where
  "dumb_ok t \<longleftrightarrow> 0 \<le> current_char t \<and> current_line t + 1 = int (length (term_data t))"

definition term_view :: "terminal \<Rightarrow> page" where
  "term_view t = (term_data t, nat (current_line t), nat (current_char t))"

lemma place_put: "0 \<le> pos \<Longrightarrow> place blank s pos line = Inr (put_symbol blank s (nat pos) line)"
  by (simp add: place_def put_symbol_def)

lemma current_ok: "term_ok t \<Longrightarrow> current t = Inr (term_data t ! nat (current_line t))"
  by (auto simp: current_def term_ok_def vec_get_def nat_less_iff)

lemma dumb_term_ok: "dumb_ok t \<Longrightarrow> term_data t \<noteq> [] \<Longrightarrow> term_ok t"
  by (cases "term_data t") (auto simp: dumb_ok_def term_ok_def)

text \<open>The cursor is on the last line, and there is one: the state the constructor makes and every
  byte keeps.\<close>

definition dumb_inv :: "terminal \<times> bool \<Rightarrow> bool" where
  "dumb_inv st \<longleftrightarrow> dumb_ok (fst st) \<and> term_data (fst st) \<noteq> []"

lemma dumb_feed_write:
  assumes "dumb_inv (t, b)" and "letter \<notin> {CHR 0x0A, CHR 0x0D, CHR 0x08, CHR 0x07}"
  shows "dumb_feed columns (t, b) letter = Inr
    (t\<lparr>term_data := (term_data t)[nat (current_line t) := put_symbol (dumb_symbol 32)
         (dumb_symbol (letter_code letter)) (nat (current_char t)) (term_data t ! nat (current_line t))],
       current_char := current_char t + 1\<rparr>, b)"
proof -
  have ok: "term_ok t" using assms(1) by (simp add: dumb_inv_def dumb_term_ok)
  then have "0 \<le> current_char t" by (simp add: term_ok_def)
  with assms(2) show ?thesis
    by (simp add: dumb_feed_def current_ok [OF ok] place_put set_current_def)
qed

lemma dumb_feed_inv:
  assumes "dumb_inv st" and "columns \<noteq> 0"
  shows "\<exists>st'. dumb_feed columns st letter = Inr st' \<and> dumb_inv st'"
proof -
  obtain t b where st: "st = (t, b)" by fastforce
  show ?thesis
  proof (cases "letter \<in> {CHR 0x0A, CHR 0x0D, CHR 0x08, CHR 0x07}")
    case True
    with assms show ?thesis
      by (auto simp: st dumb_feed_def dumb_inv_def dumb_ok_def)
  next
    case False
    with assms show ?thesis
      by (simp add: st dumb_feed_write) (simp add: dumb_inv_def dumb_ok_def)
  qed
qed

lemma letter_code_ascii: "(of_char c :: nat) < 128 \<Longrightarrow> letter_code c = of_nat (of_char c)"
proof -
  assume a: "(of_char c :: nat) < 128"
  then have "sint (of_nat (of_char c) :: 8 word) = int (of_char c)"
    by (simp add: sint_uint unsigned_of_nat take_bit_nat_eq_self signed_take_bit_int_eq_self)
  then show ?thesis by (simp add: letter_code_def scast_eq)
qed

definition draw_dumb :: "char \<Rightarrow> symbol" where
  "draw_dumb c = dumb_symbol (of_nat (of_char c))"

interpretation dumb: plain_terminal "dumb_feed columns" "\<lambda>st. term_view (fst st)" "\<lambda>n. dumb_inv" draw_dumb
  for columns
proof
  fix n :: nat and st :: "terminal \<times> bool" and c
  assume inv: "dumb_inv st" and c: "plain c"
  obtain t b where st: "st = (t, b)" by fastforce
  show "\<exists>st'. dumb_feed columns st c = Inr st' \<and> dumb_inv st' \<and>
      term_view (fst st') = page_step draw_dumb (term_view (fst st)) c"
  proof (cases "c = CHR 0x0A \<or> c = CHR 0x0D")
    case True
    have "Suc (nat (current_line t)) = length (term_data t)"
      using inv dumb_term_ok [of t] unfolding st dumb_inv_def dumb_ok_def term_ok_def fst_conv by linarith
    moreover have "0 \<le> current_line t"
      using inv dumb_term_ok [of t] by (simp add: st dumb_inv_def term_ok_def)
    ultimately show ?thesis
      using True inv
      by (auto simp: st dumb_feed_def dumb_inv_def dumb_ok_def term_view_def page_step_def nat_add_distrib)
  next
    case False
    with c have p: "printable c" by (simp add: plain_def)
    then have n: "c \<notin> {CHR 0x0A, CHR 0x0D, CHR 0x08, CHR 0x07}" by (auto simp: printable_def)
    have l: "letter_code c = of_nat (of_char c)"
      using p by (intro letter_code_ascii) (simp add: printable_def)
    have "0 \<le> current_char t" using inv by (simp add: st dumb_inv_def dumb_ok_def)
    then show ?thesis
      using False inv
      by (simp add: st dumb_feed_write [OF inv [unfolded st] n])
        (simp add: dumb_inv_def dumb_ok_def term_view_def page_step_def draw_dumb_def l nat_add_distrib)
  qed
qed

section \<open>Rows\<close>

lemma wraps_from:
  "0 \<le> col \<Longrightarrow> 1 \<le> count \<Longrightarrow> count \<le> col + 1 \<Longrightarrow>
   wraps col count xs = (count + int (length xs) - 1) div (col + 1)"
proof (induction xs arbitrary: count)
  case Nil
  then show ?case by (simp add: div_pos_pos_trivial)
next
  case (Cons x xs)
  show ?case
  proof (cases "count > col")
    case True
    with Cons.prems have c: "count = col + 1" by simp
    have "(count + int (length (x # xs)) - 1) div (col + 1) = (int (length xs) + (col + 1) * 1) div (col + 1)"
      by (simp add: c algebra_simps)
    also have "\<dots> = int (length xs) div (col + 1) + 1"
      using Cons.prems(1) by (subst div_mult_self2) simp_all
    finally show ?thesis using True Cons.IH [of 1] Cons.prems(1) by simp
  next
    case False
    with Cons.IH [of "count + 1"] Cons.prems show ?thesis by (simp add: algebra_simps)
  qed
qed

lemma wraps_line:
  "0 \<le> col \<Longrightarrow> xs \<noteq> [] \<Longrightarrow> wraps col 0 xs = (int (length xs) - 1) div (col + 1)"
  using wraps_from [of col 1 "tl xs"] by (cases xs) simp_all

section \<open>Properties\<close>



text \<open>The rows a terminal counts: one for an empty line, and one for every started group of
  \<open>columns + 1\<close> symbols of another, one symbol more than the width the count is asked for.\<close>

theorem line_recount_rows:
  assumes "0 \<le> columns"
  shows "line_count (fst (line_recount columns t)) =
    sum_list (map (\<lambda>l. if l = [] then 1 else (int (length l) - 1) div (columns + 1) + 1) (term_data t))"
proof -
  have w: "wraps columns 0 l + 1 = (if l = [] then 1 else (int (length l) - 1) div (columns + 1) + 1)"
    for l :: "symbol list"
    using wraps_line [OF assms, of l] by simp
  have "int (length ls) + sum_list (map (wraps columns 0) ls) = sum_list (map (\<lambda>l. wraps columns 0 l + 1) ls)"
    for ls :: "symbol list list"
    by (induction ls) simp_all
  then show ?thesis by (simp add: line_recount_def line_count_def Let_def w)
qed

theorem line_recount_rows_witness:
  "line_count (fst (line_recount 1 (new_terminal\<lparr>term_data := [[], replicate 3 (dumb_symbol 65)]\<rparr>))) = 3"
  by (subst line_recount_rows) (simp_all add: numeral_eq_Suc)

text \<open>The name of a terminal type finds the type again: for the three types there are, and any
  other number goes to the type Null.\<close>

theorem term_type_roundtrip:
  "term_type_number (term_type_name t) = (if t = 1 then 1 else if t = 2 then 2 else 0)"
  by (simp add: term_type_number_def term_type_name_def create_term_def term_type_def)

end
