(* ===== verification/Linux_Term.thy ===== *)
theory Linux_Term
  imports Terminal Cxx_Numbers
begin

text \<open>
  \<open>src/client/term/terms/linux.cpp\<close>: the terminal with cursor movement and colours.  The
  size of the screen and the UTF-8 decoder \<open>to_utf32\<close>, which throws on malformed input, are
  arguments.  Signed arithmetic is checked against the range of \<open>int\<close>.
\<close>

section \<open>State\<close>

record linux_state =
  lx_term :: terminal
  lx_buffer :: string
  lx_foreground :: color
  lx_background :: color
  lx_light :: bool
  lx_swaped :: bool
  lx_foreground_index :: int

definition color_palate :: "(color \<times> color) list" where
  "color_palate =
     [((0, 0, 0), (128, 128, 128)), ((128, 0, 0), (255, 0, 0)), ((0, 128, 0), (0, 255, 0)),
      ((128, 128, 0), (255, 255, 0)), ((0, 0, 128), (0, 0, 255)), ((128, 0, 128), (255, 0, 255)),
      ((0, 128, 128), (0, 255, 255)), ((192, 192, 192), (255, 255, 255))]"

definition palate :: "int \<Rightarrow> (color \<times> color) outcome" where
  "palate i = (if i < 0 then Inl UB else vec_get color_palate (nat i))"

definition reset :: "int \<Rightarrow> linux_state \<Rightarrow> linux_state" where
  "reset type st =
     (let st1 = (if type = 1 \<or> type = 3
                 then st\<lparr>lx_foreground := snd (color_palate ! 7), lx_foreground_index := 0, lx_light := True\<rparr>
                 else st);
          st2 = (if type = 2 \<or> type = 3 then st1\<lparr>lx_background := fst (color_palate ! 0)\<rparr> else st1)
      in if type = 3 then st2\<lparr>lx_swaped := False\<rparr> else st2)"

definition new_linux :: linux_state where
  "new_linux = reset 3
     \<lparr>lx_term = new_terminal, lx_buffer = [], lx_foreground = (0, 0, 0), lx_background = (0, 0, 0),
      lx_light = True, lx_swaped = False, lx_foreground_index = 0\<rparr>"

definition linux_symbol :: "linux_state \<Rightarrow> 32 word \<Rightarrow> symbol" where
  "linux_symbol st l =
     \<lparr>sym_letter = l, sym_foreground = lx_foreground st, sym_background = lx_background st,
      sym_bold = False, sym_italic = False, sym_underline = False\<rparr>"

text \<open>A value of type \<open>int\<close>: overflow is undefined.\<close>

definition int_value :: "int \<Rightarrow> int outcome" where
  "int_value v = (if - (2 ^ 31) \<le> v \<and> v < 2 ^ 31 then Inr v else Inl UB)"

definition atoi :: "string \<Rightarrow> int outcome" where
  "atoi s =
     (case strto 10 s of
        None \<Rightarrow> Inr 0
      | Some (negative, digits, used) \<Rightarrow>
          int_value (if negative then - int (number 10 digits) else int (number 10 digits)))"

section \<open>Writing\<close>

text \<open>The guard compares as unsigned values: a negative line is above the size.\<close>

definition add_letter :: "32 word \<Rightarrow> linux_state \<Rightarrow> linux_state outcome" where
  "add_letter letter st =
     (let t = lx_term st in
      if current_line t < 0 \<or> int (length (term_data t)) < current_line t then Inr st
      else
        bind (current t) (\<lambda>line.
        bind (place (linux_symbol st 32) (linux_symbol st letter) (current_char t) line) (\<lambda>line'.
        bind (int_value (current_char t + 1)) (\<lambda>c.
        Inr (st\<lparr>lx_term := (set_current line' t)\<lparr>current_char := c\<rparr>\<rparr>)))))"

section \<open>Escape sequences\<close>

definition with_term :: "(terminal \<Rightarrow> terminal) \<Rightarrow> linux_state \<Rightarrow> linux_state" where
  "with_term f st = st\<lparr>lx_term := f (lx_term st)\<rparr>"

text \<open>\<open>H\<close>: the column is read \<open>offset\<close> characters after the line; without a
  semicolon \<open>offset\<close> is \<open>npos\<close> and the pointer leaves the string.\<close>

definition cursor_home :: "string \<Rightarrow> linux_state \<Rightarrow> linux_state outcome" where
  "cursor_home buf st =
     bind (atoi (drop 1 buf)) (\<lambda>l.
     bind (int_value (l - 1)) (\<lambda>line.
     case find_pos (\<lambda>c. c = CHR '';'') buf of
       None \<Rightarrow> Inl UB
     | Some offset \<Rightarrow>
         bind (atoi (drop offset (drop 1 buf))) (\<lambda>c.
         bind (int_value (c - 1)) (\<lambda>column.
         Inr (with_term (\<lambda>t. t\<lparr>current_line := (if line = - 1 then 0 else line),
           current_char := (if column = - 1 \<or> offset = 0 then 0 else column)\<rparr>) st)))))"

definition clear_screen :: "int \<Rightarrow> linux_state \<Rightarrow> linux_state" where
  "clear_screen columns = with_term (\<lambda>t. fst (line_recount columns (t\<lparr>term_data := [[]]\<rparr>)))"

text \<open>The last digit as C++ computes it, with the sign of the value.\<close>

definition last_digit :: "int \<Rightarrow> int" where
  "last_digit v = (if v < 0 then - ((- v) mod 10) else v mod 10)"

text \<open>One value of \<open>m\<close>; the flag tells that the loop is left by \<open>break\<close>.\<close>

definition swap_colors :: "bool \<Rightarrow> linux_state \<Rightarrow> linux_state" where
  "swap_colors s st = st\<lparr>lx_foreground := lx_background st, lx_background := lx_foreground st, lx_swaped := s\<rparr>"

definition swap_group :: "linux_state \<Rightarrow> int \<Rightarrow> int" where
  "swap_group st grp =
     (if lx_swaped st then (if grp = 30 then 40 else if grp = 40 then 30 else grp) else grp)"

definition group_zero :: "linux_state \<Rightarrow> int \<Rightarrow> int \<Rightarrow> linux_state \<times> int \<times> int" where
  "group_zero st grp color =
     (if grp = 0 then
        (if color = 1 then (st\<lparr>lx_light := True\<rparr>, 30, lx_foreground_index st)
         else if color = 2 then (st\<lparr>lx_light := False\<rparr>, 30, lx_foreground_index st)
         else if color = 7 then (swap_colors True st, grp, color)
         else if color = 0 then (reset 3 st, grp, color)
         else (st, grp, color))
      else (st, grp, color))"

definition color_group :: "linux_state \<Rightarrow> int \<Rightarrow> int \<Rightarrow> (linux_state \<times> bool) outcome" where
  "color_group st grp color =
     (if grp = 30 then
        (if color = 9 then Inr (reset 1 st, False)
         else if color = 8 then Inr (st, True)
         else bind (palate color) (\<lambda>(dark, bright).
           Inr (st\<lparr>lx_foreground := (if \<not> lx_light st then dark else bright), lx_foreground_index := color\<rparr>, False)))
      else if grp = 40 then
        (if color = 9 then Inr (reset 2 st, False)
         else if color = 8 then Inr (st, True)
         else bind (palate color) (\<lambda>(dark, bright). Inr (st\<lparr>lx_background := dark\<rparr>, False)))
      else if grp = 90 then
        bind (palate color) (\<lambda>(dark, bright). Inr (st\<lparr>lx_foreground := bright\<rparr>, False))
      else if grp = 100 then
        bind (palate color) (\<lambda>(dark, bright). Inr (st\<lparr>lx_background := bright\<rparr>, False))
      else Inr (st, False))"

definition set_rendition :: "int \<Rightarrow> linux_state \<Rightarrow> (linux_state \<times> bool) outcome" where
  "set_rendition value st =
     (case group_zero st (swap_group st (value - last_digit value)) (last_digit value) of
        (st1, grp, color) \<Rightarrow>
          color_group (if grp = 20 \<and> color = 7 then swap_colors False st1 else st1) grp color)"

text \<open>The loop over the values, from index \<open>i\<close> of the text after the bracket.\<close>

function rendition_loop :: "string \<Rightarrow> nat \<Rightarrow> linux_state \<Rightarrow> linux_state outcome" where
  "rendition_loop cmd i st =
     (if i < length cmd then
        bind (if 1 < length cmd then stoi 10 (drop i cmd) else Inr (0, 0)) (\<lambda>(value, off).
        bind (set_rendition value st) (\<lambda>(st', leave).
          if leave then Inr st' else rendition_loop cmd (i + off + 1) st'))
      else Inr st)"
  by pat_completeness auto
termination
  by (relation "measure (\<lambda>(cmd, i, st). length cmd - i)") auto

declare rendition_loop.simps [simp del]

text \<open>\<open>K\<close>: blanks from \<open>start\<close> to \<open>end\<close>, which stay uninitialised for a
  value other than 0, 1, 2.\<close>

fun erase_from :: "nat \<Rightarrow> int \<Rightarrow> linux_state \<Rightarrow> linux_state outcome" where
  "erase_from 0 a st = Inr st"
| "erase_from (Suc n) a st =
     bind (add_letter 32 (with_term (\<lambda>t. t\<lparr>current_char := a\<rparr>) st)) (erase_from n (a + 1))"

definition erase_line :: "int \<Rightarrow> string \<Rightarrow> linux_state \<Rightarrow> linux_state outcome" where
  "erase_line columns buf st =
     bind (atoi (drop 1 buf)) (\<lambda>value.
     let backup = current_char (lx_term st);
         restore = (\<lambda>s. Inr (with_term (\<lambda>t. t\<lparr>current_char := backup\<rparr>) s)) in
     if value = 0 then bind (erase_from (nat (columns - backup)) backup st) restore
     else if value = 1 then bind (erase_from (nat backup) 0 st) restore
     else if value = 2 then bind (erase_from (nat columns) 0 st) restore
     else Inl UB)"

definition move_count :: "string \<Rightarrow> int outcome" where
  "move_count buf =
     (if 2 < length buf then bind (stoi 10 (drop 1 buf)) (\<lambda>(v, off). Inr v) else Inr 1)"

text \<open>\<open>data.size() > rows\<close> on unsigned values.\<close>

definition taller :: "terminal \<Rightarrow> int \<Rightarrow> bool" where
  "taller t rows \<longleftrightarrow> 0 \<le> rows \<and> rows < int (length (term_data t))"

definition move_left :: "string \<Rightarrow> linux_state \<Rightarrow> linux_state outcome" where
  "move_left buf st =
     bind (move_count buf) (\<lambda>v. bind (int_value (current_char (lx_term st) - v)) (\<lambda>c.
     Inr (with_term (\<lambda>t. t\<lparr>current_char := (if c < 0 then 0 else c)\<rparr>) st)))"

definition move_right :: "int \<Rightarrow> string \<Rightarrow> linux_state \<Rightarrow> linux_state outcome" where
  "move_right columns buf st =
     bind (move_count buf) (\<lambda>v. bind (int_value (current_char (lx_term st) + v)) (\<lambda>c.
     Inr (with_term (\<lambda>t. t\<lparr>current_char := (if columns < c then columns else c)\<rparr>) st)))"

definition move_up :: "int \<Rightarrow> string \<Rightarrow> linux_state \<Rightarrow> linux_state outcome" where
  "move_up rows buf st =
     (let t = lx_term st; cap = (if taller t rows then int (length (term_data t)) - rows else 0) in
      bind (move_count buf) (\<lambda>v. bind (int_value (current_line t - v)) (\<lambda>l.
      Inr (with_term (\<lambda>t. t\<lparr>current_line := (if l < cap then cap else l)\<rparr>) st))))"

definition move_down :: "int \<Rightarrow> string \<Rightarrow> linux_state \<Rightarrow> linux_state outcome" where
  "move_down rows buf st =
     (let t = lx_term st; cap = (if taller t rows then int (length (term_data t)) else rows) in
      bind (move_count buf) (\<lambda>v. bind (int_value (current_line t + v)) (\<lambda>l.
      Inr (with_term (\<lambda>t. t\<lparr>current_line := (if cap < l then cap else l)\<rparr>) st))))"

definition parse_buffer :: "int \<Rightarrow> int \<Rightarrow> linux_state \<Rightarrow> linux_state outcome" where
  "parse_buffer columns rows st =
     (let buf = drop 1 (lx_buffer st) in
      if buf = [] \<or> hd buf \<noteq> CHR ''['' then Inr st
      else if buf = ''[?2004h'' \<or> buf = ''[?2004l'' then Inr st
      else if last buf = CHR ''H'' then cursor_home buf st
      else if last buf = CHR ''J'' then Inr (clear_screen columns st)
      else if last buf = CHR ''m'' then rendition_loop (drop 1 buf) 0 st
      else if last buf = CHR ''K'' then erase_line columns buf st
      else if last buf = CHR ''D'' then move_left buf st
      else if last buf = CHR ''C'' then move_right columns buf st
      else if last buf = CHR ''A'' then move_up rows buf st
      else if last buf = CHR ''B'' then move_down rows buf st
      else Inr st)"

section \<open>add_text\<close>

text \<open>\<open>std::isalpha\<close> takes the promoted \<open>char\<close>, which is negative above 127 and
  outside the domain of the function but for the value of \<open>EOF\<close>.\<close>

definition isalpha :: "char \<Rightarrow> bool outcome" where
  "isalpha c =
     (let n = of_char c :: nat in
      if n < 128 then Inr (65 \<le> n \<and> n \<le> 90 \<or> 97 \<le> n \<and> n \<le> 122)
      else if n = 255 then Inr False else Inl UB)"

definition line_feed :: "linux_state \<times> bool \<Rightarrow> (linux_state \<times> bool) outcome" where
  "line_feed x =
     (case x of (st, lines_added) \<Rightarrow>
      let t = lx_term st in
      bind (int_value (current_line t + 1)) (\<lambda>l.
      if l = int (length (term_data t))
      then Inr (st\<lparr>lx_term := t\<lparr>current_line := l, term_data := term_data t @ [[]]\<rparr>\<rparr>, True)
      else Inr (st\<lparr>lx_term := t\<lparr>current_line := l\<rparr>\<rparr>, lines_added)))"

definition back_space :: "int \<Rightarrow> linux_state \<times> bool \<Rightarrow> (linux_state \<times> bool) outcome" where
  "back_space columns x =
     (case x of (st, lines_added) \<Rightarrow>
      let t = lx_term st; c = current_char t in
      bind (current t) (\<lambda>line.
      if c > 0 then
        (let line' = (if c = int (length line) then butlast line
                      else if c < int (length line) then line[nat c := (line ! nat c)\<lparr>sym_letter := 32\<rparr>]
                      else line)
         in if columns = 0 then Inl UB
            else Inr (st\<lparr>lx_term := (set_current line' t)\<lparr>current_char := c - 1\<rparr>\<rparr>,
                      lines_added \<or> (c - 1) mod columns = 0))
      else Inr (st, lines_added)))"

definition add_letters :: "(string \<Rightarrow> 32 word list option) \<Rightarrow> linux_state \<Rightarrow> linux_state outcome" where
  "add_letters to_utf32 st =
     (case to_utf32 (lx_buffer st) of
        None \<Rightarrow> Inl (Throw Std_exception)
      | Some letters \<Rightarrow>
          bind (foldM (\<lambda>s l. add_letter l s) st letters) (\<lambda>st'. Inr (st'\<lparr>lx_buffer := []\<rparr>)))"

definition linux_feed ::
  "(string \<Rightarrow> 32 word list option) \<Rightarrow> int \<Rightarrow> int \<Rightarrow> linux_state \<times> bool \<Rightarrow> char \<Rightarrow> (linux_state \<times> bool) outcome" where
  "linux_feed to_utf32 columns rows x letter =
     (case x of (st, lines_added) \<Rightarrow>
      let buffer = lx_buffer st in
      if buffer \<noteq> [] \<and> hd buffer = CHR 0x1B then
        (let st' = st\<lparr>lx_buffer := buffer @ [letter]\<rparr> in
         bind (isalpha letter) (\<lambda>alpha.
         if alpha then
           bind (parse_buffer columns rows st') (\<lambda>st''. Inr (st''\<lparr>lx_buffer := []\<rparr>, lines_added))
         else Inr (st', lines_added)))
      else if 128 \<le> (of_char letter :: nat) \<or> letter = CHR 0x1B then
        Inr (st\<lparr>lx_buffer := buffer @ [letter]\<rparr>, lines_added)
      else if letter = CHR 0x0A then line_feed x
      else if letter = CHR 0x0D then Inr (with_term (\<lambda>t. t\<lparr>current_char := 0\<rparr>) st, lines_added)
      else if letter = CHR 0x08 then back_space columns x
      else if letter = CHR 0x07 then Inr x
      else bind (add_letters to_utf32 (st\<lparr>lx_buffer := buffer @ [letter]\<rparr>)) (\<lambda>st'. Inr (st', lines_added)))"

definition linux_add_text ::
  "(string \<Rightarrow> 32 word list option) \<Rightarrow> int \<Rightarrow> int \<Rightarrow> string \<Rightarrow> linux_state \<Rightarrow> linux_state outcome" where
  "linux_add_text to_utf32 columns rows text st =
     bind (foldM (linux_feed to_utf32 columns rows) (st, False) (text_bytes text)) (\<lambda>(st', lines_added).
       Inr (if lines_added then with_term (\<lambda>t. fst (line_recount columns t)) st' else st'))"

section \<open>The contract of plain text\<close>

text \<open>What the code relies on of the decoder here: ASCII is its own decoding.\<close>

definition ascii_decoder :: "(string \<Rightarrow> 32 word list option) \<Rightarrow> bool" where
  "ascii_decoder to_utf32 \<longleftrightarrow> (\<forall>c. printable c \<longrightarrow> to_utf32 [c] = Some [of_nat (of_char c)])"

definition draw_linux :: "color \<Rightarrow> color \<Rightarrow> char \<Rightarrow> symbol" where
  "draw_linux fg bg c =
     \<lparr>sym_letter = of_nat (of_char c), sym_foreground = fg, sym_background = bg,
      sym_bold = False, sym_italic = False, sym_underline = False\<rparr>"

definition linux_ok ::
  "(string \<Rightarrow> 32 word list option) \<Rightarrow> color \<Rightarrow> color \<Rightarrow> nat \<Rightarrow> linux_state \<times> bool \<Rightarrow> bool" where
  "linux_ok to_utf32 fg bg n x \<longleftrightarrow>
     ascii_decoder to_utf32 \<and> term_ok (lx_term (fst x)) \<and> lx_buffer (fst x) = [] \<and>
     lx_foreground (fst x) = fg \<and> lx_background (fst x) = bg \<and>
     current_line (lx_term (fst x)) + int n < 2 ^ 31 \<and> current_char (lx_term (fst x)) + int n < 2 ^ 31"

lemma int_value_in [simp]: "0 \<le> v \<Longrightarrow> v < 2147483648 \<Longrightarrow> int_value v = Inr v"
  by (simp add: int_value_def)

lemma linux_symbol_draw:
  "linux_symbol st (of_nat (of_char c)) = draw_linux (lx_foreground st) (lx_background st) c"
  by (simp add: linux_symbol_def draw_linux_def)

lemma linux_symbol_blank:
  "linux_symbol st 32 = draw_linux (lx_foreground st) (lx_background st) (CHR '' '')"
  by (simp add: linux_symbol_def draw_linux_def)

lemma add_letter_ok:
  assumes "term_ok (lx_term st)" and "current_char (lx_term st) + 1 < 2 ^ 31"
  shows "add_letter l st = Inr (st\<lparr>lx_term := (lx_term st)\<lparr>
    term_data := (term_data (lx_term st))[nat (current_line (lx_term st)) :=
      put_symbol (linux_symbol st 32) (linux_symbol st l) (nat (current_char (lx_term st)))
        (term_data (lx_term st) ! nat (current_line (lx_term st)))],
    current_char := current_char (lx_term st) + 1\<rparr>\<rparr>)"
proof -
  from assms have "0 \<le> current_char (lx_term st)" "0 \<le> current_line (lx_term st)"
    "current_line (lx_term st) < int (length (term_data (lx_term st)))"
    by (simp_all add: term_ok_def)
  with assms show ?thesis
    by (simp add: add_letter_def Let_def current_ok place_put set_current_def)
qed

lemma linux_feed_printable:
  assumes "printable c" and "lx_buffer st = []"
  shows "linux_feed to_utf32 columns rows (st, b) c =
    bind (add_letters to_utf32 (st\<lparr>lx_buffer := [c]\<rparr>)) (\<lambda>st'. Inr (st', b))"
proof -
  from assms(1) have "\<not> 128 \<le> (of_char c :: nat)" "c \<notin> {CHR 0x1B, CHR 0x0A, CHR 0x0D, CHR 0x08, CHR 0x07}"
    by (auto simp: printable_def)
  with assms(2) show ?thesis by (simp add: linux_feed_def)
qed

interpretation linux: plain_terminal "linux_feed to_utf32 columns rows" "\<lambda>x. term_view (lx_term (fst x))"
  "linux_ok to_utf32 fg bg" "draw_linux fg bg"
  for to_utf32 columns rows fg bg
proof
  fix n :: nat and x :: "linux_state \<times> bool" and c
  assume ok: "linux_ok to_utf32 fg bg (Suc n) x" and c: "plain c"
  obtain st b where x: "x = (st, b)" by fastforce
  let ?t = "lx_term st"
  from ok have t: "term_ok ?t" "0 \<le> current_char ?t" "0 \<le> current_line ?t"
    "current_line ?t < int (length (term_data ?t))" "current_char ?t + 1 < 2 ^ 31"
    "current_line ?t + 1 < 2 ^ 31" "lx_buffer st = []" "lx_foreground st = fg" "lx_background st = bg"
    by (simp_all add: x linux_ok_def term_ok_def)
  show "\<exists>x'. linux_feed to_utf32 columns rows x c = Inr x' \<and> linux_ok to_utf32 fg bg n x' \<and>
      term_view (lx_term (fst x')) = page_step (draw_linux fg bg) (term_view (lx_term (fst x))) c"
  proof (cases "printable c")
    case True
    with ok have u: "to_utf32 [c] = Some [of_nat (of_char c)]" by (simp add: linux_ok_def ascii_decoder_def)
    let ?s = "st\<lparr>lx_buffer := [c]\<rparr>"
    have a: "add_letter (of_nat (of_char c)) ?s = Inr (?s\<lparr>lx_term := ?t\<lparr>
        term_data := (term_data ?t)[nat (current_line ?t) := put_symbol (draw_linux fg bg (CHR '' ''))
          (draw_linux fg bg c) (nat (current_char ?t)) (term_data ?t ! nat (current_line ?t))],
        current_char := current_char ?t + 1\<rparr>\<rparr>)"
      using t by (subst add_letter_ok) (simp_all add: linux_symbol_draw linux_symbol_blank)
    have "c \<noteq> CHR 0x0A" "c \<noteq> CHR 0x0D" using True by (auto simp: printable_def)
    then show ?thesis
      using t ok by (simp add: x linux_feed_printable [OF True t(7)] add_letters_def u a)
        (simp add: linux_ok_def term_ok_def term_view_def page_step_def nat_add_distrib)
  next
    case False
    with c have "c = CHR 0x0A \<or> c = CHR 0x0D" by (simp add: plain_def)
    moreover have "current_line ?t + 1 = int (length (term_data ?t)) \<longleftrightarrow>
        Suc (nat (current_line ?t)) = length (term_data ?t)"
      using t(3) by linarith
    ultimately show ?thesis
      using t ok by (elim disjE) (auto simp: x linux_feed_def line_feed_def with_term_def linux_ok_def
        term_ok_def term_view_def page_step_def nat_add_distrib Let_def)
  qed
qed


lemma new_linux_ok:
  "ascii_decoder to_utf32 \<Longrightarrow> n < 2 ^ 31 \<Longrightarrow> linux_ok to_utf32 (255, 255, 255) (0, 0, 0) n (new_linux, False)"
  by (simp add: linux_ok_def new_linux_def reset_def term_ok_def new_terminal_def color_palate_def)

lemma new_dumb_inv: "dumb_inv (new_terminal, False)"
  by (simp add: dumb_inv_def dumb_ok_def new_terminal_def)

lemma line_recount_view [simp]: "term_view (fst (line_recount columns t)) = term_view t"
  by (simp add: line_recount_def term_view_def Let_def)

lemma dumb_add_text_view:
  "foldM (dumb_feed columns) (t, False) (text_bytes text) = Inr (t', b) \<Longrightarrow>
   \<exists>t''. dumb_add_text columns text t = Inr t'' \<and> term_view t'' = term_view t'"
  by (auto simp: dumb_add_text_def)

lemma linux_add_text_view:
  "foldM (linux_feed to_utf32 columns rows) (st, False) (text_bytes text) = Inr (st', b) \<Longrightarrow>
   \<exists>st''. linux_add_text to_utf32 columns rows text st = Inr st'' \<and>
     term_view (lx_term st'') = term_view (lx_term st')"
  by (auto simp: linux_add_text_def with_term_def)

section \<open>Values of m\<close>

definition index_ok :: "linux_state \<Rightarrow> bool" where
  "index_ok st \<longleftrightarrow> 0 \<le> lx_foreground_index st \<and> lx_foreground_index st \<le> 7"

lemma palate_returns: "returns (palate i) \<longleftrightarrow> 0 \<le> i \<and> i \<le> 7"
  by (auto simp: palate_def vec_get_def color_palate_def)

lemma palate_in: "0 \<le> i \<Longrightarrow> i \<le> 7 \<Longrightarrow> \<exists>d b. palate i = Inr (d, b)"
  using palate_returns [of i] by (auto simp: returns_iff)

lemma palate_out: "7 < i \<Longrightarrow> palate i = Inl UB"
  by (simp add: palate_def vec_get_def color_palate_def)

lemma reset_index [simp]: "index_ok st \<Longrightarrow> index_ok (reset type st)"
  by (simp add: index_ok_def reset_def Let_def)

lemma swap_index [simp]: "index_ok (swap_colors s st) = index_ok st"
  by (simp add: index_ok_def swap_colors_def)

lemma color_group_defined:
  assumes "index_ok st" and "0 \<le> color" and "color \<le> 9"
  shows "if (grp = 90 \<or> grp = 100) \<and> 8 \<le> color then color_group st grp color = Inl UB
    else \<exists>st' leave. color_group st grp color = Inr (st', leave) \<and> index_ok st'"
proof (cases "color \<le> 7")
  case True
  then obtain d b where "palate color = Inr (d, b)" using palate_in assms(2) by blast
  moreover have "Ex Not" by (rule exI [of _ False]) simp
  ultimately show ?thesis
    using True assms by (cases "lx_light st") (simp_all add: color_group_def index_ok_def)
next
  case False
  then have "palate color = Inl UB" "color = 8 \<or> color = 9" using assms(3) by (auto intro: palate_out)
  with assms show ?thesis by (auto simp: color_group_def)
qed

lemma group_zero_ok:
  assumes "index_ok st" and "0 \<le> color" and "color \<le> 9" and "group_zero st grp color = (st1, g, c)"
  shows "index_ok st1 \<and> 0 \<le> c \<and> c \<le> 9 \<and>
    (g = 90 \<or> g = 100) = (grp = 90 \<or> grp = 100) \<and> (grp = 90 \<or> grp = 100 \<longrightarrow> c = color)"
  using assms by (auto simp: group_zero_def index_ok_def swap_colors_def reset_def Let_def split: if_splits)

text \<open>A value of the sequence for colours is taken without an error but for 98, 99, 108 and
  109, for which the code reads the palette of eight colours at 8 and 9; and the index of the colour that is
  kept for the values 1 and 2 stays an index of the palette.\<close>

theorem set_rendition_defined:
  assumes "0 \<le> value" and "0 \<le> lx_foreground_index st" and "lx_foreground_index st \<le> 7"
  shows "if value \<in> {98, 99, 108, 109} then set_rendition value st = Inl UB
    else \<exists>st' leave. set_rendition value st = Inr (st', leave) \<and>
      0 \<le> lx_foreground_index st' \<and> lx_foreground_index st' \<le> 7"
proof -
  have ok: "index_ok st" using assms by (simp add: index_ok_def)
  have l: "last_digit value = value mod 10" using assms(1) by (simp add: last_digit_def)
  let ?g = "swap_group st (value - value mod 10)"
  obtain st1 g c where z: "group_zero st ?g (value mod 10) = (st1, g, c)" by (cases "group_zero st ?g (value mod 10)")
  have d: "0 \<le> value mod 10" "value mod 10 \<le> 9" by simp_all
  have r: "set_rendition value st = color_group (if g = 20 \<and> c = 7 then swap_colors False st1 else st1) g c"
    by (simp add: set_rendition_def l z)
  note i = group_zero_ok [OF ok d z]
  have "index_ok (if g = 20 \<and> c = 7 then swap_colors False st1 else st1)" using i by simp
  note cg = color_group_defined [OF this, of c g]
  have m: "(?g = 90 \<or> ?g = 100) = (value - value mod 10 = 90 \<or> value - value mod 10 = 100)"
    by (simp add: swap_group_def)
  have "value \<in> {98, 99, 108, 109} \<longleftrightarrow>
      (value - value mod 10 = 90 \<or> value - value mod 10 = 100) \<and> 8 \<le> value mod 10"
    unfolding insert_iff empty_iff by presburger
  also have "\<dots> \<longleftrightarrow> (g = 90 \<or> g = 100) \<and> 8 \<le> c" using i m by auto
  finally have v: "value \<in> {98, 99, 108, 109} \<longleftrightarrow> (g = 90 \<or> g = 100) \<and> 8 \<le> c" .
  have c: "0 \<le> c" "c \<le> 9" using i by simp_all
  show ?thesis unfolding v r using cg [OF c] by (simp only: index_ok_def)
qed

theorem set_rendition_defined_witness:
  "set_rendition 98 new_linux = Inl UB \<and>
   (\<exists>st' leave. set_rendition 31 new_linux = Inr (st', leave) \<and>
      0 \<le> lx_foreground_index st' \<and> lx_foreground_index st' \<le> 7)"
  using set_rendition_defined [of 98 new_linux] set_rendition_defined [of 31 new_linux]
  by (simp add: new_linux_def reset_def)

section \<open>Properties of the screen\<close>

text \<open>(C26) Lines of printable ASCII, sent with carriage return and line feed, are what both
  terminals hold in the end, symbol by symbol in the colours of the terminal, with the cursor behind the last one.\<close>

theorem terminals_show_lines:
  assumes "ls \<noteq> []" and "list_all (list_all printable) ls" and "length (crlf ls) < 2 ^ 31"
    and "ascii_decoder to_utf32"
  shows "(\<exists>t. dumb_add_text columns (crlf ls) new_terminal = Inr t \<and>
      term_view t = (map (map (draw_linux (85, 255, 85) (0, 0, 0))) ls, length ls - 1, length (last ls))) \<and>
    (\<exists>st. linux_add_text to_utf32 columns rows (crlf ls) new_linux = Inr st \<and>
      term_view (lx_term st) =
        (map (map (draw_linux (255, 255, 255) (0, 0, 0))) ls, length ls - 1, length (last ls)))"
proof -
  note plain = crlf_plain [OF assms(2)] and bytes = crlf_text [OF assms(2)]
  have page: "foldl (page_step draw) ([[]], 0, 0) (crlf ls) =
      (map (map draw) ls, length ls - 1, length (last ls))" for draw
    using page_crlf [OF assms(1,2), of draw "[]"] by simp
  have new: "term_view new_terminal = ([[]], 0, 0)" by (simp add: term_view_def new_terminal_def)
  have draw: "draw_dumb = draw_linux (85, 255, 85) (0, 0, 0)"
    by (rule ext) (simp add: draw_dumb_def dumb_symbol_def draw_linux_def)
  obtain t b where "foldM (dumb_feed columns) (new_terminal, False) (text_bytes (crlf ls)) = Inr (t, b)"
    "term_view t = foldl (page_step draw_dumb) (term_view new_terminal) (crlf ls)"
    using dumb.feed_text [OF _ plain, of "(new_terminal, False)" columns] new_dumb_inv by (auto simp: bytes)
  moreover obtain st b' where
    "foldM (linux_feed to_utf32 columns rows) (new_linux, False) (text_bytes (crlf ls)) = Inr (st, b')"
    "term_view (lx_term st) =
      foldl (page_step (draw_linux (255, 255, 255) (0, 0, 0))) (term_view new_terminal) (crlf ls)"
    using linux.feed_text [OF new_linux_ok [OF assms(4,3)] plain, of columns rows]
    by (auto simp: bytes new_linux_def reset_def)
  ultimately show ?thesis
    using dumb_add_text_view linux_add_text_view by (fastforce simp: page new draw)
qed

definition latin :: "string \<Rightarrow> 32 word list option" where
  "latin s = Some (map (\<lambda>c. of_nat (of_char c)) s)"

theorem terminals_show_lines_witness:
  "\<exists>st. linux_add_text latin 80 24 (crlf [''ab'', ''c'']) new_linux = Inr st \<and>
     term_view (lx_term st) =
       (map (map (draw_linux (255, 255, 255) (0, 0, 0))) [''ab'', ''c''], 1, 1)"
  using terminals_show_lines [of "[''ab'', ''c'']" latin 80 24]
  by (simp add: printable_def ascii_decoder_def latin_def)

text \<open>Two sequences that programs send all the time are undefined: the cursor home without
  arguments makes a pointer in front of the text, and a letter after the screen was cleared with the cursor on the
  second line is written behind the lines, as the guard of \<open>add_letter\<close> lets the size itself pass.\<close>

theorem escape_UB:
  assumes "lx_buffer st = []"
  shows "linux_add_text to_utf32 columns rows [CHR 0x1B, CHR ''['', CHR ''H''] st = Inl UB \<and>
    (current_line (lx_term st) = 1 \<and> ascii_decoder to_utf32 \<and> printable c \<longrightarrow>
      linux_add_text to_utf32 columns rows [CHR 0x1B, CHR ''['', CHR ''2'', CHR ''J'', c] st = Inl UB)"
proof -
  have e: "linux_feed to_utf32 columns rows (s, b) (CHR 0x1B) = Inr (s\<lparr>lx_buffer := [CHR 0x1B]\<rparr>, b)"
    if "lx_buffer s = []" for s b
    using that by (simp add: linux_feed_def)
  have n: "linux_feed to_utf32 columns rows (s, b) x = Inr (s\<lparr>lx_buffer := lx_buffer s @ [x]\<rparr>, b)"
    if "lx_buffer s = CHR 0x1B # r" "x = CHR ''['' \<or> x = CHR ''2''" for s b x r
    using that by (auto simp: linux_feed_def isalpha_def)
  have h: "linux_feed to_utf32 columns rows (s, b) (CHR ''H'') = Inl UB"
    if "lx_buffer s = [CHR 0x1B, CHR ''['']" for s b
    using that by (simp add: linux_feed_def isalpha_def parse_buffer_def cursor_home_def atoi_def strto_def
      skip_prefix_def is_digit_def digit_value_def hex_value_def int_value_def)
  have j: "linux_feed to_utf32 columns rows (s, b) (CHR ''J'') =
      Inr ((clear_screen columns (s\<lparr>lx_buffer := [CHR 0x1B, CHR ''['', CHR ''2'', CHR ''J'']\<rparr>))\<lparr>lx_buffer := []\<rparr>, b)"
    if "lx_buffer s = [CHR 0x1B, CHR ''['', CHR ''2'']" for s b
    using that by (simp add: linux_feed_def isalpha_def parse_buffer_def)
  have home: "linux_add_text to_utf32 columns rows [CHR 0x1B, CHR ''['', CHR ''H''] st = Inl UB"
    using assms by (simp add: linux_add_text_def text_bytes_def e n h)
  have clear: "linux_add_text to_utf32 columns rows [CHR 0x1B, CHR ''['', CHR ''2'', CHR ''J'', c] st = Inl UB"
    if l: "current_line (lx_term st) = 1" and a: "ascii_decoder to_utf32" and p: "printable c"
  proof -
    have nz: "c \<noteq> CHR 0x00" using p by (auto simp: printable_def)
    have "to_utf32 [c] = Some [of_nat (of_char c)]" using a p by (simp add: ascii_decoder_def)
    then show ?thesis
      using assms nz l
      by (simp add: linux_add_text_def text_bytes_def e n j linux_feed_printable [OF p] add_letters_def
        add_letter_def clear_screen_def with_term_def line_recount_def current_def vec_get_def Let_def)
  qed
  show ?thesis using home clear by blast
qed

theorem escape_UB_witness:
  "linux_add_text latin 80 24 [CHR 0x1B, CHR ''['', CHR ''2'', CHR ''J'', CHR ''x'']
     (with_term (\<lambda>t. t\<lparr>current_line := 1\<rparr>) new_linux) = Inl UB"
  using escape_UB [of "with_term (\<lambda>t. t\<lparr>current_line := 1\<rparr>) new_linux" latin 80 24 "CHR ''x''"]
  by (simp add: new_linux_def reset_def with_term_def printable_def ascii_decoder_def latin_def)


end
