(* ===== verification/Tables.thy ===== *)
theory Tables
  imports Protocol Cxx_Numbers
begin

text \<open>
  What the models of the client share (\<open>src/client/models/*.cpp\<close>): rows held in a
  vector, the calls of Qt that announce a change of them, and the two loops by which
  \<open>objects/server.cpp\<close> brings the rows up to a message: \<open>prune\<close> removes the rows the
  message does not name, \<open>upsert\<close> updates or appends one row for each of its items.

  The models with two vectors of the same length change both in the same calls: a row is then the
  pair.  \<open>sync\<close> is what the two loops shall do, and the locale \<open>keyed_table\<close> proves it
  for every model that says how it updates and how it appends a row.
\<close>

section \<open>Tables\<close>

datatype notice =
    Begin_insert int int
  | End_insert
  | Begin_remove int int
  | End_remove
  | Reset_model
  | Count_changed
  | Data_changed "int \<times> int" "int \<times> int" "int list"

record 'r table =
  tbl_rows :: "'r list"
  tbl_log :: "notice list"

definition tell :: "notice list \<Rightarrow> ('r, 'z) table_scheme \<Rightarrow> ('r, 'z) table_scheme" where
  "tell ns t = t\<lparr>tbl_log := tbl_log t @ ns\<rparr>"

definition set_row :: "nat \<Rightarrow> 'r \<Rightarrow> ('r, 'z) table_scheme \<Rightarrow> ('r, 'z) table_scheme" where
  "set_row a r t = t\<lparr>tbl_rows := (tbl_rows t)[a := r]\<rparr>"

definition row_count :: "('r, 'z) table_scheme \<Rightarrow> int" where
  "row_count t = int (length (tbl_rows t))"

definition get_row :: "int \<Rightarrow> ('r, 'z) table_scheme \<Rightarrow> 'r outcome" where
  "get_row a t = (if a < 0 then Inl UB else vec_get (tbl_rows t) (nat a))"

text \<open>\<open>insert(begin() + row, count, x)\<close> and \<open>erase(begin() + row, begin() + row +
  count)\<close>.  A negative count is a huge one for \<open>insert\<close>.\<close>

definition vec_insert :: "int \<Rightarrow> int \<Rightarrow> 'r \<Rightarrow> 'r list \<Rightarrow> 'r list outcome" where
  "vec_insert row count x xs =
     (if row < 0 \<or> int (length xs) < row then Inl UB
      else if count < 0 then Inl (Throw Std_exception)
      else Inr (take (nat row) xs @ replicate (nat count) x @ drop (nat row) xs))"

definition vec_erase :: "int \<Rightarrow> int \<Rightarrow> 'r list \<Rightarrow> 'r list outcome" where
  "vec_erase row count xs =
     (if row < 0 \<or> count < 0 \<or> int (length xs) < row + count then Inl UB
      else Inr (take (nat row) xs @ drop (nat (row + count)) xs))"

text \<open>\<open>insertRows\<close> and \<open>removeRows\<close>, the same in every model; \<open>counted\<close>
  tells whether the model has the signal \<open>changed_count\<close>.\<close>

definition insert_rows ::
  "bool \<Rightarrow> 'r \<Rightarrow> int \<Rightarrow> int \<Rightarrow> ('r, 'z) table_scheme \<Rightarrow> ('r, 'z) table_scheme outcome" where
  "insert_rows counted x row count t =
     bind (vec_insert row count x (tbl_rows t)) (\<lambda>rows.
     Inr (tell (Begin_insert row (row + count) # End_insert # (if counted then [Count_changed] else []))
       (t\<lparr>tbl_rows := rows\<rparr>)))"

definition remove_rows ::
  "bool \<Rightarrow> int \<Rightarrow> int \<Rightarrow> ('r, 'z) table_scheme \<Rightarrow> ('r, 'z) table_scheme outcome" where
  "remove_rows counted row count t =
     bind (vec_erase row count (tbl_rows t)) (\<lambda>rows.
     Inr (tell (Begin_remove row (row + count) # End_remove # (if counted then [Count_changed] else []))
       (t\<lparr>tbl_rows := rows\<rparr>)))"

lemma tell_simps [simp]:
  "tbl_rows (tell ns t) = tbl_rows t" "tbl_log (tell ns t) = tbl_log t @ ns"
  "table.more (tell ns t) = table.more t"
  by (simp_all add: tell_def)

lemma set_row_simps [simp]:
  "tbl_rows (set_row a r t) = (tbl_rows t)[a := r]" "tbl_log (set_row a r t) = tbl_log t"
  "table.more (set_row a r t) = table.more t"
  by (simp_all add: set_row_def)

lemma get_row_in [simp]: "a < length (tbl_rows t) \<Longrightarrow> get_row (int a) t = Inr (tbl_rows t ! a)"
  by (simp add: get_row_def)

lemma insert_rows_Inr:
  "insert_rows counted x row count t = Inr t' \<Longrightarrow> 0 \<le> row \<and> row \<le> row_count t \<and> 0 \<le> count \<and>
   tbl_rows t' = take (nat row) (tbl_rows t) @ replicate (nat count) x @ drop (nat row) (tbl_rows t)"
  by (auto simp: insert_rows_def vec_insert_def row_count_def split: if_splits)

lemma remove_rows_Inr:
  "remove_rows counted row count t = Inr t' \<Longrightarrow> 0 \<le> row \<and> 0 \<le> count \<and> row + count \<le> row_count t \<and>
   tbl_rows t' = take (nat row) (tbl_rows t) @ drop (nat (row + count)) (tbl_rows t)"
  by (auto simp: remove_rows_def vec_erase_def row_count_def split: if_splits)

lemma remove_row_at:
  "a < length (tbl_rows t) \<Longrightarrow> remove_rows counted (int a) 1 t =
   Inr (tell (Begin_remove (int a) (int a + 1) # End_remove # (if counted then [Count_changed] else []))
     (t\<lparr>tbl_rows := take a (tbl_rows t) @ drop (Suc a) (tbl_rows t)\<rparr>))"
  by (simp add: remove_rows_def vec_erase_def nat_add_distrib)

lemma append_row:
  "insert_rows counted x (row_count t) 1 t =
   Inr (tell (Begin_insert (row_count t) (row_count t + 1) # End_insert # (if counted then [Count_changed] else []))
     (t\<lparr>tbl_rows := tbl_rows t @ [x]\<rparr>))"
  by (simp add: insert_rows_def vec_insert_def row_count_def)

section \<open>The loops over a message\<close>

text \<open>The index stays when a row is removed: \<open>a--\<close> undoes the step of the loop.\<close>

lemma bind_cong [fundef_cong]:
  "m = m' \<Longrightarrow> (\<And>x. m' = Inr x \<Longrightarrow> f x = g x) \<Longrightarrow> bind m f = bind m' g"
  by (cases m') simp_all

function prune ::
  "('r \<Rightarrow> bool) \<Rightarrow> bool \<Rightarrow> nat \<Rightarrow> ('r, 'z) table_scheme \<Rightarrow> ('r, 'z) table_scheme outcome" where
  "prune found counted a t =
     (if a < length (tbl_rows t) then
        (if found (tbl_rows t ! a) then prune found counted (Suc a) t
         else bind (remove_rows counted (int a) 1 t) (prune found counted a))
      else Inr t)"
  by pat_completeness auto
termination
  by (relation "measure (\<lambda>(found, counted, a, t). length (tbl_rows t) - a)")
    (auto simp: remove_row_at)

declare prune.simps [simp del]

text \<open>The inner loop over the rows runs to its end, and tells whether it found one.\<close>

definition update_rows ::
  "('r \<Rightarrow> bool) \<Rightarrow> (nat \<Rightarrow> ('r, 'z) table_scheme \<Rightarrow> ('r, 'z) table_scheme outcome) \<Rightarrow>
   ('r, 'z) table_scheme \<Rightarrow> (('r, 'z) table_scheme \<times> bool) outcome" where
  "update_rows matches upd t =
     foldM (\<lambda>(t, found) a. bind (get_row (int a) t) (\<lambda>r.
         if matches r then bind (upd a t) (\<lambda>t'. Inr (t', True)) else Inr (t, found)))
       (t, False) [0..<length (tbl_rows t)]"

definition upsert ::
  "('r \<Rightarrow> bool) \<Rightarrow> (nat \<Rightarrow> ('r, 'z) table_scheme \<Rightarrow> ('r, 'z) table_scheme outcome) \<Rightarrow>
   (('r, 'z) table_scheme \<Rightarrow> ('r, 'z) table_scheme outcome) \<Rightarrow>
   ('r, 'z) table_scheme \<Rightarrow> ('r, 'z) table_scheme outcome" where
  "upsert matches upd add t =
     bind (update_rows matches upd t) (\<lambda>(t', found). if found then Inr t' else add t')"

section \<open>What the loops shall do\<close>

definition sync_one :: "('r \<Rightarrow> 'k) \<Rightarrow> ('d \<Rightarrow> 'k) \<Rightarrow> ('d \<Rightarrow> 'r \<Rightarrow> 'r) \<Rightarrow> ('d \<Rightarrow> 'r) \<Rightarrow> 'r list \<Rightarrow> 'd \<Rightarrow> 'r list" where
  "sync_one key dkey upd_row new_row rs d =
     (if dkey d \<in> key ` set rs then map (\<lambda>r. if key r = dkey d then upd_row d r else r) rs
      else rs @ [new_row d])"

definition sync :: "('r \<Rightarrow> 'k) \<Rightarrow> ('d \<Rightarrow> 'k) \<Rightarrow> ('d \<Rightarrow> 'r \<Rightarrow> 'r) \<Rightarrow> ('d \<Rightarrow> 'r) \<Rightarrow> 'd list \<Rightarrow> 'r list \<Rightarrow> 'r list" where
  "sync key dkey upd_row new_row ds rs =
     foldl (sync_one key dkey upd_row new_row) (filter (\<lambda>r. key r \<in> dkey ` set ds) rs) ds"

locale keyed_table =
  fixes key :: "'r \<Rightarrow> 'k" and dkey :: "'d \<Rightarrow> 'k"
    and upd :: "'d \<Rightarrow> nat \<Rightarrow> ('r, 'z) table_scheme \<Rightarrow> ('r, 'z) table_scheme outcome"
    and add :: "'d \<Rightarrow> ('r, 'z) table_scheme \<Rightarrow> ('r, 'z) table_scheme outcome"
    and upd_row :: "'d \<Rightarrow> 'r \<Rightarrow> 'r" and new_row :: "'d \<Rightarrow> 'r"
    and ok :: "('r, 'z) table_scheme \<Rightarrow> bool" and counted :: bool
  assumes upd_at: "ok t \<Longrightarrow> a < length (tbl_rows t) \<Longrightarrow> key (tbl_rows t ! a) = dkey d \<Longrightarrow>
      \<exists>t'. upd d a t = Inr t' \<and> ok t' \<and> tbl_rows t' = (tbl_rows t)[a := upd_row d (tbl_rows t ! a)]"
    and add_at: "ok t \<Longrightarrow> \<exists>t'. add d t = Inr t' \<and> ok t' \<and> tbl_rows t' = tbl_rows t @ [new_row d]"
    and remove_ok: "ok t \<Longrightarrow> remove_rows counted a n t = Inr t' \<Longrightarrow> ok t'"
    and upd_key: "key r = dkey d \<Longrightarrow> key (upd_row d r) = key r"
    and new_key: "key (new_row d) = dkey d"
begin

definition handle_items :: "'d list \<Rightarrow> ('r, 'z) table_scheme \<Rightarrow> ('r, 'z) table_scheme outcome" where
  "handle_items ds t =
     bind (prune (\<lambda>r. list_ex (\<lambda>d. key r = dkey d) ds) counted 0 t)
       (\<lambda>t. foldM (\<lambda>t d. upsert (\<lambda>r. key r = dkey d) (upd d) (add d) t) t ds)"

lemma prune_from:
  "ok t \<Longrightarrow> a \<le> length (tbl_rows t) \<Longrightarrow> \<exists>t'. prune found counted a t = Inr t' \<and> ok t' \<and>
     tbl_rows t' = take a (tbl_rows t) @ filter found (drop a (tbl_rows t))"
proof (induction "length (tbl_rows t) - a" arbitrary: a t rule: less_induct)
  case less
  show ?case
  proof (cases "a < length (tbl_rows t)")
    case True
    then have d: "drop a (tbl_rows t) = tbl_rows t ! a # drop (Suc a) (tbl_rows t)"
      by (simp add: Cons_nth_drop_Suc)
    show ?thesis
    proof (cases "found (tbl_rows t ! a)")
      case f: True
      from less.hyps [of t "Suc a"] less.prems(1) True show ?thesis
        by (subst prune.simps) (simp add: f d take_Suc_conv_app_nth)
    next
      case f: False
      from remove_row_at [OF True, of counted] obtain t1 where
        t1: "remove_rows counted (int a) 1 t = Inr t1"
          "tbl_rows t1 = take a (tbl_rows t) @ drop (Suc a) (tbl_rows t)"
        by simp
      with less.hyps [of t1 a] remove_ok [OF less.prems(1) t1(1)] True show ?thesis
        by (subst prune.simps) (simp add: f d)
    qed
  next
    case False
    with less.prems show ?thesis by (subst prune.simps) simp
  qed
qed

lemma update_rows_from:
  assumes "ok t" and "n \<le> length (tbl_rows t)"
  shows "\<exists>t'. foldM (\<lambda>(t, found) a. bind (get_row (int a) t) (\<lambda>r.
        if key r = dkey d then bind (upd d a t) (\<lambda>t'. Inr (t', True)) else Inr (t, found)))
      (t, False) [0..<n] = Inr (t', \<exists>r \<in> set (take n (tbl_rows t)). key r = dkey d) \<and> ok t' \<and>
    tbl_rows t' = map (\<lambda>r. if key r = dkey d then upd_row d r else r) (take n (tbl_rows t)) @ drop n (tbl_rows t)"
  using assms(2)
proof (induction n)
  case 0
  with assms(1) show ?case by simp
next
  case (Suc n)
  then obtain t1 where t1:
    "foldM (\<lambda>(t, found) a. bind (get_row (int a) t) (\<lambda>r.
        if key r = dkey d then bind (upd d a t) (\<lambda>t'. Inr (t', True)) else Inr (t, found)))
      (t, False) [0..<n] = Inr (t1, \<exists>r \<in> set (take n (tbl_rows t)). key r = dkey d)" "ok t1"
    "tbl_rows t1 = map (\<lambda>r. if key r = dkey d then upd_row d r else r) (take n (tbl_rows t)) @ drop n (tbl_rows t)"
    by auto
  have n: "n < length (tbl_rows t1)" "tbl_rows t1 ! n = tbl_rows t ! n"
    using Suc.prems by (simp_all add: t1(3) nth_append)
  have take: "take (Suc n) (tbl_rows t) = take n (tbl_rows t) @ [tbl_rows t ! n]"
    using Suc.prems by (simp add: take_Suc_conv_app_nth)
  show ?case
  proof (cases "key (tbl_rows t ! n) = dkey d")
    case True
    with upd_at [OF t1(2) n(1), of d] n(2) obtain t2 where
      "upd d n t1 = Inr t2" "ok t2" "tbl_rows t2 = (tbl_rows t1)[n := upd_row d (tbl_rows t ! n)]" by auto
    with True n Suc.prems show ?thesis
      by (simp add: foldM_append t1(1) take) (simp add: t1(3) list_update_append upd_conv_take_nth_drop)
  next
    case False
    with n Suc.prems t1(2) show ?thesis
      by (simp add: foldM_append t1(1) take) (simp add: t1(3) Cons_nth_drop_Suc)
  qed
qed

lemma upsert_row:
  assumes "ok t"
  shows "\<exists>t'. upsert (\<lambda>r. key r = dkey d) (upd d) (add d) t = Inr t' \<and> ok t' \<and>
    tbl_rows t' = sync_one key dkey upd_row new_row (tbl_rows t) d"
proof -
  obtain t1 where t1: "update_rows (\<lambda>r. key r = dkey d) (upd d) t =
      Inr (t1, \<exists>r \<in> set (tbl_rows t). key r = dkey d)" "ok t1"
    "tbl_rows t1 = map (\<lambda>r. if key r = dkey d then upd_row d r else r) (tbl_rows t)"
    using update_rows_from [OF assms order_refl, of d] by (auto simp: update_rows_def)
  show ?thesis
  proof (cases "\<exists>r \<in> set (tbl_rows t). key r = dkey d")
    case True
    then have "dkey d \<in> key ` set (tbl_rows t)" by force
    with True t1 show ?thesis by (simp add: upsert_def sync_one_def)
  next
    case False
    then have "dkey d \<notin> key ` set (tbl_rows t)" "tbl_rows t1 = tbl_rows t"
      by (auto simp: t1(3) intro: map_idI)
    with False add_at [OF t1(2), of d] show ?thesis by (simp add: upsert_def t1(1) sync_one_def)
  qed
qed

lemma handle_items_rows:
  assumes "ok t"
  shows "\<exists>t'. handle_items ds t = Inr t' \<and> ok t' \<and>
    tbl_rows t' = sync key dkey upd_row new_row ds (tbl_rows t)"
proof -
  have "(\<lambda>r. list_ex (\<lambda>d. key r = dkey d) ds) = (\<lambda>r. key r \<in> dkey ` set ds)"
    by (rule ext) (auto simp: list_ex_iff)
  with prune_from [OF assms, of 0 "\<lambda>r. list_ex (\<lambda>d. key r = dkey d) ds"] obtain t1 where
    t1: "prune (\<lambda>r. list_ex (\<lambda>d. key r = dkey d) ds) counted 0 t = Inr t1" "ok t1"
      "tbl_rows t1 = filter (\<lambda>r. key r \<in> dkey ` set ds) (tbl_rows t)" by auto
  have "\<exists>t'. foldM (\<lambda>t d. upsert (\<lambda>r. key r = dkey d) (upd d) (add d) t) t es = Inr t' \<and> ok t' \<and>
      tbl_rows t' = foldl (sync_one key dkey upd_row new_row) (tbl_rows t) es" if "ok t" for t es
    using that
  proof (induction es arbitrary: t)
    case Nil
    then show ?case by simp
  next
    case (Cons e es)
    from upsert_row [OF Cons.prems, of e] obtain t2 where
      "upsert (\<lambda>r. key r = dkey e) (upd e) (add e) t = Inr t2" "ok t2"
      "tbl_rows t2 = sync_one key dkey upd_row new_row (tbl_rows t) e" by blast
    with Cons.IH [of t2] show ?case by simp
  qed
  from this [OF t1(2), of ds] t1 show ?thesis by (simp add: handle_items_def sync_def)
qed

lemma sync_one_keys:
  "map key (sync_one key dkey upd_row new_row rs d) =
     (if dkey d \<in> key ` set rs then map key rs else map key rs @ [dkey d])"
  by (auto simp: sync_one_def new_key upd_key)

lemma sync_fold_keys:
  "distinct (map key rs) \<Longrightarrow>
   distinct (map key (foldl (sync_one key dkey upd_row new_row) rs ds)) \<and>
   key ` set (foldl (sync_one key dkey upd_row new_row) rs ds) = key ` set rs \<union> dkey ` set ds"
proof (induction ds arbitrary: rs)
  case Nil
  then show ?case by simp
next
  case (Cons d ds)
  have "distinct (map key (sync_one key dkey upd_row new_row rs d))"
    using Cons.prems by (simp add: sync_one_keys)
  moreover have "key ` set (sync_one key dkey upd_row new_row rs d) = key ` set rs \<union> {dkey d}"
    using arg_cong [OF sync_one_keys [of rs d], of set] by (auto split: if_splits)
  ultimately show ?case using Cons.IH by simp
qed

lemma sync_one_other:
  "r \<in> set rs \<Longrightarrow> key r \<noteq> dkey e \<Longrightarrow> r \<in> set (sync_one key dkey upd_row new_row rs e)"
  by (force simp: sync_one_def)

lemma sync_fold_other:
  "r \<in> set rs \<Longrightarrow> key r \<notin> dkey ` set ds \<Longrightarrow> r \<in> set (foldl (sync_one key dkey upd_row new_row) rs ds)"
  by (induction ds arbitrary: rs) (auto intro: sync_one_other)

text \<open>The row of an item: the old one updated, or a new one.\<close>

lemma sync_row:
  assumes "distinct (map key rs)" and "distinct (map dkey ds)" and "d \<in> set ds"
  shows "r \<in> set rs \<Longrightarrow> key r = dkey d \<Longrightarrow> upd_row d r \<in> set (sync key dkey upd_row new_row ds rs)"
    and "dkey d \<notin> key ` set rs \<Longrightarrow> new_row d \<in> set (sync key dkey upd_row new_row ds rs)"
proof -
  let ?f = "foldl (sync_one key dkey upd_row new_row)" and ?k = "filter (\<lambda>r. key r \<in> dkey ` set ds) rs"
  obtain pre post where ds: "ds = pre @ d # post" using assms(3) by (meson split_list)
  with assms(2) have pre: "dkey d \<notin> dkey ` set pre" and post: "dkey d \<notin> dkey ` set post" by auto
  have s: "sync key dkey upd_row new_row ds rs =
      ?f (sync_one key dkey upd_row new_row (?f ?k pre) d) post"
    unfolding sync_def by (subst (2) ds) simp
  have k: "distinct (map key ?k)" using assms(1) by (simp add: distinct_map_filter)
  {
    assume r: "r \<in> set rs" "key r = dkey d"
    with assms(3) have "r \<in> set ?k" by auto
    then have "r \<in> set (?f ?k pre)" using pre r(2) by (intro sync_fold_other) simp_all
    then have "upd_row d r \<in> set (sync_one key dkey upd_row new_row (?f ?k pre) d)"
      using r(2) by (force simp: sync_one_def)
    then show "upd_row d r \<in> set (sync key dkey upd_row new_row ds rs)"
      unfolding s using post r(2) by (intro sync_fold_other) (simp_all add: upd_key)
  next
    assume n: "dkey d \<notin> key ` set rs"
    then have "dkey d \<notin> key ` set (?f ?k pre)"
      using sync_fold_keys [OF k, of pre] pre by auto
    then have "new_row d \<in> set (sync_one key dkey upd_row new_row (?f ?k pre) d)"
      by (simp add: sync_one_def)
    then show "new_row d \<in> set (sync key dkey upd_row new_row ds rs)"
      unfolding s using post by (intro sync_fold_other) (simp_all add: new_key)
  }
qed

text \<open>The rows have the keys of the message, each once, when they had distinct keys before.\<close>

lemma sync_keys:
  assumes "distinct (map key rs)"
  shows "distinct (map key (sync key dkey upd_row new_row ds rs))"
    and "key ` set (sync key dkey upd_row new_row ds rs) = dkey ` set ds"
proof -
  have "distinct (map key (filter (\<lambda>r. key r \<in> dkey ` set ds) rs))"
    using assms by (simp add: distinct_map_filter)
  from sync_fold_keys [OF this, of ds] show
    "distinct (map key (sync key dkey upd_row new_row ds rs))"
    "key ` set (sync key dkey upd_row new_row ds rs) = dkey ` set ds"
    by (auto simp: sync_def)
qed

end

end
