(* ===== verification/Models.thy ===== *)
theory Models
  imports Tables
begin

text \<open>
  The models of the client that show a list of the server: updates, adapters, partitions and
  drives (\<open>src/client/models/updatemodel.cpp\<close>, \<open>adaptermodel.cpp\<close>,
  \<open>drivesmodel.cpp\<close>), the texts of \<open>objects/server.h\<close> they show, and the
  handlers of \<open>objects/server.cpp\<close> that bring them up to a message.  A model index is a
  row and a column, or None when it is not valid.  The count of the latch at the end of each
  handler is with the server object, in \<open>Client_Server\<close>.
\<close>

section \<open>Values and texts\<close>

datatype variant = VNone | VString string | VInt int | VWord "64 word" | VBool bool | VPartitions nat

abbreviation (input) DisplayRole :: int where "DisplayRole \<equiv> 0"
abbreviation (input) ToolTipRole :: int where "ToolTipRole \<equiv> 3"
abbreviation (input) UserRole :: int where "UserRole \<equiv> 256"

type_synonym model_index = "(int \<times> int) option"

text \<open>The loop divides at most \<open>limit\<close> times.\<close>

fun unit_loop :: "nat \<Rightarrow> nat \<Rightarrow> nat \<Rightarrow> nat \<Rightarrow> nat \<times> nat" where
  "unit_loop factor 0 sz count = (sz, count)"
| "unit_loop factor (Suc limit) sz count =
     (if factor \<le> sz then unit_loop factor limit (sz div factor) (count + 1) else (sz, count))"

definition with_unit :: "string list \<Rightarrow> nat \<times> nat \<Rightarrow> string outcome" where
  "with_unit size_end sc =
     bind (vec_get size_end (snd sc)) (\<lambda>u. Inr (to_string (fst sc) @ '' '' @ u))"

definition bytes_to_string :: "nat \<Rightarrow> 64 word \<Rightarrow> string outcome" where
  "bytes_to_string factor sz =
     with_unit ['' B'', ''KB'', ''MB'', ''GB'', ''TB''] (unit_loop factor 5 (unat sz) 0)"

definition bitrate_to_string :: "64 word \<Rightarrow> string outcome" where
  "bitrate_to_string sz =
     with_unit ['' bps'', ''kbps'', ''Mbps'', ''Gbps'', ''Tbps''] (unit_loop 1000 4 (unat sz) 0)"

text \<open>\<open>headerData\<close>.\<close>

definition header :: "string list \<Rightarrow> int \<Rightarrow> bool \<Rightarrow> variant" where
  "header names sect horizontal =
     (if \<not> horizontal then VInt (sect + 1)
      else if 0 \<le> sect \<and> sect < int (length names) then VString (names ! nat sect) else VNone)"

text \<open>For a column without a role of its own the call of \<open>data\<close> under
  \<open>DisplayRole\<close> is a call of itself with the same arguments, without end.\<close>

definition display :: "int list \<Rightarrow> (int \<Rightarrow> variant outcome) \<Rightarrow> int \<Rightarrow> int \<Rightarrow> variant outcome" where
  "display column_roles data column role =
     (if role = DisplayRole then
        (if 0 \<le> column \<and> column < int (length column_roles) then data (column_roles ! nat column) else Inl UB)
      else data role)"

definition vstring :: "string outcome \<Rightarrow> variant outcome" where
  "vstring s = bind s (\<lambda>s. Inr (VString s))"

text \<open>The rows of a list that is told by position.\<close>

definition resize_rows :: "'r \<Rightarrow> nat \<Rightarrow> 'r table \<Rightarrow> 'r table outcome" where
  "resize_rows x n t =
     bind (if row_count t < int n then insert_rows True x (row_count t) (int n - row_count t) t else Inr t) (\<lambda>t.
     if row_count t > int n then remove_rows True (int n) (row_count t - int n) t else Inr t)"

section \<open>updatemodel.cpp\<close>

abbreviation (input) UM_name :: int where "UM_name \<equiv> UserRole + 1"
abbreviation (input) UM_old_version :: int where "UM_old_version \<equiv> UserRole + 2"
abbreviation (input) UM_new_version :: int where "UM_new_version \<equiv> UserRole + 3"

definition no_update :: msg_update where
  "no_update = \<lparr>upd_source = [], upd_name = [], upd_old_version = [], upd_new_version = []\<rparr>"

definition update_set :: "int \<Rightarrow> string \<Rightarrow> int \<Rightarrow> msg_update table \<Rightarrow> msg_update table outcome" where
  "update_set index v role t =
     bind (get_row index t) (\<lambda>u.
     Inr (tell [Data_changed (index, 0) (index, 0) [role]] (set_row (nat index)
       (if role = UM_name then u\<lparr>upd_name := v\<rparr>
        else if role = UM_old_version then u\<lparr>upd_old_version := v\<rparr>
        else if role = UM_new_version then u\<lparr>upd_new_version := v\<rparr> else u) t)))"

definition update_set_at ::
  "model_index \<Rightarrow> string \<Rightarrow> int \<Rightarrow> msg_update table \<Rightarrow> (msg_update table \<times> bool) outcome" where
  "update_set_at index v role t =
     (case index of None \<Rightarrow> Inr (t, False)
      | Some (row, column) \<Rightarrow> bind (update_set row v role t) (\<lambda>t'. Inr (t', True)))"

definition update_text :: "int \<Rightarrow> int \<Rightarrow> msg_update table \<Rightarrow> string outcome" where
  "update_text index role t =
     bind (get_row index t) (\<lambda>u.
     Inr (if role = UM_name then upd_name u
          else if role = UM_old_version then upd_old_version u
          else if role = UM_new_version then upd_new_version u else []))"

definition update_data :: "model_index \<Rightarrow> int \<Rightarrow> msg_update table \<Rightarrow> variant outcome" where
  "update_data index role t =
     (case index of None \<Rightarrow> Inr VNone
      | Some (row, column) \<Rightarrow>
          display [UM_name, UM_old_version, UM_new_version]
            (\<lambda>role. vstring (update_text row role t)) column role)"

definition update_column_count :: int where "update_column_count = 3"

definition update_role_names :: "(int \<times> string) list" where
  "update_role_names =
     [(UM_name, ''name''), (UM_old_version, ''old_version''), (UM_new_version, ''new_version'')]"

definition update_header :: "int \<Rightarrow> bool \<Rightarrow> variant" where
  "update_header = header [''Name'', ''Installed Version'', ''New Version'']"

definition update_insert_rows :: "int \<Rightarrow> int \<Rightarrow> msg_update table \<Rightarrow> msg_update table outcome" where
  "update_insert_rows = insert_rows True no_update"

definition update_remove_rows :: "int \<Rightarrow> int \<Rightarrow> msg_update table \<Rightarrow> msg_update table outcome" where
  "update_remove_rows = remove_rows True"

text \<open>\<open>Server::handle_updates\<close>.\<close>

definition handle_update :: "msg_update table \<Rightarrow> nat \<times> msg_update \<Rightarrow> msg_update table outcome" where
  "handle_update t au =
     (case au of (a, u) \<Rightarrow>
      bind (update_text (int a) UM_name t) (\<lambda>name.
      if name \<noteq> upd_name u then
        bind (update_set (int a) (upd_name u) UM_name t) (\<lambda>t.
        bind (update_set (int a) (upd_old_version u) UM_old_version t) (\<lambda>t.
        update_set (int a) (upd_new_version u) UM_new_version t))
      else
        bind (update_text (int a) UM_new_version t) (\<lambda>new_version.
        if new_version \<noteq> upd_new_version u then update_set (int a) (upd_new_version u) UM_new_version t
        else Inr t)))"

definition handle_updates_rows :: "msg_updates \<Rightarrow> msg_update table \<Rightarrow> msg_update table outcome" where
  "handle_updates_rows info t =
     bind (resize_rows no_update (length (upds_updates info)) t)
       (\<lambda>t. foldM handle_update t (List.enumerate 0 (upds_updates info)))"

section \<open>adaptermodel.cpp\<close>

abbreviation (input) AM_name :: int where "AM_name \<equiv> UserRole + 1"
abbreviation (input) AM_link_speed :: int where "AM_link_speed \<equiv> UserRole + 2"
abbreviation (input) AM_state :: int where "AM_state \<equiv> UserRole + 3"
abbreviation (input) AM_mtu :: int where "AM_mtu \<equiv> UserRole + 4"
abbreviation (input) AM_mac_address :: int where "AM_mac_address \<equiv> UserRole + 5"
abbreviation (input) AM_ip_address :: int where "AM_ip_address \<equiv> UserRole + 6"
abbreviation (input) AM_rx_rate :: int where "AM_rx_rate \<equiv> UserRole + 7"
abbreviation (input) AM_tx_rate :: int where "AM_tx_rate \<equiv> UserRole + 8"

text \<open>The elements of \<open>updates\<close> and \<open>prevous\<close> at one index.\<close>

record adapter_row =
  ar_cur :: msg_adapter
  ar_prev :: msg_adapter

definition no_adapter :: msg_adapter where
  "no_adapter = \<lparr>ad_name = [], ad_state = Down, ad_link_speed = 0, ad_mtu = 0, ad_mac_address = [],
     ad_ip_address = [], ad_bytes_rx = 0, ad_bytes_tx = 0, ad_time = 0\<rparr>"

definition adapter_column_count :: int where "adapter_column_count = 5"

definition adapter_flag :: "int \<Rightarrow> int list \<Rightarrow> adapter_row table \<Rightarrow> adapter_row table" where
  "adapter_flag a roles = tell [Data_changed (a, 0) (a, adapter_column_count) (roles @ [DisplayRole])]"

text \<open>The bits over the seconds, as doubles.\<close>

definition rate :: "64 word \<Rightarrow> 64 word \<Rightarrow> 64 word \<Rightarrow> 64 word \<Rightarrow> string outcome" where
  "rate bytes prev_bytes time prev_time =
     (let delta_time = double_of (double_of (of_int (sint (time - prev_time))) / 10 ^ 9);
          delta_bytes = (bytes - prev_bytes) * 8
      in bind (double_to_int 64 0 (double_div (double_of (of_int (uint delta_bytes))) delta_time)) (\<lambda>r.
         bitrate_to_string (of_int r)))"

definition adapter_role :: "adapter_row \<Rightarrow> int \<Rightarrow> variant outcome" where
  "adapter_role r role =
     (let temp = ar_cur r; prec = ar_prev r in
      if role = AM_name then Inr (VString (ad_name temp))
      else if role = AM_mtu then Inr (VWord (ad_mtu temp))
      else if role = AM_mac_address then Inr (VString (ad_mac_address temp))
      else if role = AM_ip_address then Inr (VString (ad_ip_address temp))
      else if role = AM_link_speed then
        (if ad_link_speed temp = 0 then Inr (VString ''Unknown'')
         else vstring (bitrate_to_string (ad_link_speed temp)))
      else if role = AM_state then Inr (VString (if ad_state temp = Up then ''Up'' else ''Down''))
      else if role = AM_rx_rate then
        vstring (rate (ad_bytes_rx temp) (ad_bytes_rx prec) (ad_time temp) (ad_time prec))
      else if role = AM_tx_rate then
        vstring (rate (ad_bytes_tx temp) (ad_bytes_tx prec) (ad_time temp) (ad_time prec))
      else Inr VNone)"

definition adapter_data :: "model_index \<Rightarrow> int \<Rightarrow> adapter_row table \<Rightarrow> variant outcome" where
  "adapter_data index role t =
     (case index of None \<Rightarrow> Inr VNone
      | Some (row, column) \<Rightarrow>
          display [AM_name, AM_state, AM_link_speed, AM_tx_rate, AM_rx_rate]
            (\<lambda>role. bind (get_row row t) (\<lambda>r. adapter_role r role)) column role)"

definition adapter_role_names :: "(int \<times> string) list" where
  "adapter_role_names =
     [(DisplayRole, ''display''), (AM_name, ''name''), (AM_state, ''connection_state''),
      (AM_link_speed, ''link_speed''), (AM_mtu, ''mtu''), (AM_mac_address, ''mac_address''),
      (AM_ip_address, ''ip_address''), (AM_rx_rate, ''rx_rate''), (AM_tx_rate, ''tx_rate'')]"

definition adapter_header :: "int \<Rightarrow> bool \<Rightarrow> variant" where
  "adapter_header = header [''Name'', ''State'', ''Link Speed'', ''Send'', ''Received'']"

definition adapter_insert_rows :: "int \<Rightarrow> int \<Rightarrow> adapter_row table \<Rightarrow> adapter_row table outcome" where
  "adapter_insert_rows = insert_rows True \<lparr>ar_cur = no_adapter, ar_prev = no_adapter\<rparr>"

definition adapter_remove_rows :: "int \<Rightarrow> int \<Rightarrow> adapter_row table \<Rightarrow> adapter_row table outcome" where
  "adapter_remove_rows = remove_rows True"

text \<open>\<open>Server::handle_adapters\<close>: the row of an adapter that is there, and the new row.\<close>

definition adapter_update :: "msg_adapter \<Rightarrow> adapter_row \<Rightarrow> adapter_row" where
  "adapter_update din r =
     \<lparr>ar_cur = (ar_cur r)\<lparr>ad_bytes_rx := ad_bytes_rx din, ad_bytes_tx := ad_bytes_tx din, ad_time := ad_time din,
        ad_state := ad_state din, ad_link_speed := ad_link_speed din\<rparr>,
      ar_prev = (ar_prev r)\<lparr>ad_bytes_rx := ad_bytes_rx (ar_cur r), ad_bytes_tx := ad_bytes_tx (ar_cur r),
        ad_time := ad_time (ar_cur r)\<rparr>\<rparr>"

definition adapter_new :: "msg_adapter \<Rightarrow> adapter_row" where
  "adapter_new din =
     \<lparr>ar_cur = din, ar_prev = no_adapter\<lparr>ad_bytes_rx := ad_bytes_rx din, ad_bytes_tx := ad_bytes_tx din,
        ad_time := ad_time din\<rparr>\<rparr>"

definition adapter_update_at :: "msg_adapter \<Rightarrow> nat \<Rightarrow> adapter_row table \<Rightarrow> adapter_row table outcome" where
  "adapter_update_at din a t =
     bind (get_row (int a) t) (\<lambda>r.
     Inr (adapter_flag (int a) [AM_link_speed, AM_state, AM_rx_rate, AM_tx_rate]
       (set_row a (adapter_update din r) t)))"

definition adapter_add :: "msg_adapter \<Rightarrow> adapter_row table \<Rightarrow> adapter_row table outcome" where
  "adapter_add din t =
     bind (adapter_insert_rows (row_count t) 1 t) (\<lambda>t'.
     Inr (adapter_flag (row_count t' - 1)
       [AM_name, AM_link_speed, AM_state, AM_mtu, AM_mac_address, AM_ip_address, AM_rx_rate, AM_tx_rate]
       (set_row (nat (row_count t' - 1)) (adapter_new din) t')))"

definition handle_adapters_rows :: "msg_adapters \<Rightarrow> adapter_row table \<Rightarrow> adapter_row table outcome" where
  "handle_adapters_rows info t =
     bind (prune (\<lambda>r. list_ex (\<lambda>d. ad_name (ar_cur r) = ad_name d) (ads_adapters info)) True 0 t)
       (\<lambda>t. foldM (\<lambda>t d. upsert (\<lambda>r. ad_name (ar_cur r) = ad_name d) (adapter_update_at d) (adapter_add d) t)
              t (ads_adapters info))"


section \<open>drivesmodel.cpp\<close>

abbreviation (input) PM_dev_node :: int where "PM_dev_node \<equiv> UserRole + 1"
abbreviation (input) PM_size :: int where "PM_size \<equiv> UserRole + 2"
abbreviation (input) PM_used :: int where "PM_used \<equiv> UserRole + 3"
abbreviation (input) PM_mountpoint :: int where "PM_mountpoint \<equiv> UserRole + 4"
abbreviation (input) PM_filesystem :: int where "PM_filesystem \<equiv> UserRole + 5"

abbreviation (input) DM_dev_node :: int where "DM_dev_node \<equiv> UserRole + 1"
abbreviation (input) DM_size :: int where "DM_size \<equiv> UserRole + 2"
abbreviation (input) DM_model :: int where "DM_model \<equiv> UserRole + 3"
abbreviation (input) DM_manufacturer :: int where "DM_manufacturer \<equiv> UserRole + 4"
abbreviation (input) DM_interface :: int where "DM_interface \<equiv> UserRole + 5"
abbreviation (input) DM_partition :: int where "DM_partition \<equiv> UserRole + 6"

definition no_partition :: msg_partition where
  "no_partition = \<lparr>part_dev_node = [], part_size = 0, part_used = 0, part_mountpoint = [], part_filesystem = []\<rparr>"

definition no_drive :: msg_drive where
  "no_drive = \<lparr>drv_dev_node = [], drv_size = 0, drv_model = [], drv_manufacturer = [], drv_interface = [],
     drv_partitions = []\<rparr>"

definition partition_column_count :: int where "partition_column_count = 5"

definition partition_flag :: "int \<Rightarrow> int list \<Rightarrow> msg_partition table \<Rightarrow> msg_partition table" where
  "partition_flag a roles = tell [Data_changed (a, 0) (a, partition_column_count) roles]"

definition percent :: "64 word \<Rightarrow> 64 word \<Rightarrow> int outcome" where
  "percent used whole =
     double_to_int 31 (- (2 ^ 31))
       (map_option (\<lambda>q. double_of (q * 100))
         (double_div (double_of (of_int (uint used))) (double_of (of_int (uint whole)))))"

definition partition_role :: "msg_partition \<Rightarrow> int \<Rightarrow> variant outcome" where
  "partition_role temp role =
     (if role = PM_dev_node then Inr (VString (part_dev_node temp))
      else if role = PM_size then vstring (bytes_to_string 1000 (part_size temp))
      else if role = PM_used then
        bind (percent (part_used temp) (part_size temp)) (\<lambda>p.
        Inr (VString ((if p < 0 then ''-'' else []) @ to_string (nat \<bar>p\<bar>) @ ''%'')))
      else if role = PM_mountpoint then Inr (VString (part_mountpoint temp))
      else if role = PM_filesystem then Inr (VString (part_filesystem temp))
      else Inr VNone)"

definition partition_data :: "model_index \<Rightarrow> int \<Rightarrow> msg_partition table \<Rightarrow> variant outcome" where
  "partition_data index role t =
     (case index of None \<Rightarrow> Inr VNone
      | Some (row, column) \<Rightarrow>
          display [PM_dev_node, PM_filesystem, PM_mountpoint, PM_size, PM_used]
            (\<lambda>role. bind (get_row row t) (\<lambda>r. partition_role r role)) column role)"

definition partition_role_names :: "(int \<times> string) list" where
  "partition_role_names =
     [(PM_dev_node, ''dev_node''), (PM_size, ''size''), (PM_used, ''used''),
      (PM_mountpoint, ''mountpoint''), (PM_filesystem, ''filesystem'')]"

definition partition_header :: "int \<Rightarrow> bool \<Rightarrow> variant" where
  "partition_header = header [''Dev Node'', ''Filesystem'', ''Mountpoint'', ''Size'', ''Used'']"

definition partition_insert_rows :: "int \<Rightarrow> int \<Rightarrow> msg_partition table \<Rightarrow> msg_partition table outcome" where
  "partition_insert_rows = insert_rows True no_partition"

definition partition_remove_rows :: "int \<Rightarrow> int \<Rightarrow> msg_partition table \<Rightarrow> msg_partition table outcome" where
  "partition_remove_rows = remove_rows True"

text \<open>The elements of \<open>updates\<close> and \<open>partitions\<close> at one index; a new drive has
  an empty model of partitions of its own.\<close>

record drive_row =
  dr_drive :: msg_drive
  dr_partitions :: "msg_partition table"

definition no_drive_row :: drive_row where
  "no_drive_row = \<lparr>dr_drive = no_drive, dr_partitions = \<lparr>tbl_rows = [], tbl_log = []\<rparr>\<rparr>"

definition drive_flag :: "int \<Rightarrow> int list \<Rightarrow> drive_row table \<Rightarrow> drive_row table" where
  "drive_flag a roles = tell [Data_changed (a, 0) (a, 0) roles]"

definition drive_role :: "int \<Rightarrow> drive_row \<Rightarrow> int \<Rightarrow> variant outcome" where
  "drive_role row r role =
     (let temp = dr_drive r in
      if role = DM_dev_node then Inr (VString (drv_dev_node temp))
      else if role = DM_size then vstring (bytes_to_string 1000 (drv_size temp))
      else if role = DM_model then Inr (VString (drv_model temp))
      else if role = DM_manufacturer then Inr (VString (drv_manufacturer temp))
      else if role = DM_interface then Inr (VString (drv_interface temp))
      else if role = DM_partition then Inr (VPartitions (nat row))
      else Inr VNone)"

definition drive_data :: "model_index \<Rightarrow> int \<Rightarrow> drive_row table \<Rightarrow> variant outcome" where
  "drive_data index role t =
     (case index of None \<Rightarrow> Inr VNone
      | Some (row, column) \<Rightarrow> bind (get_row row t) (\<lambda>r. drive_role row r role))"

definition drive_role_names :: "(int \<times> string) list" where
  "drive_role_names =
     [(DM_dev_node, ''dev_node''), (DM_size, ''size''), (DM_model, ''model''),
      (DM_manufacturer, ''manufacturer''), (DM_interface, ''interface''), (DM_partition, ''partitions'')]"

definition drive_insert_rows :: "int \<Rightarrow> int \<Rightarrow> drive_row table \<Rightarrow> drive_row table outcome" where
  "drive_insert_rows = insert_rows True no_drive_row"

definition drive_remove_rows :: "int \<Rightarrow> int \<Rightarrow> drive_row table \<Rightarrow> drive_row table outcome" where
  "drive_remove_rows = remove_rows True"

text \<open>\<open>Server::handle_drives\<close>: \<open>update_partitions\<close>, then the drives.  Of a drive that
  is there only the partitions are updated.\<close>

definition partition_step :: "msg_partition table \<Rightarrow> nat \<times> msg_partition \<Rightarrow> msg_partition table outcome" where
  "partition_step t ap =
     (case ap of (a, pinfo) \<Rightarrow>
      bind (get_row (int a) t) (\<lambda>pdata.
      let change = (\<lambda>differs roles set t. if differs then partition_flag (int a) roles (set_row a (set (tbl_rows t ! a)) t) else t)
      in if part_dev_node pdata \<noteq> part_dev_node pinfo then
           Inr (partition_flag (int a) [PM_dev_node, PM_size, PM_used, PM_mountpoint, PM_filesystem] (set_row a pinfo t))
         else
           Inr (change (part_filesystem pdata \<noteq> part_filesystem pinfo) [PM_filesystem] (\<lambda>p. p\<lparr>part_filesystem := part_filesystem pinfo\<rparr>)
               (change (part_mountpoint pdata \<noteq> part_mountpoint pinfo) [PM_mountpoint] (\<lambda>p. p\<lparr>part_mountpoint := part_mountpoint pinfo\<rparr>)
               (change (part_used pdata \<noteq> part_used pinfo) [PM_used] (\<lambda>p. p\<lparr>part_used := part_used pinfo\<rparr>)
               (change (part_size pdata \<noteq> part_size pinfo) [PM_size] (\<lambda>p. p\<lparr>part_size := part_size pinfo\<rparr>) t))))))"

definition update_partitions :: "msg_drive \<Rightarrow> msg_partition table \<Rightarrow> msg_partition table outcome" where
  "update_partitions dinfo t =
     bind (resize_rows no_partition (length (drv_partitions dinfo)) t)
       (\<lambda>t. foldM partition_step t (List.enumerate 0 (drv_partitions dinfo)))"

definition drive_partitions_at :: "msg_drive \<Rightarrow> nat \<Rightarrow> drive_row table \<Rightarrow> drive_row table outcome" where
  "drive_partitions_at dinfo a t =
     bind (get_row (int a) t) (\<lambda>r.
     bind (update_partitions dinfo (dr_partitions r)) (\<lambda>ps.
     Inr (set_row a (r\<lparr>dr_partitions := ps\<rparr>) t)))"

definition drive_add :: "msg_drive \<Rightarrow> drive_row table \<Rightarrow> drive_row table outcome" where
  "drive_add dinfo t =
     bind (drive_insert_rows (row_count t) 1 t) (\<lambda>t'.
     bind (get_row (row_count t' - 1) t') (\<lambda>r.
     drive_partitions_at dinfo (nat (row_count t' - 1))
       (drive_flag (row_count t' - 1) [DM_dev_node, DM_size, DM_model, DM_manufacturer, DM_interface]
         (set_row (nat (row_count t' - 1)) (r\<lparr>dr_drive := (dr_drive r)\<lparr>drv_dev_node := drv_dev_node dinfo,
            drv_size := drv_size dinfo, drv_model := drv_model dinfo,
            drv_manufacturer := drv_manufacturer dinfo, drv_interface := drv_interface dinfo\<rparr>\<rparr>) t'))))"

definition handle_drives_rows :: "msg_drives \<Rightarrow> drive_row table \<Rightarrow> drive_row table outcome" where
  "handle_drives_rows info t =
     bind (prune (\<lambda>r. list_ex (\<lambda>d. drv_dev_node (dr_drive r) = drv_dev_node d) (drvs_drives info)) True 0 t)
       (\<lambda>t. foldM (\<lambda>t d. upsert (\<lambda>r. drv_dev_node (dr_drive r) = drv_dev_node d)
                             (drive_partitions_at d) (drive_add d) t)
              t (drvs_drives info))"


section \<open>Rows told by position\<close>

lemma resize_rows_ok:
  "\<exists>t'. resize_rows x n t = Inr t' \<and> tbl_rows t' = take n (tbl_rows t) @ replicate (n - length (tbl_rows t)) x"
  by (auto simp: resize_rows_def insert_rows_def remove_rows_def vec_insert_def vec_erase_def row_count_def
    nat_diff_distrib)

lemma foldM_enumerate:
  assumes step: "\<And>t a x. a < length (tbl_rows t) \<Longrightarrow>
      \<exists>t'. step t (a, x) = Inr t' \<and> tbl_rows t' = (tbl_rows t)[a := g x (tbl_rows t ! a)]"
    and len: "n + length xs = length (tbl_rows t)"
  shows "\<exists>t'. foldM step t (List.enumerate n xs) = Inr t' \<and>
    tbl_rows t' = take n (tbl_rows t) @ map2 g xs (drop n (tbl_rows t))"
  using len
proof (induction xs arbitrary: n t)
  case Nil
  then show ?case by simp
next
  case (Cons x xs)
  then have n: "n < length (tbl_rows t)" by simp
  from step [OF n, of x] obtain t1 where
    t1: "step t (n, x) = Inr t1" "tbl_rows t1 = (tbl_rows t)[n := g x (tbl_rows t ! n)]" by blast
  have d: "drop n (tbl_rows t) = tbl_rows t ! n # drop (Suc n) (tbl_rows t)"
    using n by (simp add: Cons_nth_drop_Suc)
  from Cons.IH [of "Suc n" t1] Cons.prems t1 n show ?case
    by (simp add: d upd_conv_take_nth_drop)
qed

lemma map2_const: "length xs = length ys \<Longrightarrow> map2 (\<lambda>x _. x) xs ys = xs"
  by (induction xs ys rule: list_induct2) simp_all

lemma update_set_in:
  "a < length (tbl_rows t) \<Longrightarrow> \<exists>t'. update_set (int a) v role t = Inr t' \<and>
   tbl_rows t' = (tbl_rows t)[a := (if role = UM_name then (tbl_rows t ! a)\<lparr>upd_name := v\<rparr>
        else if role = UM_old_version then (tbl_rows t ! a)\<lparr>upd_old_version := v\<rparr>
        else if role = UM_new_version then (tbl_rows t ! a)\<lparr>upd_new_version := v\<rparr> else tbl_rows t ! a)]"
  by (simp add: update_set_def)

definition updated :: "msg_update \<Rightarrow> msg_update \<Rightarrow> msg_update" where
  "updated u old =
     (if upd_name old = upd_name u then old\<lparr>upd_new_version := upd_new_version u\<rparr>
      else old\<lparr>upd_name := upd_name u, upd_old_version := upd_old_version u, upd_new_version := upd_new_version u\<rparr>)"

lemma handle_update_in:
  assumes "a < length (tbl_rows t)"
  shows "\<exists>t'. handle_update t (a, u) = Inr t' \<and> tbl_rows t' = (tbl_rows t)[a := updated u (tbl_rows t ! a)]"
proof (cases "upd_name (tbl_rows t ! a) = upd_name u")
  case True
  have "(tbl_rows t)[a := updated u (tbl_rows t ! a)] = tbl_rows t"
    if "upd_new_version (tbl_rows t ! a) = upd_new_version u"
  proof -
    have "updated u (tbl_rows t ! a) = tbl_rows t ! a"
      using True that by (cases "tbl_rows t ! a") (simp add: updated_def)
    then show ?thesis by simp
  qed
  then show ?thesis
    using assms True by (auto simp: handle_update_def update_text_def update_set_def updated_def)
next
  case False
  with assms show ?thesis
    by (simp add: handle_update_def update_text_def update_set_def updated_def)
qed

lemma partition_step_in:
  assumes "a < length (tbl_rows t)"
  shows "\<exists>t'. partition_step t (a, p) = Inr t' \<and> tbl_rows t' = (tbl_rows t)[a := p]"
proof (cases "part_dev_node (tbl_rows t ! a) = part_dev_node p")
  case True
  obtain dev sz us mo fi where r: "tbl_rows t ! a = \<lparr>part_dev_node = dev, part_size = sz, part_used = us,
      part_mountpoint = mo, part_filesystem = fi\<rparr>" by (cases "tbl_rows t ! a")
  have same: "tbl_rows t = (tbl_rows t)[a := \<lparr>part_dev_node = dev, part_size = sz, part_used = us,
      part_mountpoint = mo, part_filesystem = fi\<rparr>]" by (metis r list_update_id)
  show ?thesis
    using assms True
    by (cases p) (auto simp: partition_step_def partition_flag_def Let_def r intro: same)
next
  case False
  with assms show ?thesis by (simp add: partition_step_def partition_flag_def)
qed

lemma update_partitions_ok:
  "\<exists>t'. update_partitions d t = Inr t' \<and> tbl_rows t' = drv_partitions d"
proof -
  let ?n = "length (drv_partitions d)"
  from resize_rows_ok [of no_partition ?n t] obtain t1 where
    t1: "resize_rows no_partition ?n t = Inr t1" "length (tbl_rows t1) = ?n" by auto
  from foldM_enumerate [of partition_step "\<lambda>p _. p" 0 "drv_partitions d" t1] t1 show ?thesis
    by (simp add: partition_step_in update_partitions_def map2_const)
qed

section \<open>Rows told by a key\<close>

lemma adapter_update_in:
  "a < length (tbl_rows t) \<Longrightarrow> \<exists>t'. adapter_update_at d a t = Inr t' \<and>
   tbl_rows t' = (tbl_rows t)[a := adapter_update d (tbl_rows t ! a)]"
  by (simp add: adapter_update_at_def adapter_flag_def)

lemma adapter_add_in: "\<exists>t'. adapter_add d t = Inr t' \<and> tbl_rows t' = tbl_rows t @ [adapter_new d]"
  by (simp add: adapter_add_def adapter_insert_rows_def append_row adapter_flag_def)
    (simp add: row_count_def list_update_append)

lemma adapter_keys [simp]:
  "ad_name (ar_cur (adapter_update d r)) = ad_name (ar_cur r)" "ad_name (ar_cur (adapter_new d)) = ad_name d"
  by (simp_all add: adapter_update_def adapter_new_def)

interpretation adapters: keyed_table "\<lambda>r. ad_name (ar_cur r)" ad_name adapter_update_at adapter_add
  adapter_update adapter_new "\<lambda>t. True" True
  by unfold_locales (simp_all add: adapter_update_in adapter_add_in)

lemma handle_adapters_items: "handle_adapters_rows info = adapters.handle_items (ads_adapters info)"
  by (rule ext) (simp add: handle_adapters_rows_def adapters.handle_items_def)

definition drive_update :: "msg_drive \<Rightarrow> drive_row \<Rightarrow> drive_row" where
  "drive_update d r = r\<lparr>dr_partitions := projr (update_partitions d (dr_partitions r))\<rparr>"

definition drive_new :: "msg_drive \<Rightarrow> drive_row" where
  "drive_new d = drive_update d (no_drive_row\<lparr>dr_drive := d\<lparr>drv_partitions := []\<rparr>\<rparr>)"

lemma drive_update_in:
  "a < length (tbl_rows t) \<Longrightarrow> \<exists>t'. drive_partitions_at d a t = Inr t' \<and>
   tbl_rows t' = (tbl_rows t)[a := drive_update d (tbl_rows t ! a)]"
  using update_partitions_ok [of d "dr_partitions (tbl_rows t ! a)"]
  by (auto simp: drive_partitions_at_def drive_update_def)

lemma drive_add_in: "\<exists>t'. drive_add d t = Inr t' \<and> tbl_rows t' = tbl_rows t @ [drive_new d]"
proof -
  let ?t = "tell [Begin_insert (row_count t) (row_count t + 1), End_insert, Count_changed]
    (t\<lparr>tbl_rows := tbl_rows t @ [no_drive_row]\<rparr>)"
  let ?r = "no_drive_row\<lparr>dr_drive := d\<lparr>drv_partitions := []\<rparr>\<rparr>"
  let ?u = "drive_flag (row_count ?t - 1) [DM_dev_node, DM_size, DM_model, DM_manufacturer, DM_interface]
    (set_row (length (tbl_rows t)) ?r ?t)"
  have c: "row_count ?t - 1 = int (length (tbl_rows t))" by (simp add: row_count_def)
  have g: "get_row (row_count ?t - 1) ?t = Inr no_drive_row" unfolding c by (subst get_row_in) simp_all
  have r: "no_drive_row\<lparr>dr_drive := (dr_drive no_drive_row)\<lparr>drv_dev_node := drv_dev_node d,
      drv_size := drv_size d, drv_model := drv_model d, drv_manufacturer := drv_manufacturer d,
      drv_interface := drv_interface d\<rparr>\<rparr> = ?r"
    by (cases d) (simp add: no_drive_row_def no_drive_def)
  have "drive_add d t = drive_partitions_at d (length (tbl_rows t)) ?u"
    by (simp add: drive_add_def drive_insert_rows_def append_row g r) (simp add: c)
  moreover have "tbl_rows ?u = tbl_rows t @ [?r]" by (simp add: drive_flag_def)
  ultimately show ?thesis using drive_update_in [of "length (tbl_rows t)" ?u d] by (simp add: drive_new_def)
qed

lemma drive_keys [simp]:
  "dr_drive (drive_update d r) = dr_drive r" "drv_dev_node (dr_drive (drive_new d)) = drv_dev_node d"
  by (simp_all add: drive_update_def drive_new_def)

interpretation drives: keyed_table "\<lambda>r. drv_dev_node (dr_drive r)" drv_dev_node drive_partitions_at drive_add
  drive_update drive_new "\<lambda>t. True" True
  by unfold_locales (simp_all add: drive_update_in drive_add_in)

lemma handle_drives_items: "handle_drives_rows info = drives.handle_items (drvs_drives info)"
  by (rule ext) (simp add: handle_drives_rows_def drives.handle_items_def)


lemma adapters_synced:
  assumes "distinct (map (\<lambda>r. ad_name (ar_cur r)) (tbl_rows t))"
  shows "\<exists>t'. handle_adapters_rows info t = Inr t' \<and>
    distinct (map (\<lambda>r. ad_name (ar_cur r)) (tbl_rows t')) \<and>
    (\<lambda>r. ad_name (ar_cur r)) ` set (tbl_rows t') = ad_name ` set (ads_adapters info) \<and>
    (distinct (map ad_name (ads_adapters info)) \<longrightarrow>
      (\<forall>d \<in> set (ads_adapters info). \<exists>r \<in> set (tbl_rows t'). ad_name (ar_cur r) = ad_name d \<and>
        ad_bytes_rx (ar_cur r) = ad_bytes_rx d \<and> ad_bytes_tx (ar_cur r) = ad_bytes_tx d \<and>
        ad_time (ar_cur r) = ad_time d \<and> ad_state (ar_cur r) = ad_state d \<and>
        ad_link_speed (ar_cur r) = ad_link_speed d))"
proof -
  from adapters.handle_items_rows [OF TrueI, of "ads_adapters info" t] obtain t' where
    t': "handle_adapters_rows info t = Inr t'"
      "tbl_rows t' = sync (\<lambda>r. ad_name (ar_cur r)) ad_name adapter_update adapter_new (ads_adapters info) (tbl_rows t)"
    by (auto simp: handle_adapters_items)
  have "\<exists>r \<in> set (tbl_rows t'). ad_name (ar_cur r) = ad_name d \<and>
      ad_bytes_rx (ar_cur r) = ad_bytes_rx d \<and> ad_bytes_tx (ar_cur r) = ad_bytes_tx d \<and>
      ad_time (ar_cur r) = ad_time d \<and> ad_state (ar_cur r) = ad_state d \<and> ad_link_speed (ar_cur r) = ad_link_speed d"
    if "distinct (map ad_name (ads_adapters info))" "d \<in> set (ads_adapters info)" for d
  proof (cases "ad_name d \<in> (\<lambda>r. ad_name (ar_cur r)) ` set (tbl_rows t)")
    case True
    then obtain r where "r \<in> set (tbl_rows t)" "ad_name (ar_cur r) = ad_name d" by force
    with adapters.sync_row(1) [OF assms that this] show ?thesis
      unfolding t'(2) by (intro bexI [of _ "adapter_update d r"]) (simp_all add: adapter_update_def)
  next
    case False
    from adapters.sync_row(2) [OF assms that this] show ?thesis
      unfolding t'(2) by (intro bexI [of _ "adapter_new d"]) (simp_all add: adapter_new_def)
  qed
  with adapters.sync_keys [OF assms, of "ads_adapters info"] t' show ?thesis by auto
qed


section \<open>Properties\<close>

text \<open>(C22) After a message of adapters the rows are the adapters of the message: no failure, each
  name once, the names that were sent and no others; and when the message names no adapter twice, the row of
  each holds the counters, the time, the state and the speed that were sent.\<close>

theorem handle_adapters_sync:
  assumes "distinct (map (\<lambda>r. ad_name (ar_cur r)) (tbl_rows t))"
  shows "\<exists>t'. handle_adapters_rows info t = Inr t' \<and>
    distinct (map (\<lambda>r. ad_name (ar_cur r)) (tbl_rows t')) \<and>
    (\<lambda>r. ad_name (ar_cur r)) ` set (tbl_rows t') = ad_name ` set (ads_adapters info) \<and>
    (distinct (map ad_name (ads_adapters info)) \<longrightarrow>
      (\<forall>d \<in> set (ads_adapters info). \<exists>r \<in> set (tbl_rows t'). ad_name (ar_cur r) = ad_name d \<and>
        ad_bytes_rx (ar_cur r) = ad_bytes_rx d \<and> ad_bytes_tx (ar_cur r) = ad_bytes_tx d \<and>
        ad_time (ar_cur r) = ad_time d \<and> ad_state (ar_cur r) = ad_state d \<and>
        ad_link_speed (ar_cur r) = ad_link_speed d))"
  using assms by (rule adapters_synced)

definition some_adapter :: msg_adapter where
  "some_adapter = no_adapter\<lparr>ad_name := ''eth0'', ad_time := 5, ad_bytes_rx := 7\<rparr>"

theorem handle_adapters_sync_witness:
  "\<exists>t'. handle_adapters_rows \<lparr>ads_adapters = [some_adapter]\<rparr> \<lparr>tbl_rows = [adapter_new no_adapter], tbl_log = []\<rparr>
     = Inr t' \<and> (\<lambda>r. ad_name (ar_cur r)) ` set (tbl_rows t') = {''eth0''}"
  using handle_adapters_sync [of "\<lparr>tbl_rows = [adapter_new no_adapter], tbl_log = []\<rparr>"
    "\<lparr>ads_adapters = [some_adapter]\<rparr>"]
  by (auto simp: some_adapter_def)

text \<open>An adapter that appears in the list has no rate to show: its row starts with the same
  time twice, so the columns for sent and received divide zero by zero and convert the result to an
  integer, which is undefined.\<close>

theorem new_adapter_rate_UB:
  assumes "distinct (map (\<lambda>r. ad_name (ar_cur r)) (tbl_rows t))"
    and "distinct (map ad_name (ads_adapters info))" and "d \<in> set (ads_adapters info)"
    and "ad_name d \<notin> (\<lambda>r. ad_name (ar_cur r)) ` set (tbl_rows t)"
  shows "\<exists>t' row. handle_adapters_rows info t = Inr t' \<and>
    get_row row t' = Inr (adapter_new d) \<and>
    adapter_data (Some (row, 3)) DisplayRole t' = Inl UB \<and>
    adapter_data (Some (row, 4)) DisplayRole t' = Inl UB"
proof -
  from adapters.handle_items_rows [OF TrueI, of "ads_adapters info" t] obtain t' where
    t': "handle_adapters_rows info t = Inr t'"
      "tbl_rows t' = sync (\<lambda>r. ad_name (ar_cur r)) ad_name adapter_update adapter_new (ads_adapters info) (tbl_rows t)"
    by (auto simp: handle_adapters_items)
  from adapters.sync_row(2) [OF assms] t'(2) have "adapter_new d \<in> set (tbl_rows t')" by simp
  then obtain a where a: "a < length (tbl_rows t')" "tbl_rows t' ! a = adapter_new d"
    by (auto simp: in_set_conv_nth)
  have r: "rate b b' s s = Inl UB" for b b' s
    by (simp add: rate_def double_of_def double_div_def double_to_int_def)
  have "get_row (int a) t' = Inr (adapter_new d)" using a by simp
  moreover from this have "adapter_data (Some (int a, 3)) DisplayRole t' = Inl UB"
    "adapter_data (Some (int a, 4)) DisplayRole t' = Inl UB"
    by (simp_all add: adapter_data_def display_def adapter_role_def Let_def adapter_new_def r vstring_def)
  ultimately show ?thesis using t'(1) by blast
qed

theorem new_adapter_rate_UB_witness:
  "\<exists>t' row. handle_adapters_rows \<lparr>ads_adapters = [some_adapter]\<rparr> \<lparr>tbl_rows = [], tbl_log = []\<rparr> = Inr t' \<and>
     adapter_data (Some (row, 3)) DisplayRole t' = Inl UB"
  using new_adapter_rate_UB [of "\<lparr>tbl_rows = [], tbl_log = []\<rparr>" "\<lparr>ads_adapters = [some_adapter]\<rparr>" some_adapter]
  by auto

text \<open>(C23) After a message of drives the rows are the drives of the message, and the partitions
  under each are the partitions sent for it, in order.  The other fields of a drive that was listed before
  keep their old values: only a new drive takes them from the message.\<close>

theorem handle_drives_sync:
  assumes "distinct (map (\<lambda>r. drv_dev_node (dr_drive r)) (tbl_rows t))"
    and "distinct (map drv_dev_node (drvs_drives info))"
  shows "\<exists>t'. handle_drives_rows info t = Inr t' \<and>
    distinct (map (\<lambda>r. drv_dev_node (dr_drive r)) (tbl_rows t')) \<and>
    (\<lambda>r. drv_dev_node (dr_drive r)) ` set (tbl_rows t') = drv_dev_node ` set (drvs_drives info) \<and>
    (\<forall>d \<in> set (drvs_drives info). \<exists>r \<in> set (tbl_rows t').
      tbl_rows (dr_partitions r) = drv_partitions d \<and>
      (if \<exists>o' \<in> set (tbl_rows t). drv_dev_node (dr_drive o') = drv_dev_node d
       then \<exists>o' \<in> set (tbl_rows t). drv_dev_node (dr_drive o') = drv_dev_node d \<and> dr_drive r = dr_drive o'
       else dr_drive r = d\<lparr>drv_partitions := []\<rparr>))"
proof -
  from drives.handle_items_rows [OF TrueI, of "drvs_drives info" t] obtain t' where
    t': "handle_drives_rows info t = Inr t'"
      "tbl_rows t' = sync (\<lambda>r. drv_dev_node (dr_drive r)) drv_dev_node drive_update drive_new
         (drvs_drives info) (tbl_rows t)"
    by (auto simp: handle_drives_items)
  have p: "tbl_rows (dr_partitions (drive_update d r)) = drv_partitions d" for d r
    using update_partitions_ok [of d "dr_partitions r"] by (auto simp: drive_update_def)
  have "\<exists>r \<in> set (tbl_rows t'). tbl_rows (dr_partitions r) = drv_partitions d \<and>
      (if \<exists>o' \<in> set (tbl_rows t). drv_dev_node (dr_drive o') = drv_dev_node d
       then \<exists>o' \<in> set (tbl_rows t). drv_dev_node (dr_drive o') = drv_dev_node d \<and> dr_drive r = dr_drive o'
       else dr_drive r = d\<lparr>drv_partitions := []\<rparr>)"
    if d: "d \<in> set (drvs_drives info)" for d
  proof (cases "\<exists>o' \<in> set (tbl_rows t). drv_dev_node (dr_drive o') = drv_dev_node d")
    case True
    then obtain o' where o': "o' \<in> set (tbl_rows t)" "drv_dev_node (dr_drive o') = drv_dev_node d" by blast
    with drives.sync_row(1) [OF assms d o'] show ?thesis
      unfolding t'(2) by (intro bexI [of _ "drive_update d o'"]) (auto simp: p)
  next
    case False
    then have "drv_dev_node d \<notin> (\<lambda>r. drv_dev_node (dr_drive r)) ` set (tbl_rows t)" by force
    from drives.sync_row(2) [OF assms d this] False show ?thesis
      unfolding t'(2) by (intro bexI [of _ "drive_new d"]) (simp_all add: drive_new_def p)
  qed
  with drives.sync_keys [OF assms(1), of "drvs_drives info"] t' show ?thesis by auto
qed

definition old_disk :: drive_row where
  "old_disk = drive_new (no_drive\<lparr>drv_dev_node := ''sda''\<rparr>)"

definition new_disk :: msg_drive where
  "new_disk = no_drive\<lparr>drv_dev_node := ''sda'', drv_size := 9\<rparr>"

theorem handle_drives_sync_witness:
  "\<exists>t'. handle_drives_rows \<lparr>drvs_drives = [new_disk]\<rparr> \<lparr>tbl_rows = [old_disk], tbl_log = []\<rparr> = Inr t' \<and>
     (\<exists>r \<in> set (tbl_rows t'). drv_size (dr_drive r) = 0)"
proof -
  have s: "drv_dev_node (dr_drive old_disk) = drv_dev_node new_disk" "drv_size (dr_drive old_disk) = 0"
    by (simp_all add: old_disk_def new_disk_def drive_new_def no_drive_def)
  show ?thesis
    using handle_drives_sync [of "\<lparr>tbl_rows = [old_disk], tbl_log = []\<rparr>" "\<lparr>drvs_drives = [new_disk]\<rparr>"]
    by (auto simp: s) (metis s(2))
qed

text \<open>After a message of updates the list shows its names and its new versions, row by row;
  an old version is taken from the message only in a row where the name changes.\<close>

theorem handle_updates_shown:
  shows "\<exists>t'. handle_updates_rows info t = Inr t' \<and>
    map upd_name (tbl_rows t') = map upd_name (upds_updates info) \<and>
    map upd_new_version (tbl_rows t') = map upd_new_version (upds_updates info) \<and>
    (\<forall>i < length (upds_updates info). upd_old_version (tbl_rows t' ! i) =
      (let old = (if i < length (tbl_rows t) then tbl_rows t ! i else no_update) in
       if upd_name old = upd_name (upds_updates info ! i) then upd_old_version old
       else upd_old_version (upds_updates info ! i)))"
proof -
  let ?us = "upds_updates info" and ?n = "length (upds_updates info)"
  from resize_rows_ok [of no_update ?n t] obtain t1 where
    t1: "resize_rows no_update ?n t = Inr t1"
      "tbl_rows t1 = take ?n (tbl_rows t) @ replicate (?n - length (tbl_rows t)) no_update" by blast
  have len: "length (tbl_rows t1) = ?n" by (simp add: t1(2))
  from foldM_enumerate [of handle_update updated 0 ?us t1] handle_update_in len obtain t' where
    t': "foldM handle_update t1 (List.enumerate 0 ?us) = Inr t'" "tbl_rows t' = map2 updated ?us (tbl_rows t1)"
    by auto
  have row: "tbl_rows t' ! i = updated (?us ! i) (if i < length (tbl_rows t) then tbl_rows t ! i else no_update)"
    if "i < ?n" for i
    using that len by (simp add: t'(2) t1(2) nth_append)
  have "length (tbl_rows t') = ?n" using len by (simp add: t'(2))
  then have "map upd_name (tbl_rows t') = map upd_name ?us" "map upd_new_version (tbl_rows t') = map upd_new_version ?us"
    by (auto intro!: nth_equalityI simp: row updated_def)
  moreover have "\<forall>i < ?n. upd_old_version (tbl_rows t' ! i) =
      (let old = (if i < length (tbl_rows t) then tbl_rows t ! i else no_update) in
       if upd_name old = upd_name (?us ! i) then upd_old_version old else upd_old_version (?us ! i))"
    by (simp add: row updated_def Let_def)
  moreover have "handle_updates_rows info t = Inr t'"
    by (simp add: handle_updates_rows_def t1(1) t'(1))
  ultimately show ?thesis by blast
qed

theorem handle_updates_shown_witness:
  "\<exists>t'. handle_updates_rows \<lparr>upds_updates = [no_update\<lparr>upd_name := ''vim'', upd_old_version := ''2''\<rparr>]\<rparr>
     \<lparr>tbl_rows = [no_update\<lparr>upd_name := ''vim'', upd_old_version := ''1''\<rparr>], tbl_log = []\<rparr> = Inr t' \<and>
     upd_old_version (tbl_rows t' ! 0) = ''1''"
  using handle_updates_shown [of "\<lparr>upds_updates = [no_update\<lparr>upd_name := ''vim'', upd_old_version := ''2''\<rparr>]\<rparr>"
    "\<lparr>tbl_rows = [no_update\<lparr>upd_name := ''vim'', upd_old_version := ''1''\<rparr>], tbl_log = []\<rparr>"]
  by (auto simp: no_update_def)


lemma unit_loop_count:
  "0 < factor \<Longrightarrow> snd (unit_loop factor n sz count) \<le> count + n \<and>
   (snd (unit_loop factor n sz count) = count + n \<longleftrightarrow> factor ^ n \<le> sz \<or> n = 0)"
proof (induction n arbitrary: sz count)
  case 0
  then show ?case by simp
next
  case (Suc n)
  show ?case
  proof (cases "factor \<le> sz")
    case True
    have "factor ^ n \<le> sz div factor \<longleftrightarrow> factor ^ Suc n \<le> sz"
      using Suc.prems by (simp add: less_eq_div_iff_mult_less_eq mult.commute)
    moreover have "n = 0 \<Longrightarrow> factor ^ Suc n \<le> sz" using True by simp
    ultimately show ?thesis using Suc.IH [of "sz div factor" "count + 1"] Suc.prems True by auto
  next
    case False
    have "factor * 1 \<le> factor * factor ^ n" using Suc.prems by (intro mult_left_mono) simp_all
    then have "\<not> factor * factor ^ n \<le> sz" using False by linarith
    with False show ?thesis by simp
  qed
qed

text \<open>The sizes of drives and partitions are shown without an error below 1000 TB; from there on
  the loop counts to five and reads the fifth of five units at index five.  A bit rate has its last unit for
  every value.\<close>

theorem bytes_to_string_UB_iff:
  "(bytes_to_string 1000 sz = Inl UB \<longleftrightarrow> 10 ^ 15 \<le> unat sz) \<and> (\<exists>s. bitrate_to_string sz = Inr s)"
proof -
  have b: "snd (unit_loop 1000 5 (unat sz) 0) = 5 \<longleftrightarrow> 10 ^ 15 \<le> unat sz"
    "snd (unit_loop 1000 5 (unat sz) 0) \<le> 5" "snd (unit_loop 1000 4 (unat sz) 0) \<le> 4"
    using unit_loop_count [of 1000 5 "unat sz" 0] unit_loop_count [of 1000 4 "unat sz" 0] by simp_all
  then show ?thesis
    by (cases "10 ^ 15 \<le> unat sz") (auto simp: bytes_to_string_def bitrate_to_string_def with_unit_def vec_get_def)
qed

datatype row_call = Insert_rows int int | Remove_rows int int

definition row_call :: "msg_update table \<Rightarrow> row_call \<Rightarrow> msg_update table outcome" where
  "row_call t c = (case c of Insert_rows r n \<Rightarrow> update_insert_rows r n t | Remove_rows r n \<Rightarrow> update_remove_rows r n t)"

text \<open>The rows a view has that goes by the announcements: \<open>first\<close> and \<open>last\<close> of
  \<open>beginInsertRows\<close> and \<open>beginRemoveRows\<close> are rows that are inserted and removed.\<close>

definition announced :: "notice list \<Rightarrow> int" where
  "announced ns = sum_list (map (\<lambda>n. case n of Begin_insert f l \<Rightarrow> l - f + 1 | Begin_remove f l \<Rightarrow> - (l - f + 1) | _ \<Rightarrow> 0) ns)"

text \<open>Every call announces one row more than it inserts or removes: after any calls on an empty
  list a view is off by the number of insertions less the number of removals.\<close>

theorem announced_rows:
  assumes "foldM row_call \<lparr>tbl_rows = [], tbl_log = []\<rparr> calls = Inr t"
  shows "announced (tbl_log t) = row_count t +
    int (length (filter (\<lambda>c. \<exists>r n. c = Insert_rows r n) calls)) -
    int (length (filter (\<lambda>c. \<exists>r n. c = Remove_rows r n) calls))"
proof -
  have step: "announced (tbl_log t') - row_count t' = announced (tbl_log t) - row_count t +
      (case c of Insert_rows r n \<Rightarrow> 1 | Remove_rows r n \<Rightarrow> - 1)"
    if "row_call t c = Inr t'" for t t' :: "msg_update table" and c
    using that by (cases c)
      (auto simp: row_call_def update_insert_rows_def update_remove_rows_def insert_rows_def remove_rows_def
        vec_insert_def vec_erase_def announced_def row_count_def split: if_splits)
  have "announced (tbl_log t') - row_count t' = announced (tbl_log t) - row_count t +
      int (length (filter (\<lambda>c. \<exists>r n. c = Insert_rows r n) calls)) -
      int (length (filter (\<lambda>c. \<exists>r n. c = Remove_rows r n) calls))"
    if "foldM row_call t calls = Inr t'" for t t'
    using that
  proof (induction calls arbitrary: t)
    case Nil
    then show ?case by simp
  next
    case (Cons c cs)
    then obtain t1 where t1: "row_call t c = Inr t1" "foldM row_call t1 cs = Inr t'"
      by (auto simp: bind_eq_Inr_iff)
    from step [OF t1(1)] Cons.IH [OF t1(2)] show ?case by (cases c) simp_all
  qed
  from this [OF assms] show ?thesis by (simp add: announced_def row_count_def)
qed

theorem announced_rows_witness:
  "\<exists>t. foldM row_call \<lparr>tbl_rows = [], tbl_log = []\<rparr> [Insert_rows 0 1] = Inr t \<and> announced (tbl_log t) = 2"
proof -
  obtain t where t: "foldM row_call \<lparr>tbl_rows = [], tbl_log = []\<rparr> [Insert_rows 0 1] = Inr t" "row_count t = 1"
    by (simp add: row_call_def update_insert_rows_def insert_rows_def vec_insert_def row_count_def)
  from announced_rows [OF t(1)] t show ?thesis by simp
qed


end
