(* ===== verification/Service_Model.thy ===== *)
theory Service_Model
  imports Models
begin

text \<open>
  \<open>src/client/models/services.cpp\<close>: the table of services with the least width of its
  columns, the list of service types, and the two handlers of \<open>objects/server.cpp\<close> that fill
  them.  The metrics of the font are an argument.
\<close>

section \<open>The list of types\<close>

definition types_data :: "model_index \<Rightarrow> int \<Rightarrow> string table \<Rightarrow> variant outcome" where
  "types_data index role t =
     (case index of None \<Rightarrow> Inr VNone | Some (row, column) \<Rightarrow> vstring (get_row row t))"

definition types_clear :: "string table \<Rightarrow> string table" where
  "types_clear t = tell [Reset_model] (t\<lparr>tbl_rows := []\<rparr>)"

definition types_add :: "string \<Rightarrow> string table \<Rightarrow> string table" where
  "types_add item t =
     tell [Begin_insert (row_count t) (row_count t + 1), End_insert] (t\<lparr>tbl_rows := tbl_rows t @ [item]\<rparr>)"

definition types_role_names :: "(int \<times> string) list" where
  "types_role_names = [(DisplayRole, ''display'')]"

text \<open>\<open>Server::handle_service\<close>, the loop over the types.\<close>

definition add_new_type :: "string table \<Rightarrow> string \<Rightarrow> string table" where
  "add_new_type t type = (if list_ex (\<lambda>x. x = type) (tbl_rows t) then t else types_add type t)"

definition handle_service_types :: "msg_serviceinfo \<Rightarrow> string table \<Rightarrow> string table" where
  "handle_service_types info t = foldl add_new_type t (si_types info)"

section \<open>The table of services\<close>

abbreviation (input) SM_state :: int where "SM_state \<equiv> UserRole + 1"
abbreviation (input) SM_enable :: int where "SM_enable \<equiv> UserRole + 2"
abbreviation (input) SM_id :: int where "SM_id \<equiv> UserRole + 3"

record font_metrics =
  fm_width :: "string \<Rightarrow> int"
  fm_height :: int

text \<open>\<open>MinSize\<close>: the index, which is all ones for no row, and the size.\<close>

record service_model = "msg_service table" +
  sm_min_width :: "(64 word \<times> int) list"

definition no_service :: msg_service where
  "no_service = \<lparr>svc_id = [], svc_state = Stopped, svc_enabled = False, svc_type = [],
     svc_display_name = [], svc_description = []\<rparr>"

definition service_column_count :: int where "service_column_count = 4"

definition service_header :: "int \<Rightarrow> bool \<Rightarrow> variant" where
  "service_header = header [''State'', ''Enabled'', ''Type'', ''Name'']"

definition variant_text :: "variant \<Rightarrow> string" where
  "variant_text v = (case v of VString s \<Rightarrow> s | _ \<Rightarrow> [])"

definition large_spacing :: "font_metrics \<Rightarrow> int" where
  "large_spacing fm = fm_height fm div 4 * 2"

definition text_width :: "font_metrics \<Rightarrow> variant \<Rightarrow> int" where
  "text_width fm v = fm_width fm (variant_text v) + large_spacing fm * 2"

definition new_service_model :: "font_metrics \<Rightarrow> service_model" where
  "new_service_model fm =
     \<lparr>tbl_rows = [], tbl_log = [],
      sm_min_width = map (\<lambda>a. (- 1, text_width fm (service_header (int a) True))) [0..<nat service_column_count]\<rparr>"

definition state_text :: "service_state \<Rightarrow> string" where
  "state_text s =
     (case s of Running \<Rightarrow> ''Running'' | Starting \<Rightarrow> ''Starting'' | Stopped \<Rightarrow> ''Stopped'' | Stopping \<Rightarrow> ''Stopping'')"

definition service_column :: "msg_service \<Rightarrow> int \<Rightarrow> variant" where
  "service_column temp column =
     (if column = 0 then VString (state_text (svc_state temp))
      else if column = 1 then VString (if svc_enabled temp then ''Enabled'' else ''Disabled'')
      else if column = 2 then VString (svc_type temp)
      else if column = 3 then VString (svc_display_name temp)
      else VNone)"

definition service_data :: "model_index \<Rightarrow> int \<Rightarrow> (msg_service, 'z) table_scheme \<Rightarrow> variant outcome" where
  "service_data index role t =
     (case index of None \<Rightarrow> Inr VNone
      | Some (row, column) \<Rightarrow>
          bind (get_row row t) (\<lambda>temp.
          Inr (if role = ToolTipRole then VString (svc_description temp)
               else if role = SM_state then VInt (uint (code_of_service_state (svc_state temp)))
               else if role = SM_enable then VBool (svc_enabled temp)
               else if role = SM_id then VString (svc_id temp)
               else service_column temp column)))"

definition service_role_names :: "(int \<times> string) list" where
  "service_role_names =
     [(DisplayRole, ''display''), (ToolTipRole, ''tooltip''), (SM_state, ''service_state''),
      (SM_enable, ''service_enabled''), (SM_id, ''service_id'')]"

definition service_insert_rows :: "int \<Rightarrow> int \<Rightarrow> service_model \<Rightarrow> service_model outcome" where
  "service_insert_rows = insert_rows False no_service"

definition service_remove_rows :: "int \<Rightarrow> int \<Rightarrow> service_model \<Rightarrow> service_model outcome" where
  "service_remove_rows = remove_rows False"

definition column_min_width :: "int \<Rightarrow> service_model \<Rightarrow> int outcome" where
  "column_min_width column t =
     (if column < 0 then Inl UB else bind (vec_get (sm_min_width t) (nat column)) (\<lambda>(index, width). Inr width))"

text \<open>The search for the widest of the other rows.\<close>

definition widen :: "font_metrics \<Rightarrow> int \<Rightarrow> int \<Rightarrow> service_model \<Rightarrow> 64 word \<times> int \<Rightarrow> nat \<Rightarrow> (64 word \<times> int) outcome" where
  "widen fm row column t m a =
     (if int a = row then Inr m
      else bind (service_data (Some (int a, column)) DisplayRole t) (\<lambda>v.
        Inr (if text_width fm v > snd m then (of_nat a, text_width fm v) else m)))"

definition flag_column :: "font_metrics \<Rightarrow> int \<Rightarrow> service_model \<Rightarrow> int \<Rightarrow> service_model outcome" where
  "flag_column fm row t column =
     bind (service_data (Some (row, column)) DisplayRole t) (\<lambda>v.
     bind (if column < 0 then Inl UB else vec_get (sm_min_width t) (nat column)) (\<lambda>m.
     let width = text_width fm v in
     bind (if width > snd m then Inr (of_int row, width)
           else if of_int row = fst m \<and> width < snd m then
             (let head = text_width fm (service_header column True) in
              foldM (widen fm row column t) (if head > snd m then (- 1, head) else m) [0..<length (tbl_rows t)])
           else Inr m) (\<lambda>m'.
     Inr (tell [Data_changed (row, column) (row, column) []]
       (t\<lparr>sm_min_width := (sm_min_width t)[nat column := m']\<rparr>)))))"

definition service_flag :: "font_metrics \<Rightarrow> int \<Rightarrow> int list \<Rightarrow> int list \<Rightarrow> service_model \<Rightarrow> service_model outcome" where
  "service_flag fm row columns roles t =
     bind (foldM (flag_column fm row) t columns) (\<lambda>t'.
     Inr (if roles \<noteq> [] then tell [Data_changed (row, 0) (row, service_column_count) roles] t' else t'))"

text \<open>\<open>toupper\<close> of a promoted \<open>char\<close>, see \<open>isalpha\<close> in \<open>Linux_Term\<close>.\<close>

definition to_upper :: "char \<Rightarrow> char outcome" where
  "to_upper c =
     (let n = of_char c :: nat in
      if n < 128 then Inr (if 97 \<le> n \<and> n \<le> 122 then char_of (n - 32) else c)
      else if n = 255 then Inr c else Inl UB)"

definition fuzzy_check :: "int \<Rightarrow> string \<Rightarrow> service_model \<Rightarrow> bool outcome" where
  "fuzzy_check row data t =
     (if row < 0 \<or> row_count t \<le> row then Inr False
      else
        bind (mapM to_upper (takeWhile (\<lambda>c. c \<noteq> CHR 0x00) data)) (\<lambda>search.
        bind (get_row row t) (\<lambda>r.
        bind (mapM to_upper (svc_display_name r)) (\<lambda>text.
        Inr (find_sub search text \<noteq> None)))))"

section \<open>handle_services\<close>

definition service_update :: "msg_service \<Rightarrow> msg_service \<Rightarrow> msg_service" where
  "service_update din cur =
     cur\<lparr>svc_state := svc_state din, svc_enabled := svc_enabled din, svc_display_name := svc_display_name din\<rparr>"

definition service_update_at :: "font_metrics \<Rightarrow> msg_service \<Rightarrow> nat \<Rightarrow> service_model \<Rightarrow> service_model outcome" where
  "service_update_at fm din a t =
     bind (get_row (int a) t) (\<lambda>cur.
     let state = (svc_state cur \<noteq> svc_state din); enabled = (svc_enabled cur \<noteq> svc_enabled din);
         name = (svc_display_name cur \<noteq> svc_display_name din)
     in service_flag fm (int a)
          ((if state then [0] else []) @ (if enabled then [1] else []) @ (if name then [3] else []))
          ((if state then [SM_state] else []) @ (if enabled then [SM_enable] else []))
          (set_row a (service_update din cur) t))"

definition service_add :: "font_metrics \<Rightarrow> msg_service \<Rightarrow> service_model \<Rightarrow> service_model outcome" where
  "service_add fm din t =
     bind (service_insert_rows (row_count t) 1 t) (\<lambda>t'.
     service_flag fm (row_count t' - 1) [0, 1, 2, 3] [] (set_row (nat (row_count t' - 1)) din t'))"

definition handle_services_rows :: "font_metrics \<Rightarrow> msg_services \<Rightarrow> service_model \<Rightarrow> service_model outcome" where
  "handle_services_rows fm info t =
     bind (prune (\<lambda>r. list_ex (\<lambda>d. svc_id r = svc_id d) (svcs_services info)) False 0 t)
       (\<lambda>t. foldM (\<lambda>t d. upsert (\<lambda>r. svc_id r = svc_id d) (service_update_at fm d) (service_add fm d) t)
              t (svcs_services info))"

section \<open>The widths\<close>

definition model_ok :: "service_model \<Rightarrow> bool" where
  "model_ok t \<longleftrightarrow> length (sm_min_width t) = 4"

lemma service_data_in: "a < length (tbl_rows t) \<Longrightarrow> \<exists>v. service_data (Some (int a, column)) role t = Inr v"
  by (simp add: service_data_def)

lemma more_tell [simp]: "sm_min_width (tell ns t) = sm_min_width t" "sm_min_width (set_row a r t) = sm_min_width t"
  by (simp_all add: tell_def set_row_def)

lemma widen_fold:
  "n \<le> length (tbl_rows t) \<Longrightarrow>
   \<exists>m'. foldM (widen fm row column t) m [0..<n] = Inr m' \<and> snd m \<le> snd m'"
proof (induction n)
  case 0
  then show ?case by simp
next
  case (Suc n)
  then obtain m' where m': "foldM (widen fm row column t) m [0..<n] = Inr m'" "snd m \<le> snd m'" by auto
  from service_data_in [of n t column DisplayRole] Suc.prems obtain v where
    "service_data (Some (int n, column)) DisplayRole t = Inr v" by auto
  then have "\<exists>m2. widen fm row column t m' n = Inr m2 \<and> snd m' \<le> snd m2"
    by (cases m') (auto simp: widen_def)
  then obtain m2 where "widen fm row column t m' n = Inr m2" "snd m' \<le> snd m2" by blast
  with m' show ?case by (simp add: foldM_append)
qed

lemma flag_column_in:
  assumes "a < length (tbl_rows t)" and "0 \<le> column" and "nat column < length (sm_min_width t)"
  shows "\<exists>t'. flag_column fm (int a) t column = Inr t' \<and> tbl_rows t' = tbl_rows t \<and>
    length (sm_min_width t') = length (sm_min_width t) \<and>
    list_all2 (\<lambda>m m'. snd m \<le> snd m') (sm_min_width t) (sm_min_width t')"
proof -
  obtain v where v: "service_data (Some (int a, column)) DisplayRole t = Inr v"
    using service_data_in [OF assms(1)] by blast
  let ?m = "sm_min_width t ! nat column" and ?w = "text_width fm v"
  let ?head = "text_width fm (service_header column True)"
  obtain m1 where m1: "foldM (widen fm (int a) column t) (if ?head > snd ?m then (- 1, ?head) else ?m)
      [0..<length (tbl_rows t)] = Inr m1" "snd (if ?head > snd ?m then (- 1, ?head) else ?m) \<le> snd m1"
    using widen_fold [OF order_refl] by blast
  define m' where "m' = (if ?w > snd ?m then (of_int (int a), ?w)
    else if of_int (int a) = fst ?m \<and> ?w < snd ?m then m1 else ?m)"
  have "snd ?m \<le> snd m'" using m1(2) by (auto simp: m'_def split: if_splits)
  then have "list_all2 (\<lambda>m m'. snd m \<le> snd m') (sm_min_width t) ((sm_min_width t)[nat column := m'])"
    using assms(3) by (auto simp: list_all2_conv_all_nth nth_list_update)
  moreover have "flag_column fm (int a) t column = Inr (tell [Data_changed (int a, column) (int a, column) []]
      (t\<lparr>sm_min_width := (sm_min_width t)[nat column := m']\<rparr>))"
    using assms(2,3) by (simp add: flag_column_def v m1(1) Let_def m'_def)
  ultimately show ?thesis by simp
qed

lemma flag_columns_in:
  assumes "a < length (tbl_rows t)" and "list_all (\<lambda>c. 0 \<le> c \<and> nat c < length (sm_min_width t)) columns"
  shows "\<exists>t'. foldM (flag_column fm (int a)) t columns = Inr t' \<and> tbl_rows t' = tbl_rows t \<and>
    length (sm_min_width t') = length (sm_min_width t) \<and>
    list_all2 (\<lambda>m m'. snd m \<le> snd m') (sm_min_width t) (sm_min_width t')"
  using assms
proof (induction columns arbitrary: t)
  case Nil
  then show ?case by (simp add: list_all2_refl)
next
  case (Cons c cs)
  from flag_column_in [of a t c fm] Cons.prems obtain t1 where t1:
    "flag_column fm (int a) t c = Inr t1" "tbl_rows t1 = tbl_rows t"
    "length (sm_min_width t1) = length (sm_min_width t)"
    "list_all2 (\<lambda>m m'. snd m \<le> snd m') (sm_min_width t) (sm_min_width t1)" by auto
  from Cons.IH [of t1] Cons.prems t1 obtain t2 where t2:
    "foldM (flag_column fm (int a)) t1 cs = Inr t2" "tbl_rows t2 = tbl_rows t"
    "length (sm_min_width t2) = length (sm_min_width t)"
    "list_all2 (\<lambda>m m'. snd m \<le> snd m') (sm_min_width t1) (sm_min_width t2)" by auto
  have "list_all2 (\<lambda>m m'. snd m \<le> snd m') (sm_min_width t) (sm_min_width t2)"
    using t1(4) t2(4) by (rule list_all2_trans [rotated]) (rule order_trans)
  with t1 t2 show ?case by simp
qed

lemma service_flag_in:
  assumes "a < length (tbl_rows t)" and "list_all (\<lambda>c. 0 \<le> c \<and> c < 4) columns" and "model_ok t"
  shows "\<exists>t'. service_flag fm (int a) columns roles t = Inr t' \<and> tbl_rows t' = tbl_rows t \<and> model_ok t' \<and>
    list_all2 (\<lambda>m m'. snd m \<le> snd m') (sm_min_width t) (sm_min_width t')"
proof -
  have "list_all (\<lambda>c. 0 \<le> c \<and> nat c < length (sm_min_width t)) columns"
    using assms(2,3) by (auto simp: list_all_iff model_ok_def)
  from flag_columns_in [OF assms(1) this, of fm] assms(3) show ?thesis
    by (auto simp: service_flag_def model_ok_def)
qed

lemma service_update_in:
  assumes "model_ok t" and "a < length (tbl_rows t)"
  shows "\<exists>t'. service_update_at fm d a t = Inr t' \<and> model_ok t' \<and>
    tbl_rows t' = (tbl_rows t)[a := service_update d (tbl_rows t ! a)]"
proof -
  let ?cur = "tbl_rows t ! a"
  let ?u = "set_row a (service_update d ?cur) t"
  let ?c = "(if svc_state ?cur \<noteq> svc_state d then [0] else []) @
    (if svc_enabled ?cur \<noteq> svc_enabled d then [1] else []) @
    (if svc_display_name ?cur \<noteq> svc_display_name d then [3] else []) :: int list"
  let ?r = "(if svc_state ?cur \<noteq> svc_state d then [SM_state] else []) @
    (if svc_enabled ?cur \<noteq> svc_enabled d then [SM_enable] else [])"
  have e: "service_update_at fm d a t = service_flag fm (int a) ?c ?r ?u"
    unfolding service_update_at_def get_row_in [OF assms(2)] bind_Inr Let_def ..
  have "list_all (\<lambda>c. 0 \<le> c \<and> c < 4) ?c" by simp
  moreover have "model_ok ?u" using assms(1) by (simp add: model_ok_def)
  moreover have "a < length (tbl_rows ?u)" using assms(2) by simp
  ultimately obtain t' where "service_flag fm (int a) ?c ?r ?u = Inr t'" "tbl_rows t' = tbl_rows ?u" "model_ok t'"
    using service_flag_in by blast
  then show ?thesis unfolding e by simp
qed

lemma service_add_in:
  assumes "model_ok t"
  shows "\<exists>t'. service_add fm d t = Inr t' \<and> model_ok t' \<and> tbl_rows t' = tbl_rows t @ [d]"
proof -
  let ?t = "tell [Begin_insert (row_count t) (row_count t + 1), End_insert]
    (t\<lparr>tbl_rows := tbl_rows t @ [no_service]\<rparr>)"
  let ?u = "set_row (length (tbl_rows t)) d ?t"
  have c: "row_count ?t - 1 = int (length (tbl_rows t))" by (simp add: row_count_def)
  have "service_add fm d t = service_flag fm (int (length (tbl_rows t))) [0, 1, 2, 3] [] ?u"
    by (simp add: service_add_def service_insert_rows_def append_row) (simp add: c)
  moreover have "model_ok ?u" using assms by (simp add: model_ok_def)
  ultimately show ?thesis
    using service_flag_in [of "length (tbl_rows t)" ?u "[0, 1, 2, 3]" fm "[]"] by auto
qed

lemma service_keys [simp]: "svc_id (service_update d r) = svc_id r"
  by (simp add: service_update_def)

lemma service_remove_ok: "model_ok t \<Longrightarrow> remove_rows False a n t = Inr t' \<Longrightarrow> model_ok t'"
  by (auto simp: model_ok_def remove_rows_def bind_eq_Inr_iff)

interpretation services: keyed_table svc_id svc_id "service_update_at fm" "service_add fm"
  service_update "\<lambda>d. d" model_ok False for fm
  by unfold_locales (simp_all add: service_update_in service_add_in service_remove_ok)

lemma handle_services_items: "handle_services_rows fm info = services.handle_items fm (svcs_services info)"
  by (rule ext) (simp add: handle_services_rows_def services.handle_items_def)

section \<open>Properties\<close>

text \<open>(C24) After a message of services the rows are the services of the message: no failure, each id
  once, the ids that were sent and no others; the row of each holds the state, the enablement and the name that
  were sent, and a service that was not listed before comes with all its fields.\<close>

theorem handle_services_sync:
  assumes "model_ok t" and "distinct (map svc_id (tbl_rows t))" and "distinct (map svc_id (svcs_services info))"
  shows "\<exists>t'. handle_services_rows fm info t = Inr t' \<and> model_ok t' \<and>
    distinct (map svc_id (tbl_rows t')) \<and> svc_id ` set (tbl_rows t') = svc_id ` set (svcs_services info) \<and>
    (\<forall>d \<in> set (svcs_services info).
      (if svc_id d \<in> svc_id ` set (tbl_rows t)
       then \<exists>r \<in> set (tbl_rows t'). svc_id r = svc_id d \<and> svc_state r = svc_state d \<and>
         svc_enabled r = svc_enabled d \<and> svc_display_name r = svc_display_name d
       else d \<in> set (tbl_rows t')))"
proof -
  from services.handle_items_rows [OF assms(1), of fm "svcs_services info"] obtain t' where
    t': "handle_services_rows fm info t = Inr t'" "model_ok t'"
      "tbl_rows t' = sync svc_id svc_id service_update (\<lambda>d. d) (svcs_services info) (tbl_rows t)"
    by (auto simp: handle_services_items)
  have "if svc_id d \<in> svc_id ` set (tbl_rows t)
      then \<exists>r \<in> set (tbl_rows t'). svc_id r = svc_id d \<and> svc_state r = svc_state d \<and>
         svc_enabled r = svc_enabled d \<and> svc_display_name r = svc_display_name d
      else d \<in> set (tbl_rows t')" if d: "d \<in> set (svcs_services info)" for d
  proof (cases "svc_id d \<in> svc_id ` set (tbl_rows t)")
    case True
    then obtain r where r: "r \<in> set (tbl_rows t)" "svc_id r = svc_id d" by force
    from services.sync_row(1) [OF assms(2,3) d r] True r show ?thesis
      unfolding t'(3) by simp (intro bexI [of _ "service_update d r"], simp_all add: service_update_def)
  next
    case False
    with services.sync_row(2) [OF assms(2,3) d] show ?thesis unfolding t'(3) by simp
  qed
  moreover have "distinct (map svc_id (tbl_rows t'))" "svc_id ` set (tbl_rows t') = svc_id ` set (svcs_services info)"
    unfolding t'(3) by (rule services.sync_keys [OF assms(2)])+
  ultimately show ?thesis using t'(1,2) by blast
qed

definition mono_font :: font_metrics where
  "mono_font = \<lparr>fm_width = \<lambda>s. 8 * int (length s), fm_height = 16\<rparr>"

theorem handle_services_sync_witness:
  "\<exists>t'. handle_services_rows mono_font \<lparr>svcs_services = [no_service\<lparr>svc_id := ''cron''\<rparr>]\<rparr>
     (new_service_model mono_font) = Inr t' \<and> no_service\<lparr>svc_id := ''cron''\<rparr> \<in> set (tbl_rows t')"
  using handle_services_sync [of "new_service_model mono_font"
    "\<lparr>svcs_services = [no_service\<lparr>svc_id := ''cron''\<rparr>]\<rparr>" mono_font]
  by (auto simp: model_ok_def new_service_model_def service_column_count_def)

text \<open>The least width of a column never shrinks: whatever changed in a row, no column gets
  narrower, as the search for the widest other row starts at the width that is to be replaced.\<close>

theorem min_width_grows:
  assumes "model_ok t" and "a < length (tbl_rows t)" and "list_all (\<lambda>c. 0 \<le> c \<and> c < 4) columns"
    and "0 \<le> column" and "column < 4"
  shows "\<exists>t' w w'. service_flag fm (int a) columns roles t = Inr t' \<and>
    column_min_width column t = Inr w \<and> column_min_width column t' = Inr w' \<and> w \<le> w'"
proof -
  from service_flag_in [OF assms(2,3,1), of fm roles] obtain t' where
    t': "service_flag fm (int a) columns roles t = Inr t'" "model_ok t'"
      "list_all2 (\<lambda>m m'. snd m \<le> snd m') (sm_min_width t) (sm_min_width t')" by blast
  have "nat column < length (sm_min_width t)" "nat column < length (sm_min_width t')"
    using assms(1,4,5) t'(2) by (simp_all add: model_ok_def)
  then have "column_min_width column t = Inr (snd (sm_min_width t ! nat column))"
    "column_min_width column t' = Inr (snd (sm_min_width t' ! nat column))"
    using assms(4) by (simp_all add: column_min_width_def split_beta)
  moreover have "snd (sm_min_width t ! nat column) \<le> snd (sm_min_width t' ! nat column)"
    using t'(3) \<open>nat column < length (sm_min_width t)\<close> by (rule list_all2_nthD)
  ultimately show ?thesis using t'(1) by blast
qed

theorem min_width_grows_witness:
  "\<exists>t' w w'. service_flag mono_font 0 [3] [] ((new_service_model mono_font)\<lparr>tbl_rows := [no_service]\<rparr>) = Inr t' \<and>
     column_min_width 3 ((new_service_model mono_font)\<lparr>tbl_rows := [no_service]\<rparr>) = Inr w \<and>
     column_min_width 3 t' = Inr w' \<and> w \<le> w'"
  using min_width_grows [of "(new_service_model mono_font)\<lparr>tbl_rows := [no_service]\<rparr>" 0 "[3]" 3 mono_font "[]"]
  by (simp add: model_ok_def new_service_model_def service_column_count_def)


end
