(* ===== verification/Client_Server.thy ===== *)
theory Client_Server
  imports Service_Model Rest
begin

text \<open>
  \<open>src/client/objects/server.cpp\<close> and \<open>server.h\<close>: the object the client keeps for
  a server.  \<open>update_info\<close> asks whether the server is up and starts the requests of a refresh;
  each runs in the thread pool and ends in \<open>complete_get\<close>, which queues the decoded message
  for the thread of the object, where \<open>deliver\<close> calls its handler.  \<open>client_step\<close> is
  the interleaving of the three, each as one step.

  The latch is that of Boost: its documentation allows \<open>count_down\<close> only above zero.  The parser
  of the JSON library and the metrics of the font are arguments.
\<close>

section \<open>State\<close>

datatype conn_state = Unknown | Online | Offline

datatype control = No_control | Av_adapters | Av_drives | Av_updates | Av_services

datatype kind = K_info | K_drives | K_updates | K_adapters | K_service | K_services

record get_request =
  gr_path :: string
  gr_kind :: kind
  gr_control :: control

datatype payload =
    P_info msg_system
  | P_drives msg_drives
  | P_updates msg_updates
  | P_adapters msg_adapters
  | P_service msg_serviceinfo
  | P_services msg_services

datatype client_signal =
    Changed_state
  | Changed_hostname
  | Changed_os
  | Changed_icon
  | Changed_kernel
  | Changed_arch
  | Changed_service_manager
  | Changed_enabled_pages
  | This_online
  | This_offline
  | Open_term
  | Connecting_fail string
  | Service_action_done

record client =
  c_state :: conn_state
  c_default_hostname :: string
  c_hostname :: string
  c_ip_address :: string
  c_mac_address :: string
  c_info :: msg_system
  c_updates :: "msg_update table"
  c_drives :: "drive_row table"
  c_adapters :: "adapter_row table"
  c_service_manager :: string
  c_service_types :: "string table"
  c_services :: service_model
  c_av_adapters :: bool
  c_av_drives :: bool
  c_av_updates :: bool
  c_av_services :: bool
  c_steps :: nat
  c_pending :: "get_request list"
  c_queued :: "payload list"
  c_signals :: "client_signal list"

definition no_info :: msg_system where
  "no_info = \<lparr>sys_hostname = [], sys_mac_address = [], sys_ip_address = [], sys_operating_system = [],
     sys_kernel = [], sys_architecture = [], sys_vm_platform = [], sys_icon = []\<rparr>"

definition new_client :: "font_metrics \<Rightarrow> string \<Rightarrow> string \<Rightarrow> string \<Rightarrow> client" where
  "new_client fm hostname mac_address ip_address =
     \<lparr>c_state = Unknown, c_default_hostname = hostname, c_hostname = hostname, c_ip_address = ip_address,
      c_mac_address = mac_address, c_info = no_info, c_updates = \<lparr>tbl_rows = [], tbl_log = []\<rparr>,
      c_drives = \<lparr>tbl_rows = [], tbl_log = []\<rparr>, c_adapters = \<lparr>tbl_rows = [], tbl_log = []\<rparr>,
      c_service_manager = [], c_service_types = \<lparr>tbl_rows = [], tbl_log = []\<rparr>,
      c_services = new_service_model fm, c_av_adapters = False, c_av_drives = False, c_av_updates = False,
      c_av_services = False, c_steps = 0, c_pending = [], c_queued = [], c_signals = []\<rparr>"

definition get_icon :: "bool \<Rightarrow> client \<Rightarrow> string" where
  "get_icon has_computer_fail c =
     (if sys_icon (c_info c) = []
      then (if has_computer_fail then ''computer-fail'' else ''computer-fail-symbolic'')
      else sys_icon (c_info c))"

definition emit :: "client_signal list \<Rightarrow> client \<Rightarrow> client" where
  "emit ss c = c\<lparr>c_signals := c_signals c @ ss\<rparr>"

definition max_steps :: nat where "max_steps = 6"

definition count_down :: "client \<Rightarrow> client outcome" where
  "count_down c = (if c_steps c = 0 then Inl UB else Inr (c\<lparr>c_steps := c_steps c - 1\<rparr>))"

fun count_downs :: "nat \<Rightarrow> client \<Rightarrow> client outcome" where
  "count_downs 0 c = Inr c"
| "count_downs (Suc n) c = bind (count_down c) (count_downs n)"

section \<open>Requests\<close>

definition network_get :: "string \<Rightarrow> kind \<Rightarrow> control \<Rightarrow> client \<Rightarrow> client" where
  "network_get path k ctl c = c\<lparr>c_pending := c_pending c @ [\<lparr>gr_path = path, gr_kind = k, gr_control = ctl\<rparr>]\<rparr>"

text \<open>What goes over the wire; the header \<open>Host\<close> is not read by the server.\<close>

definition get_message :: "string \<Rightarrow> get_request \<Rightarrow> request" where
  "get_message version r =
     \<lparr>req_method = Get, req_target = gr_path r,
      req_header = [User_agent \<mapsto> server_name version, Content_type \<mapsto> ''application/json''],
      req_body = [], req_version = 11, req_keep_alive = False\<rparr>"

definition post_message :: "string \<Rightarrow> string \<Rightarrow> request" where
  "post_message version path =
     \<lparr>req_method = Post, req_target = path, req_header = [User_agent \<mapsto> server_name version],
      req_body = [], req_version = 11, req_keep_alive = False\<rparr>"

definition shutdown_message :: "string \<Rightarrow> request" where
  "shutdown_message version = post_message version ''/power/shutdown''"

definition reboot_message :: "string \<Rightarrow> request" where
  "reboot_message version = post_message version ''/power/reboot''"

text \<open>A request with a body: \<open>dump\<close> is the serializer, whose failure is caught and
  leaves nothing sent.\<close>

definition network_post ::
  "(json \<Rightarrow> string outcome) \<Rightarrow> string \<Rightarrow> string \<Rightarrow> json \<Rightarrow> string \<Rightarrow> request outcome" where
  "network_post dump version path data auth =
     bind (dump data) (\<lambda>body.
       Inr \<lparr>req_method = Post, req_target = path,
         req_header = [User_agent \<mapsto> server_name version, Authorization \<mapsto> auth],
         req_body = body, req_version = 11, req_keep_alive = False\<rparr>)"

definition control_message ::
  "(json \<Rightarrow> string outcome) \<Rightarrow> string \<Rightarrow> string \<Rightarrow> string \<Rightarrow> msg_control \<Rightarrow> request outcome" where
  "control_message dump version user pass data =
     network_post dump version ''/service'' (json_of_control data) (''Basic '' @ encode (user @ '':'' @ pass))"

text \<open>The end of a request: None when the exchange failed with an exception.\<close>

definition complete_control :: "nat option \<Rightarrow> client \<Rightarrow> client" where
  "complete_control status c =
     (case status of None \<Rightarrow> c
      | Some s \<Rightarrow> emit [if s \<noteq> 200 then Connecting_fail ''An error happened'' else Service_action_done] c)"

definition set_control :: "control \<Rightarrow> bool \<Rightarrow> client \<Rightarrow> client" where
  "set_control ctl b c =
     (case ctl of No_control \<Rightarrow> c
      | Av_adapters \<Rightarrow> emit [Changed_enabled_pages] (c\<lparr>c_av_adapters := b\<rparr>)
      | Av_drives \<Rightarrow> emit [Changed_enabled_pages] (c\<lparr>c_av_drives := b\<rparr>)
      | Av_updates \<Rightarrow> emit [Changed_enabled_pages] (c\<lparr>c_av_updates := b\<rparr>)
      | Av_services \<Rightarrow> emit [Changed_enabled_pages] (c\<lparr>c_av_services := b\<rparr>))"

definition decode_payload :: "(string \<Rightarrow> json outcome) \<Rightarrow> kind \<Rightarrow> string \<Rightarrow> payload outcome" where
  "decode_payload parse k body =
     bind (parse body) (\<lambda>j.
       case k of
         K_info \<Rightarrow> bind (get_system j) (\<lambda>m. Inr (P_info m))
       | K_drives \<Rightarrow> bind (get_drives j) (\<lambda>m. Inr (P_drives m))
       | K_updates \<Rightarrow> bind (get_updates j) (\<lambda>m. Inr (P_updates m))
       | K_adapters \<Rightarrow> bind (get_adapters j) (\<lambda>m. Inr (P_adapters m))
       | K_service \<Rightarrow> bind (get_serviceinfo j) (\<lambda>m. Inr (P_service m))
       | K_services \<Rightarrow> bind (get_services j) (\<lambda>m. Inr (P_services m)))"

datatype reply = No_reply | Reply nat string

definition complete_get :: "(string \<Rightarrow> json outcome) \<Rightarrow> get_request \<Rightarrow> reply \<Rightarrow> client \<Rightarrow> client outcome" where
  "complete_get parse r reply c =
     (case reply of
        No_reply \<Rightarrow> count_down c
      | Reply status body \<Rightarrow>
          (if status \<noteq> 200 then
             bind (if gr_control r = Av_adapters
                   then count_down (if status = 501 then set_control (gr_control r) False c else c)
                   else Inr (if status = 501 then set_control (gr_control r) False c else c)) count_down
           else
             (let c' = set_control (gr_control r) True c in
              case decode_payload parse (gr_kind r) body of
                Inr p \<Rightarrow> Inr (c'\<lparr>c_queued := c_queued c' @ [p]\<rparr>)
              | Inl (Throw e) \<Rightarrow> count_down c'
              | Inl UB \<Rightarrow> Inl UB)))"

section \<open>Refresh\<close>

text \<open>The answer to \<open>HEAD /\<close>, None after a system error.\<close>

definition ping_computer :: "nat option \<Rightarrow> conn_state" where
  "ping_computer status = (if status = Some 302 then Online else Offline)"

definition get_or_count :: "bool \<Rightarrow> string \<Rightarrow> kind \<Rightarrow> client \<Rightarrow> client outcome" where
  "get_or_count avaliable path k c = (if avaliable then Inr (network_get path k No_control c) else count_down c)"

definition still :: "client \<Rightarrow> client outcome" where
  "still c =
     (if c_state c = Online then
        bind (count_downs 2 c) (\<lambda>c.
        bind (get_or_count (c_av_adapters c) ''/drives'' K_drives c) (\<lambda>c.
        bind (get_or_count (c_av_drives c) ''/updates'' K_updates c) (\<lambda>c.
        bind (get_or_count (c_av_updates c) ''/network/adapters'' K_adapters c) (\<lambda>c.
        get_or_count (c_av_services c) ''/services'' K_services c))))
      else count_downs max_steps c)"

definition gone :: "client \<Rightarrow> client outcome" where
  "gone c =
     (let c1 = (if c_hostname c \<noteq> c_default_hostname c
                then emit [Changed_hostname] (c\<lparr>c_hostname := c_default_hostname c\<rparr>) else c);
          c2 = emit [Changed_enabled_pages] (c1\<lparr>c_av_adapters := False, c_av_drives := False,
                 c_av_updates := False, c_av_services := False\<rparr>)
      in count_downs max_steps c2)"

definition come :: "client \<Rightarrow> client" where
  "come c =
     network_get ''/network/adapters'' K_adapters Av_adapters
     (network_get ''/updates'' K_updates Av_updates
     (network_get ''/drives'' K_drives Av_drives
     (network_get ''/service'' K_service Av_services
     (network_get ''/system'' K_info No_control c))))"

definition update_info :: "nat option \<Rightarrow> client \<Rightarrow> client outcome" where
  "update_info status c =
     (if c_steps c \<noteq> 0 then Inr c
      else
        (let c = c\<lparr>c_steps := max_steps\<rparr>; new_state = ping_computer status in
         if new_state = c_state c then still c
         else
           (let c = (if c_state c \<noteq> Unknown then emit [if new_state = Offline then This_offline else This_online] c else c);
                c = emit [Changed_state] (c\<lparr>c_state := new_state\<rparr>)
            in if new_state = Offline then gone c else Inr (come c))))"

section \<open>Handlers\<close>

definition handle_info :: "msg_system \<Rightarrow> client \<Rightarrow> client outcome" where
  "handle_info info c =
     (let c1 = emit [Changed_os, Changed_icon, Changed_kernel, Changed_arch] (c\<lparr>c_info := info\<rparr>) in
      count_down (if c_hostname c1 \<noteq> sys_hostname info
        then emit [Changed_hostname] (c1\<lparr>c_hostname := sys_hostname info\<rparr>) else c1))"

definition handle_updates :: "msg_updates \<Rightarrow> client \<Rightarrow> client outcome" where
  "handle_updates info c = bind (handle_updates_rows info (c_updates c)) (\<lambda>t. count_down (c\<lparr>c_updates := t\<rparr>))"

definition handle_drives :: "msg_drives \<Rightarrow> client \<Rightarrow> client outcome" where
  "handle_drives info c = bind (handle_drives_rows info (c_drives c)) (\<lambda>t. count_down (c\<lparr>c_drives := t\<rparr>))"

definition handle_adapters :: "msg_adapters \<Rightarrow> client \<Rightarrow> client outcome" where
  "handle_adapters info c = bind (handle_adapters_rows info (c_adapters c)) (\<lambda>t. count_down (c\<lparr>c_adapters := t\<rparr>))"

definition handle_service :: "msg_serviceinfo \<Rightarrow> client \<Rightarrow> client outcome" where
  "handle_service info c =
     bind (count_down ((emit [Changed_service_manager] (c\<lparr>c_service_manager := si_server info\<rparr>))
       \<lparr>c_service_types := handle_service_types info (c_service_types c)\<rparr>)) (\<lambda>c.
     Inr (network_get ''/services'' K_services No_control c))"

definition handle_services :: "font_metrics \<Rightarrow> msg_services \<Rightarrow> client \<Rightarrow> client outcome" where
  "handle_services fm info c =
     bind (handle_services_rows fm info (c_services c)) (\<lambda>t. count_down (c\<lparr>c_services := t\<rparr>))"

definition deliver :: "font_metrics \<Rightarrow> payload \<Rightarrow> client \<Rightarrow> client outcome" where
  "deliver fm p c =
     (case p of
        P_info m \<Rightarrow> handle_info m c
      | P_drives m \<Rightarrow> handle_drives m c
      | P_updates m \<Rightarrow> handle_updates m c
      | P_adapters m \<Rightarrow> handle_adapters m c
      | P_service m \<Rightarrow> handle_service m c
      | P_services m \<Rightarrow> handle_services fm m c)"

section \<open>Steps\<close>

datatype client_event = Tick "nat option" | Answer get_request reply | Delivered payload

inductive client_step ::
  "(string \<Rightarrow> json outcome) \<Rightarrow> font_metrics \<Rightarrow> client \<Rightarrow> client_event \<Rightarrow> client \<Rightarrow> bool" for parse fm where
  Tick: "update_info status c = Inr c' \<Longrightarrow> client_step parse fm c (Tick status) c'"
| Answer: "c_pending c = before @ r # after \<Longrightarrow>
    complete_get parse r reply (c\<lparr>c_pending := before @ after\<rparr>) = Inr c' \<Longrightarrow>
    client_step parse fm c (Answer r reply) c'"
| Deliver: "c_queued c = p # ps \<Longrightarrow> deliver fm p (c\<lparr>c_queued := ps\<rparr>) = Inr c' \<Longrightarrow>
    client_step parse fm c (Delivered p) c'"

inductive client_run ::
  "(string \<Rightarrow> json outcome) \<Rightarrow> font_metrics \<Rightarrow> client \<Rightarrow> client_event list \<Rightarrow> client \<Rightarrow> bool" for parse fm where
  Done: "client_run parse fm c [] c"
| Step: "client_step parse fm c e c' \<Longrightarrow> client_run parse fm c' es c'' \<Longrightarrow> client_run parse fm c (e # es) c''"

inductive_cases client_stepE: "client_step parse fm c e c'"

section \<open>The ledger of the latch\<close>

text \<open>A request for \<open>/service\<close> stands for two counts, its own and that of the request for
  \<open>/services\<close> its handler starts.\<close>

definition weight :: "kind \<Rightarrow> int" where
  "weight k = (if k = K_service then 2 else 1)"

definition kind_of :: "payload \<Rightarrow> kind" where
  "kind_of p =
     (case p of P_info _ \<Rightarrow> K_info | P_drives _ \<Rightarrow> K_drives | P_updates _ \<Rightarrow> K_updates
      | P_adapters _ \<Rightarrow> K_adapters | P_service _ \<Rightarrow> K_service | P_services _ \<Rightarrow> K_services)"

definition due :: "client \<Rightarrow> int" where
  "due c = sum_list (map (\<lambda>r. weight (gr_kind r)) (c_pending c)) + sum_list (map (\<lambda>p. weight (kind_of p)) (c_queued c))"

definition ledger :: "client \<Rightarrow> int" where
  "ledger c = int (c_steps c) - due c"

text \<open>The counts an event leaves out, less the ones it makes twice.\<close>

definition excess :: "(string \<Rightarrow> json outcome) \<Rightarrow> client_event \<Rightarrow> int" where
  "excess parse e =
     (case e of
        Answer r reply \<Rightarrow>
          (if gr_kind r = K_service \<and>
              (case reply of No_reply \<Rightarrow> True
               | Reply status body \<Rightarrow> status \<noteq> 200 \<or> (\<exists>e. decode_payload parse K_service body = Inl e))
           then 1 else 0) -
          (if gr_control r = Av_adapters \<and> (\<exists>status body. reply = Reply status body \<and> status \<noteq> 200)
           then 1 else 0)
      | _ \<Rightarrow> 0)"

lemma ledger_count_down: "count_down c = Inr c' \<Longrightarrow> ledger c' = ledger c - 1"
  by (auto simp: count_down_def ledger_def due_def split: if_splits)

lemma ledger_count_downs: "count_downs n c = Inr c' \<Longrightarrow> ledger c' = ledger c - int n"
proof (induction n arbitrary: c)
  case 0
  then show ?case by simp
next
  case (Suc n)
  then obtain c1 where "count_down c = Inr c1" "count_downs n c1 = Inr c'" by (auto simp: bind_eq_Inr_iff)
  with Suc.IH ledger_count_down show ?case by fastforce
qed

lemma ledger_emit [simp]: "ledger (emit ss c) = ledger c"
  by (simp add: emit_def ledger_def due_def)

lemma ledger_set_control [simp]: "ledger (set_control ctl b c) = ledger c"
  by (cases ctl) (simp_all add: set_control_def, simp_all add: ledger_def due_def)

lemma ledger_network_get: "ledger (network_get path k ctl c) = ledger c - weight k"
  by (simp add: network_get_def ledger_def due_def)

lemma ledger_get_or_count:
  "get_or_count b path k c = Inr c' \<Longrightarrow> k \<noteq> K_service \<Longrightarrow> ledger c' = ledger c - 1"
  by (auto simp: get_or_count_def ledger_network_get weight_def ledger_count_down split: if_splits)

lemma ledger_still: "still c = Inr c' \<Longrightarrow> ledger c' = ledger c - 6"
  by (auto simp: still_def bind_eq_Inr_iff max_steps_def simp del: count_downs.simps
    split: if_splits dest!: ledger_count_downs ledger_get_or_count)

lemma ledger_gone: "gone c = Inr c' \<Longrightarrow> ledger c' = ledger c - 6"
  unfolding gone_def Let_def
  by (drule ledger_count_downs) (simp add: max_steps_def, simp add: ledger_def due_def emit_def)

lemma ledger_come: "ledger (come c) = ledger c - 6"
  by (simp add: come_def ledger_network_get weight_def)

lemma ledger_update_info: "update_info status c = Inr c' \<Longrightarrow> ledger c' = ledger c"
proof (cases "c_steps c = 0")
  case True
  assume u: "update_info status c = Inr c'"
  let ?c = "c\<lparr>c_steps := max_steps\<rparr>"
  have l: "ledger ?c = ledger c + 6" using True by (simp add: ledger_def due_def max_steps_def)
  let ?d = "(if c_state ?c \<noteq> Unknown then emit [if ping_computer status = Offline then This_offline else This_online] ?c else ?c)"
  let ?e = "emit [Changed_state] (?d\<lparr>c_state := ping_computer status\<rparr>)"
  have e: "ledger ?e = ledger ?c" by (simp add: ledger_def due_def emit_def)
  have "update_info status c = (if ping_computer status = c_state ?c then still ?c
      else if ping_computer status = Offline then gone ?e else Inr (come ?e))"
    using True unfolding update_info_def Let_def by simp
  with u have "(if ping_computer status = c_state ?c then still ?c
      else if ping_computer status = Offline then gone ?e else Inr (come ?e)) = Inr c'" by (simp only:)
  then consider "still ?c = Inr c'" | "gone ?e = Inr c'" | "c' = come ?e" by (metis sum.inject(2))
  then show ?thesis
  proof cases
    case 1
    then show ?thesis using ledger_still l by fastforce
  next
    case 2
    then show ?thesis using ledger_gone l e by fastforce
  next
    case 3
    then show ?thesis using ledger_come [of ?e] l e by (simp only:)
  qed
qed (simp add: update_info_def)

lemma decode_payload_kind: "decode_payload parse k body = Inr p \<Longrightarrow> kind_of p = k"
  by (cases k) (auto simp: decode_payload_def kind_of_def bind_eq_Inr_iff split: option.splits)


lemma ledger_complete_get:
  assumes "complete_get parse r reply c = Inr c'"
  shows "ledger c' = ledger c - weight (gr_kind r) + excess parse (Answer r reply)"
proof (cases reply)
  case No_reply
  with assms have "ledger c' = ledger c - 1" by (simp add: complete_get_def ledger_count_down)
  then show ?thesis by (simp add: No_reply excess_def weight_def)
next
  case (Reply status body)
  let ?c = "if status = 501 then set_control (gr_control r) False c else c"
  show ?thesis
  proof (cases "status = 200")
    case False
    have "bind (if gr_control r = Av_adapters then count_down ?c else Inr ?c) count_down = Inr c'"
      using assms False by (simp add: complete_get_def Reply)
    then obtain c1 where "(if gr_control r = Av_adapters then count_down ?c else Inr ?c) = Inr c1" "count_down c1 = Inr c'"
      unfolding bind_eq_Inr_iff by blast
    then have "ledger c' = ledger ?c - (if gr_control r = Av_adapters then 2 else 1)"
      by (auto dest!: ledger_count_down split: if_splits)
    then show ?thesis using False by (simp add: Reply excess_def weight_def)
  next
    case True
    show ?thesis
    proof (cases "decode_payload parse (gr_kind r) body")
      case (Inr p)
      with decode_payload_kind [OF Inr] assms True show ?thesis
        by (auto simp: complete_get_def Reply Let_def excess_def)
          (simp_all add: ledger_def due_def set_control_def emit_def split: control.splits)
    next
      case (Inl e)
      then obtain x where "count_down (set_control (gr_control r) True c) = Inr c'" "e = Throw x"
        using assms True by (cases e) (auto simp: complete_get_def Reply Let_def)
      then have "ledger c' = ledger c - 1" by (simp add: ledger_count_down)
      then show ?thesis using True Inl by (auto simp: Reply excess_def weight_def)
    qed
  qed
qed

lemma ledger_rows [simp]:
  "ledger (c\<lparr>c_updates := u\<rparr>) = ledger c" "ledger (c\<lparr>c_drives := d\<rparr>) = ledger c"
  "ledger (c\<lparr>c_adapters := a\<rparr>) = ledger c" "ledger (c\<lparr>c_services := s\<rparr>) = ledger c"
  "ledger (c\<lparr>c_info := i\<rparr>) = ledger c" "ledger (c\<lparr>c_hostname := h\<rparr>) = ledger c"
  "ledger (c\<lparr>c_service_manager := m\<rparr>) = ledger c" "ledger (c\<lparr>c_service_types := t\<rparr>) = ledger c"
  by (simp_all add: ledger_def due_def)

lemma ledger_deliver:
  "deliver fm p c = Inr c' \<Longrightarrow> ledger c' = ledger c - weight (kind_of p)"
  by (cases p)
    (auto simp: deliver_def kind_of_def weight_def handle_info_def handle_updates_def handle_drives_def
      handle_adapters_def handle_service_def handle_services_def bind_eq_Inr_iff Let_def ledger_network_get
      dest!: ledger_count_down split: if_splits)

lemma ledger_step:
  assumes "client_step parse fm c e c'"
  shows "ledger c' = ledger c + excess parse e"
  using assms
proof (cases rule: client_step.cases)
  case (Tick status)
  then show ?thesis by (simp add: ledger_update_info excess_def)
next
  case (Answer before r after reply)
  then have "ledger c' = ledger (c\<lparr>c_pending := before @ after\<rparr>) - weight (gr_kind r) + excess parse e"
    by (simp add: ledger_complete_get)
  with Answer(2) show ?thesis by (simp add: ledger_def due_def)
next
  case (Deliver p ps)
  then have "ledger c' = ledger (c\<lparr>c_queued := ps\<rparr>) - weight (kind_of p)" by (simp add: ledger_deliver)
  with Deliver(2) show ?thesis by (simp add: ledger_def due_def Deliver(1) excess_def)
qed

lemma ledger_run: "client_run parse fm c es c' \<Longrightarrow> ledger c' = ledger c + sum_list (map (excess parse) es)"
  by (induction rule: client_run.induct) (simp_all add: ledger_step)

section \<open>A request that is answered\<close>

lemma set_control_simps [simp]:
  "c_queued (set_control ctl b c) = c_queued c" "c_steps (set_control ctl b c) = c_steps c"
  "c_adapters (set_control ctl b c) = c_adapters c"
  by (cases ctl; simp add: set_control_def emit_def)+

lemma answer_and_deliver:
  assumes "c_pending c = before @ r # after" and "c_queued c = []"
    and "decode_payload parse (gr_kind r) body = Inr p"
    and "deliver fm p (set_control (gr_control r) True (c\<lparr>c_pending := before @ after\<rparr>)) = Inr c'"
  shows "client_run parse fm c [Answer r (Reply 200 body), Delivered p] c'"
proof -
  let ?c = "set_control (gr_control r) True (c\<lparr>c_pending := before @ after\<rparr>)"
  have "complete_get parse r (Reply 200 body) (c\<lparr>c_pending := before @ after\<rparr>) = Inr (?c\<lparr>c_queued := [p]\<rparr>)"
    using assms(2,3) by (simp add: complete_get_def Let_def)
  then have a: "client_step parse fm c (Answer r (Reply 200 body)) (?c\<lparr>c_queued := [p]\<rparr>)"
    by (rule client_step.Answer [OF assms(1)])
  have "?c\<lparr>c_queued := []\<rparr> = ?c" using assms(2) by (intro client.equality) simp_all
  then have "client_step parse fm (?c\<lparr>c_queued := [p]\<rparr>) (Delivered p) c'"
    using assms(4) by (intro client_step.Deliver [where ps = "[]"]) simp_all
  with a show ?thesis by (blast intro: client_run.intros)
qed

lemma deliver_adapters:
  assumes "handle_adapters_rows m (c_adapters c) = Inr t" and "c_steps c \<noteq> 0"
  shows "\<exists>c'. deliver fm (P_adapters m) c = Inr c' \<and> c_adapters c' = t"
  using assms by (simp add: deliver_def handle_adapters_def count_down_def)

section \<open>Runs in which nothing answers\<close>

lemma answer_all:
  "c_pending c = rs \<Longrightarrow> length rs \<le> c_steps c \<Longrightarrow>
   client_run parse fm c (map (\<lambda>r. Answer r No_reply) rs) (c\<lparr>c_pending := [], c_steps := c_steps c - length rs\<rparr>)"
proof (induction rs arbitrary: c)
  case Nil
  then have "c\<lparr>c_pending := [], c_steps := c_steps c - length []\<rparr> = c" by simp
  then show ?case by (simp add: client_run.Done)
next
  case (Cons r rs)
  let ?c = "c\<lparr>c_pending := rs, c_steps := c_steps c - 1\<rparr>"
  have "client_step parse fm c (Answer r No_reply) ?c"
    using Cons.prems by (intro client_step.Answer [of c "[]" r rs]) (auto simp: complete_get_def count_down_def)
  moreover have "client_run parse fm ?c (map (\<lambda>r. Answer r No_reply) rs)
      (?c\<lparr>c_pending := [], c_steps := c_steps ?c - length rs\<rparr>)"
    using Cons.prems by (intro Cons.IH) simp_all
  ultimately show ?case by (simp add: client_run.Step)
qed

section \<open>Properties\<close>

text \<open>(C6) The latch at every moment of every run: it holds one count for each request that is
  running and each message that waits for its handler, two for those of \<open>/service\<close>; and what is off
  by then are the failures of \<open>/service\<close>, each of which leaves a count behind, and the refusals of
  \<open>/network/adapters\<close>, each of which counts twice.\<close>

theorem refresh_ledger:
  assumes "client_run parse fm (new_client fm hostname mac ip) es c"
  shows "int (c_steps c) =
    sum_list (map (\<lambda>r. if gr_kind r = K_service then 2 else 1) (c_pending c)) +
    sum_list (map (\<lambda>p. if \<exists>m. p = P_service m then 2 else 1) (c_queued c)) +
    sum_list (map (excess parse) es)"
proof -
  have "(\<lambda>p. weight (kind_of p)) = (\<lambda>p. if \<exists>m. p = P_service m then 2 else 1)"
    by (rule ext) (auto simp: weight_def kind_of_def split: payload.splits)
  moreover have "ledger (new_client fm hostname mac ip) = 0" by (simp add: ledger_def due_def new_client_def)
  ultimately show ?thesis
    using ledger_run [OF assms] by (simp add: ledger_def due_def weight_def)
qed

definition lost_refresh :: "client_event list" where
  "lost_refresh = Tick (Some 302) # map (\<lambda>r. Answer r No_reply) (c_pending (come (new_client mono_font [] [] [])))"

lemma lost_refresh_run:
  "\<exists>c. client_run (\<lambda>s. Inl (Throw Json_parse_error)) mono_font (new_client mono_font [] [] []) lost_refresh c \<and>
     c_pending c = [] \<and> c_queued c = [] \<and> c_steps c = 1"
proof -
  let ?n = "new_client mono_font [] [] []"
  define d where "d = come (emit [Changed_state] (?n\<lparr>c_steps := 6, c_state := Online\<rparr>))"
  have u: "update_info (Some 302) ?n = Inr d"
    by (simp add: update_info_def d_def new_client_def ping_computer_def max_steps_def emit_def)
  have d: "c_pending d = c_pending (come ?n)" "length (c_pending d) = 5" "c_steps d = 6" "c_queued d = []"
    by (simp_all add: d_def come_def network_get_def emit_def new_client_def)
  have "client_run (\<lambda>s. Inl (Throw Json_parse_error)) mono_font d (map (\<lambda>r. Answer r No_reply) (c_pending d))
      (d\<lparr>c_pending := [], c_steps := c_steps d - length (c_pending d)\<rparr>)"
    by (rule answer_all) (simp_all add: d(2,3))
  then have "client_run (\<lambda>s. Inl (Throw Json_parse_error)) mono_font ?n lost_refresh
      (d\<lparr>c_pending := [], c_steps := c_steps d - length (c_pending d)\<rparr>)"
    unfolding lost_refresh_def d(1) [symmetric] by (rule client_run.Step [OF client_step.Tick [OF u]])
  then show ?thesis using d by (intro exI [of _ "d\<lparr>c_pending := [], c_steps := c_steps d - length (c_pending d)\<rparr>"]) simp
qed

theorem refresh_ledger_witness:
  "sum_list (map (excess (\<lambda>s. Inl (Throw Json_parse_error))) lost_refresh) = 1"
proof -
  from lost_refresh_run obtain c where
    c: "client_run (\<lambda>s. Inl (Throw Json_parse_error)) mono_font (new_client mono_font [] [] []) lost_refresh c"
    "c_pending c = []" "c_queued c = []" "c_steps c = 1" by blast
  from refresh_ledger [OF c(1)] c(2-4) show ?thesis by simp
qed

text \<open>(C25) When a refresh has come to rest with nothing left to run or to deliver, the next one
  starts exactly when the failures balanced: after one that left a count behind, for instance because
  \<open>/service\<close> was not answered, every later refresh of this server returns without doing anything.\<close>

theorem refresh_stuck:
  assumes "client_run parse fm (new_client fm hostname mac ip) es c"
    and "c_pending c = []" and "c_queued c = []"
  shows "if sum_list (map (excess parse) es) = 0 then c_steps c = 0
    else (\<forall>status. update_info status c = Inr c)"
proof -
  have "ledger (new_client fm hostname mac ip) = 0" by (simp add: ledger_def due_def new_client_def)
  with ledger_run [OF assms(1)] assms(2,3) have "int (c_steps c) = sum_list (map (excess parse) es)"
    by (simp add: ledger_def due_def)
  then show ?thesis by (auto simp: update_info_def)
qed

theorem refresh_stuck_witness:
  "\<exists>c. client_run (\<lambda>s. Inl (Throw Json_parse_error)) mono_font (new_client mono_font [] [] []) lost_refresh c \<and>
     (\<forall>status. update_info status c = Inr c)"
proof -
  from lost_refresh_run obtain c where
    c: "client_run (\<lambda>s. Inl (Throw Json_parse_error)) mono_font (new_client mono_font [] [] []) lost_refresh c"
    "c_pending c = []" "c_queued c = []" "c_steps c = 1" by blast
  have n: "sum_list (map (excess (\<lambda>s. Inl (Throw Json_parse_error))) lost_refresh) \<noteq> 0"
    using ledger_run [OF c(1)] c(2-4) by (simp add: ledger_def due_def new_client_def)
  have "\<forall>status. update_info status c = Inr c"
    using refresh_stuck [OF c(1-3)] unfolding if_not_P [OF n] .
  with c(1) show ?thesis by blast
qed


end
