(* ===== verification/Remote.thy ===== *)
theory Remote
  imports Client_Server Host_Info Terminal
begin

text \<open>
  How the client reaches a machine outside of HTTP: the packet that wakes it up and the SSH session of
  a terminal (\<open>wake_up\<close> and \<open>open_term\<close> of \<open>src/client/objects/server.cpp\<close>,
  \<open>src/client/term/pty.cpp\<close>), and the size of the screen the terminal is shown on
  (\<open>src/client/term/screen.cpp\<close>).  The results of the calls of libssh and of the sockets are
  arguments; lists of \<open>ssh_op\<close> record the calls made.
\<close>

section \<open>wake_up\<close>

text \<open>\<open>sscanf\<close> with \<open>%hhx:%hhx:%hhx:%hhx:%hhx:%hhx\<close>: the bytes converted before
  the first mismatch.  A number above the range of \<open>unsigned long\<close> is read as its largest value.\<close>

fun scan_bytes :: "nat \<Rightarrow> string \<Rightarrow> 8 word list" where
  "scan_bytes 0 s = []"
| "scan_bytes (Suc n) s =
     (case strto 16 s of
        None \<Rightarrow> []
      | Some (negative, digits, used) \<Rightarrow>
          (let v = min (number 16 digits) (2 ^ 64 - 1);
               b = (if negative \<and> v < 2 ^ 64 - 1 then - of_nat v else of_nat v)
           in b # (case drop used s of CHR '':'' # t \<Rightarrow> scan_bytes n t | _ \<Rightarrow> [])))"

definition wol_dest :: "string \<Rightarrow> 8 word list" where
  "wol_dest mac_address =
     (let bs = scan_bytes 6 mac_address in bs @ replicate (6 - length bs) 0)"

definition magic_packet :: "string \<Rightarrow> 8 word list" where
  "magic_packet mac_address = replicate 6 0xFF @ concat (replicate 16 (wol_dest mac_address))"

record datagram =
  dg_address :: "32 word"
  dg_port :: "16 word"
  dg_data :: "8 word list"

definition wake_up :: "16 word \<Rightarrow> bool \<Rightarrow> bool \<Rightarrow> string \<Rightarrow> datagram outcome" where
  "wake_up port setsockopt_ok sendto_ok mac_address =
     (if \<not> setsockopt_ok then Inl (Throw Runtime_error)
      else if \<not> sendto_ok then Inl (Throw Runtime_error)
      else Inr \<lparr>dg_address = 0xFFFFFFFF, dg_port = port, dg_data = magic_packet mac_address\<rparr>)"

section \<open>open_term\<close>

datatype ssh_op =
    Ssh_new
  | Ssh_host string
  | Ssh_user string
  | Ssh_connect
  | Ssh_password string
  | Channel_new
  | Channel_open
  | Channel_close
  | Channel_send_eof
  | Channel_free
  | Ssh_disconnect
  | Ssh_free

record ssh_results =
  sr_new :: bool
  sr_connect :: bool
  sr_auth :: bool
  sr_channel :: bool
  sr_open :: bool
  sr_error :: string

definition open_term :: "ssh_results \<Rightarrow> string \<Rightarrow> string \<Rightarrow> string \<Rightarrow> ssh_op list \<times> client_signal" where
  "open_term r ip_address user pass =
     (if \<not> sr_new r then ([Ssh_new], Connecting_fail ''Failed to create session'')
      else
        let ops = [Ssh_new, Ssh_host ip_address, Ssh_user user, Ssh_connect] in
        if \<not> sr_connect r then (ops @ [Ssh_free], Connecting_fail ''Could not connect to server'')
        else
          let ops = ops @ [Ssh_password pass] in
          if \<not> sr_auth r then (ops @ [Ssh_disconnect, Ssh_free], Connecting_fail (sr_error r))
          else
            let ops = ops @ [Channel_new] in
            if \<not> sr_channel r then (ops @ [Ssh_disconnect, Ssh_free], Connecting_fail (sr_error r))
            else
              let ops = ops @ [Channel_open] in
              if \<not> sr_open r then (ops @ [Channel_free, Ssh_disconnect, Ssh_free], Connecting_fail (sr_error r))
              else (ops, Open_term))"

section \<open>ssh_connection\<close>

text \<open>Handles are numbers, None is the null pointer.\<close>

record ssh_connection =
  sc_session :: "nat option"
  sc_channel :: "nat option"

definition no_connection :: ssh_connection where
  "no_connection = \<lparr>sc_session = None, sc_channel = None\<rparr>"

text \<open>The new connection and what is left of the other; the assignment forgets what it held.\<close>

definition move_construct :: "ssh_connection \<Rightarrow> ssh_connection \<times> ssh_connection" where
  "move_construct other = (other, no_connection)"

definition move_assign :: "ssh_connection \<Rightarrow> ssh_connection \<Rightarrow> ssh_connection \<times> ssh_connection" where
  "move_assign this other =
     (this\<lparr>sc_session := sc_session other, sc_channel := sc_channel other\<rparr>, no_connection)"

definition destroy :: "ssh_connection \<Rightarrow> ssh_op list" where
  "destroy c =
     (if sc_channel c \<noteq> None then [Channel_close, Channel_send_eof, Channel_free] else []) @
     (if sc_session c \<noteq> None then [Ssh_disconnect, Ssh_free] else [])"

section \<open>Pty\<close>

record pty =
  pty_connection :: ssh_connection
  pty_size :: "int \<times> int"
  pty_timer :: bool

definition new_pty :: "ssh_connection \<Rightarrow> pty" where
  "new_pty server = \<lparr>pty_connection = fst (move_construct server), pty_size = (- 1, - 1), pty_timer = False\<rparr>"

definition pty_start :: "int \<times> int \<Rightarrow> pty \<Rightarrow> pty" where
  "pty_start sz p = p\<lparr>pty_timer := True, pty_size := sz\<rparr>"

text \<open>\<open>changed\<close> is the success of \<open>ssh_channel_change_pty_size\<close>; the flag tells
  whether it is called.\<close>

definition pty_set_size :: "bool \<Rightarrow> int \<times> int \<Rightarrow> pty \<Rightarrow> pty \<times> bool" where
  "pty_set_size changed sz p =
     (if pty_size p = sz then (p, False)
      else if \<not> changed then (p, True)
      else (p\<lparr>pty_size := sz\<rparr>, True))"

definition signal_strings :: "string list" where
  "signal_strings =
     [''HUP'', ''INT'', ''QUIT'', ''ILL'', ''TRAP'', ''ABRT'', ''BUS'', ''FPE'', ''KILL'', ''USR1'',
      ''SEGV'', ''USR2'', ''PIPE'', ''ALRM'', ''TERM'', ''STKFLT'', ''CHLD'', ''CONT'', ''STOP'', ''TSTP'',
      ''TTIN'', ''TTOU'', ''URG'', ''XCPU'', ''XFSZ'', ''VTALRM'', ''PROF'', ''WINCH'', ''IO'', ''PWR'', ''SYS'']"

definition send_signal :: "int \<Rightarrow> string outcome" where
  "send_signal signal = (if signal < 0 then Inl UB else vec_get signal_strings (nat signal))"

text \<open>\<open>reads k\<close> is the result of call \<open>k\<close> of the read function and the bytes it
  puts into the buffer; an error is a negative result and leaves the buffer empty.  The loop ends at the
  result 0, or not at all.\<close>

partial_function (option) pty_read :: "(nat \<Rightarrow> int \<times> string) \<Rightarrow> nat \<Rightarrow> string \<Rightarrow> (string \<times> nat) option" where
  "pty_read reads k out =
     (if fst (reads k) = 0 then Some (out, Suc k)
      else pty_read reads (Suc k) (out @ takeWhile (\<lambda>c. c \<noteq> CHR 0x00) (snd (reads k))))"

text \<open>\<open>read_stdout\<close> and \<open>read_stderr\<close>.\<close>

definition read_std :: "bool \<Rightarrow> bool \<Rightarrow> (nat \<Rightarrow> int \<times> string) \<Rightarrow> nat \<Rightarrow> (string \<times> nat) option" where
  "read_std is_open is_eof reads k = (if \<not> (is_open \<and> \<not> is_eof) then Some ([], k) else pty_read reads k [])"

text \<open>The texts emitted.\<close>

definition check_for_data ::
  "bool \<Rightarrow> bool \<Rightarrow> (nat \<Rightarrow> int \<times> string) \<Rightarrow> (nat \<Rightarrow> int \<times> string) \<Rightarrow> string list option" where
  "check_for_data is_open is_eof std_out std_err =
     (if \<not> (is_open \<and> \<not> is_eof) then Some []
      else
        case read_std is_open is_eof std_out 0 of None \<Rightarrow> None
        | Some (text, _) \<Rightarrow>
            (case read_std is_open is_eof std_err 0 of None \<Rightarrow> None
             | Some (text', _) \<Rightarrow>
                 Some ((if text \<noteq> [] then [text] else []) @ (if text' \<noteq> [] then [text'] else []))))"

section \<open>Screen\<close>

text \<open>\<open>(int)floor((width - padding * 2) / char_width) - 1\<close> in doubles.\<close>

definition screen_cells :: "rat \<Rightarrow> rat \<Rightarrow> rat \<Rightarrow> int outcome" where
  "screen_cells width padding cell =
     bind (double_to_int 31 (- (2 ^ 31))
       (map_option (\<lambda>q. of_int \<lfloor>q\<rfloor>) (double_div (double_of (width - double_of (padding * 2))) cell))) (\<lambda>n.
     if n = - (2 ^ 31) then Inl UB else Inr (n - 1))"

definition get_columns :: "(rat \<times> rat) option \<Rightarrow> rat \<Rightarrow> int outcome" where
  "get_columns parent char_width =
     (case parent of None \<Rightarrow> Inr 1 | Some (width, padding) \<Rightarrow> screen_cells width padding char_width)"

definition get_rows :: "(rat \<times> rat) option \<Rightarrow> rat \<Rightarrow> int outcome" where
  "get_rows parent line_spacing =
     (case parent of None \<Rightarrow> Inr 1 | Some (height, padding) \<Rightarrow> screen_cells height padding line_spacing)"

record pen =
  pen_x :: rat
  pen_y :: rat
  pen_count :: int

text \<open>\<open>paint\<close>: the symbols with the places they are drawn at.\<close>

definition paint_symbol :: "int \<Rightarrow> rat \<Rightarrow> rat \<Rightarrow> rat \<Rightarrow> pen \<times> (rat \<times> rat \<times> symbol) list \<Rightarrow> symbol \<Rightarrow> pen \<times> (rat \<times> rat \<times> symbol) list" where
  "paint_symbol columns char_width spacing ascent pd s =
     (case pd of (p, drawn) \<Rightarrow>
      let p' = p\<lparr>pen_x := double_of (pen_x p + char_width), pen_count := pen_count p + 1\<rparr>
      in ((if pen_count p' \<ge> columns
           then \<lparr>pen_x = 0, pen_y = double_of (pen_y p' + spacing), pen_count = 0\<rparr> else p'),
          drawn @ [(pen_x p, double_of (pen_y p + ascent), s)]))"

definition paint_line :: "int \<Rightarrow> rat \<Rightarrow> rat \<Rightarrow> rat \<Rightarrow> pen \<times> (rat \<times> rat \<times> symbol) list \<Rightarrow> symbol list \<Rightarrow> pen \<times> (rat \<times> rat \<times> symbol) list" where
  "paint_line columns char_width spacing ascent pd line =
     (case foldl (paint_symbol columns char_width spacing ascent) pd line of
        (p, drawn) \<Rightarrow> (\<lparr>pen_x = 0, pen_y = double_of (pen_y p + spacing), pen_count = 0\<rparr>, drawn))"

definition paint :: "int \<Rightarrow> rat \<Rightarrow> rat \<Rightarrow> rat \<Rightarrow> terminal \<Rightarrow> (rat \<times> rat \<times> symbol) list" where
  "paint screen_columns char_width spacing ascent t =
     snd (foldl (paint_line (screen_columns + 5) char_width spacing ascent)
       (\<lparr>pen_x = 0, pen_y = 0, pen_count = 0\<rparr>, []) (term_data t))"

text \<open>\<open>update_scroll_height\<close>: the height of the item, and where the view scrolls to.\<close>

definition scroll_height :: "terminal \<Rightarrow> rat \<Rightarrow> rat" where
  "scroll_height t spacing = double_of (of_int (line_count t) * spacing)"

definition scroll_to :: "rat \<Rightarrow> rat \<Rightarrow> rat option" where
  "scroll_to height content_height =
     (if height < content_height then Some (double_of (content_height - height)) else None)"

text \<open>\<open>set_server\<close> and \<open>size_changed\<close>: the terminal that was handed in gives its
  connection to the one the screen keeps, which starts with the size of the screen.\<close>

definition set_server ::
  "(rat \<times> rat) option \<Rightarrow> (rat \<times> rat) option \<Rightarrow> rat \<Rightarrow> rat \<Rightarrow> pty \<Rightarrow> (pty \<times> pty) outcome" where
  "set_server across down char_width line_spacing server =
     bind (get_columns across char_width) (\<lambda>cols.
     bind (get_rows down line_spacing) (\<lambda>rows.
     Inr (pty_start (cols, rows) (new_pty (pty_connection server)),
          server\<lparr>pty_connection := snd (move_construct (pty_connection server))\<rparr>)))"

definition size_changed ::
  "(rat \<times> rat) option \<Rightarrow> (rat \<times> rat) option \<Rightarrow> rat \<Rightarrow> rat \<Rightarrow> bool \<Rightarrow> pty \<Rightarrow> (pty \<times> bool) outcome" where
  "size_changed across down char_width line_spacing changed p =
     bind (get_columns across char_width) (\<lambda>cols.
     bind (get_rows down line_spacing) (\<lambda>rows.
     Inr (pty_set_size changed (cols, rows) p)))"

text \<open>\<open>keyPressEvent\<close>: the text sent to the channel, or None when the event is ignored.\<close>

definition key_press :: "pty option \<Rightarrow> string \<Rightarrow> string option" where
  "key_press p text = (if p \<noteq> None then Some text else None)"

section \<open>Addresses\<close>

definition upper_digit :: "nat \<Rightarrow> char" where
  "upper_digit k = ''0123456789ABCDEF'' ! k"

lemma upper_digits:
  "list_all (\<lambda>k. hex_value (upper_digit k) = Some k \<and> \<not> isspace (upper_digit k) \<and>
     upper_digit k \<noteq> CHR ''-'' \<and> upper_digit k \<noteq> CHR ''+'' \<and>
     upper_digit k \<noteq> CHR ''x'' \<and> upper_digit k \<noteq> CHR ''X'')
   [0, 1, 2, 3, 4, 5, 6, 7, 8, 9, 10, 11, 12, 13, 14, 15]"
  by (simp add: upper_digit_def hex_value_def isspace_def)

lemma upper_digit_simps:
  assumes "k < 16"
  shows "hex_value (upper_digit k) = Some k" "\<not> isspace (upper_digit k)"
    "upper_digit k \<noteq> CHR ''-''" "upper_digit k \<noteq> CHR ''+''"
    "upper_digit k \<noteq> CHR ''x''" "upper_digit k \<noteq> CHR ''X''"
  using upper_digits below_16 [OF assms] by (simp_all only: list_all_iff) metis+

lemma colon_no_digit: "\<not> is_digit 16 (CHR '':'')"
  by (simp add: is_digit_def digit_value_def hex_value_def)

lemma hex_upper_scan:
  assumes "t = [] \<or> hd t = CHR '':''"
  shows "strto 16 (hex_upper b @ t) = Some (False, hex_upper b, 2)" and "number 16 (hex_upper b) = unat b"
proof -
  have "unat b < 16 * 16" using unsigned_less [of b] by simp
  then have j: "unat b div 16 < 16" by (rule less_mult_imp_div_less)
  have k: "unat b mod 16 < 16" by simp
  have u: "hex_upper b = [upper_digit (unat b div 16), upper_digit (unat b mod 16)]"
    by (simp add: hex_upper_def upper_digit_def)
  note h = upper_digit_simps [OF j] upper_digit_simps [OF k]
  have t: "takeWhile (is_digit 16) t = []" using assms colon_no_digit by (cases t) auto
  have d: "is_digit 16 (upper_digit (unat b div 16))" "is_digit 16 (upper_digit (unat b mod 16))"
    using h j k by (simp_all add: is_digit_def digit_value_def)
  show "strto 16 (hex_upper b @ t) = Some (False, hex_upper b, 2)"
    using h d t by (simp add: u strto_def skip_prefix_def Let_def)
  show "number 16 (hex_upper b) = unat b"
    using h j k by (simp add: u number_def digit_value_def)
qed

lemma scan_mac_text:
  "length bs \<le> n \<Longrightarrow> scan_bytes n (join (CHR '':'') (map hex_upper bs)) = bs"
proof (induction bs arbitrary: n)
  case Nil
  then show ?case by (cases n) (simp_all add: strto_def skip_prefix_def)
next
  case (Cons b bs)
  then obtain m where n: "n = Suc m" "length bs \<le> m" by (cases n) auto
  have w: "(of_nat (min (unat b) (2 ^ 64 - 1)) :: 8 word) = b"
  proof -
    have "unat b < 2 ^ 64 - 1" by (rule less_trans [OF unsigned_less]) simp
    then show ?thesis by (simp add: min_absorb1)
  qed
  show ?case
  proof (cases bs)
    case Nil
    with hex_upper_scan [of "[]" b] w show ?thesis by (simp add: n Let_def hex_upper_def)
  next
    case (Cons b' bs')
    let ?t = "CHR '':'' # join (CHR '':'') (map hex_upper bs)"
    have "join (CHR '':'') (map hex_upper (b # bs)) = hex_upper b @ ?t" by (simp add: Cons)
    moreover have "drop 2 (hex_upper b @ ?t) = ?t" by (simp add: hex_upper_def)
    ultimately show ?thesis
      using hex_upper_scan [of ?t b] w Cons.IH [OF n(2)] by (simp add: n(1) Let_def)
  qed
qed

section \<open>Properties\<close>

text \<open>(C37) The address the server reports wakes it up: from the text the server makes of the six
  bytes of its hardware address the client builds the packet that network cards listen for, six bytes of ones
  and sixteen times the address.\<close>

theorem wake_up_reported_address:
  assumes "length hw = 6"
  shows "wake_up port True True (mac_text hw) =
    Inr \<lparr>dg_address = 0xFFFFFFFF, dg_port = port, dg_data = replicate 6 0xFF @ concat (replicate 16 hw)\<rparr>"
  using scan_mac_text [of hw 6] assms by (simp add: wake_up_def magic_packet_def wol_dest_def mac_text_def)

theorem wake_up_reported_address_witness:
  "wake_up 9 True True (mac_text [1, 2, 3, 4, 5, 0xAB]) = Inr \<lparr>dg_address = 0xFFFFFFFF, dg_port = 9,
     dg_data = replicate 6 0xFF @ concat (replicate 16 [1, 2, 3, 4, 5, 0xAB])\<rparr>"
  by (rule wake_up_reported_address) simp

text \<open>(C38) The SSH session of a terminal is released exactly once, whatever fails: on a failure after
  the session was made \<open>open_term\<close> frees it, and the channel when there is one, and reports the failure;
  on success it frees nothing, and the connection it hands out, moved to any owner, frees both when it is
  destroyed, while the emptied one frees nothing.\<close>

theorem ssh_session_released:
  "(snd (open_term r ip user pass) = Open_term \<longleftrightarrow>
      sr_new r \<and> sr_connect r \<and> sr_auth r \<and> sr_channel r \<and> sr_open r) \<and>
   length (filter (\<lambda>x. x = Ssh_free) (fst (open_term r ip user pass))) =
     (if sr_new r \<and> snd (open_term r ip user pass) \<noteq> Open_term then 1 else 0) \<and>
   length (filter (\<lambda>x. x = Channel_free) (fst (open_term r ip user pass))) =
     (if sr_new r \<and> sr_connect r \<and> sr_auth r \<and> sr_channel r \<and> \<not> sr_open r then 1 else 0) \<and>
   destroy (fst (move_construct \<lparr>sc_session = Some s, sc_channel = Some c\<rparr>)) =
     [Channel_close, Channel_send_eof, Channel_free, Ssh_disconnect, Ssh_free] \<and>
   destroy (snd (move_construct \<lparr>sc_session = Some s, sc_channel = Some c\<rparr>)) = []"
  by (cases "sr_new r"; cases "sr_connect r"; cases "sr_auth r"; cases "sr_channel r"; cases "sr_open r")
    (simp_all add: open_term_def move_construct_def destroy_def no_connection_def)

lemma pty_read_ends:
  "pty_read reads k out = Some y \<Longrightarrow> \<exists>n \<ge> k. fst (reads n) = 0"
proof (erule pty_read.raw_induct [rotated, where P = "\<lambda>reads k out y. \<exists>n \<ge> k. fst (reads n) = 0"])
  fix f :: "(nat \<Rightarrow> int \<times> string) \<Rightarrow> nat \<Rightarrow> string \<Rightarrow> (string \<times> nat) option"
    and reads :: "nat \<Rightarrow> int \<times> string" and k out y
  assume ih: "\<And>reads k out y. f reads k out = Some y \<Longrightarrow> \<exists>n \<ge> k. fst (reads n) = 0"
    and eq: "(if fst (reads k) = 0 then Some (out, Suc k)
      else f reads (Suc k) (out @ takeWhile (\<lambda>c. c \<noteq> CHR 0x00) (snd (reads k)))) = Some y"
  show "\<exists>n \<ge> k. fst (reads n) = 0"
  proof (cases "fst (reads k) = 0")
    case False
    with eq have "f reads (Suc k) (out @ takeWhile (\<lambda>c. c \<noteq> CHR 0x00) (snd (reads k))) = Some y" by simp
    from ih [OF this] show ?thesis by (meson Suc_leD)
  qed blast
qed

lemma pty_read_steps:
  "\<forall>i < n. fst (reads (k + i)) \<noteq> 0 \<Longrightarrow> fst (reads (k + n)) = 0 \<Longrightarrow>
   pty_read reads k out = Some (out @ concat (map (\<lambda>i. takeWhile (\<lambda>c. c \<noteq> CHR 0x00) (snd (reads (k + i)))) [0..<n]), Suc (k + n))"
proof (induction n arbitrary: k out)
  case 0
  then show ?case by (subst pty_read.simps) simp
next
  case (Suc n)
  have first: "fst (reads k) \<noteq> 0" using Suc.prems(1) by force
  have "[0..<Suc n] = 0 # map Suc [0..<n]" by (simp add: map_Suc_upt upt_conv_Cons)
  moreover have "\<forall>i < n. fst (reads (Suc k + i)) \<noteq> 0" "fst (reads (Suc k + n)) = 0"
    using Suc.prems by force+
  ultimately show ?case
    using Suc.IH [of "Suc k" "out @ takeWhile (\<lambda>c. c \<noteq> CHR 0x00) (snd (reads k))"] first
    by (subst pty_read.simps) (simp add: comp_def)
qed


end
