(* ===== verification/Managers.thy ===== *)
theory Managers
  imports Client_Server Linux_Term
begin

text \<open>
  \<open>src/client/managers\<close>: the list of servers and its copy in the settings
  (\<open>servermanager.cpp\<close>), the settings (\<open>settings.cpp\<close>), and the numbering of the
  terminals a user can choose (\<open>terminfo.cpp\<close>), with the two models on top of them
  (\<open>models/serverlistmodel.cpp\<close>, \<open>models/termlist.cpp\<close>).  The store behind
  \<open>QSettings\<close> is a map; what the network answers is an argument.
\<close>

section \<open>servermanager.cpp\<close>

text \<open>A server as the manager sees it, and the rows its signal \<open>changed_state\<close> updates.\<close>

record managed =
  ms_hostname :: string
  ms_mac :: string
  ms_ip :: string
  ms_rows :: "int list"

text \<open>An array of settings: its size and its entries, host name, mac and ip.\<close>

record servers_array =
  sa_size :: nat
  sa_entry :: "nat \<Rightarrow> string \<times> string \<times> string"

text \<open>The notices of the list carry the number of rows at their time.\<close>

record manager =
  mg_servers :: "managed list"
  mg_store :: servers_array
  mg_model :: bool
  mg_log :: "(notice \<times> nat) list"

text \<open>The exchanges with an address: None where a step fails with an error code.\<close>

record probe =
  pr_resolved :: bool
  pr_head :: "nat option"
  pr_system :: "(nat \<times> string) option"

definition check_if_server :: "probe \<Rightarrow> bool outcome" where
  "check_if_server p =
     (if \<not> pr_resolved p then Inl (Throw System_error)
      else case pr_head p of None \<Rightarrow> Inr False | Some status \<Rightarrow> Inr (status = 302))"

definition get_system_info :: "(string \<Rightarrow> json outcome) \<Rightarrow> probe \<Rightarrow> msg_system outcome" where
  "get_system_info parse p =
     (case pr_system p of None \<Rightarrow> Inr no_info
      | Some (status, body) \<Rightarrow>
          (if status \<noteq> 200 then Inr no_info
           else bind (parse body) get_system))"

text \<open>The requests of the two, which go over one connection.\<close>

definition head_message :: request where
  "head_message =
     \<lparr>req_method = Other_verb, req_target = ''/'', req_header = Map.empty, req_body = [], req_version = 11,
      req_keep_alive = True\<rparr>"

definition system_message :: request where
  "system_message =
     \<lparr>req_method = Get, req_target = ''/system'', req_header = [Content_type \<mapsto> ''application/x-protobuf''],
      req_body = [], req_version = 11, req_keep_alive = True\<rparr>"

text \<open>The exchanges with a server that handles requests by \<open>handle\<close>; a handler that sends no response
  leaves the client without one.\<close>

definition answer_to :: "response option outcome \<Rightarrow> (nat \<times> string) option" where
  "answer_to a = (case a of Inr (Some r) \<Rightarrow> Some (res_status r, res_body r) | _ \<Rightarrow> None)"

definition probe_server :: "(request \<Rightarrow> 'w \<Rightarrow> response option outcome \<times> 'w) \<Rightarrow> 'w \<Rightarrow> probe" where
  "probe_server handle w =
     (case handle head_message w of
        (h, w') \<Rightarrow>
          \<lparr>pr_resolved = True, pr_head = map_option fst (answer_to h),
           pr_system = answer_to (fst (handle system_message w'))\<rparr>)"

definition manager_size :: "manager \<Rightarrow> nat" where
  "manager_size m = length (mg_servers m)"

definition server_at :: "manager \<Rightarrow> nat \<Rightarrow> managed outcome" where
  "server_at m index = vec_get (mg_servers m) index"

definition notify :: "notice \<Rightarrow> manager \<Rightarrow> manager" where
  "notify n m = (if mg_model m then m\<lparr>mg_log := mg_log m @ [(n, manager_size m)]\<rparr> else m)"

definition reload :: "manager \<Rightarrow> manager" where
  "reload m =
     m\<lparr>mg_servers := map (\<lambda>a. case sa_entry (mg_store m) a of (hostname, mac, ip) \<Rightarrow>
          \<lparr>ms_hostname = hostname, ms_mac = mac, ms_ip = ip, ms_rows = (if mg_model m then [int a] else [])\<rparr>)
        [0..<sa_size (mg_store m)]\<rparr>"

definition new_manager :: "servers_array \<Rightarrow> manager" where
  "new_manager store = reload \<lparr>mg_servers = [], mg_store = store, mg_model = False, mg_log = []\<rparr>"

definition set_model :: "manager \<Rightarrow> manager" where
  "set_model m =
     m\<lparr>mg_model := True,
       mg_servers := map (\<lambda>(a, s). s\<lparr>ms_rows := ms_rows s @ [int a]\<rparr>) (List.enumerate 0 (mg_servers m))\<rparr>"

definition write_entry :: "nat \<Rightarrow> managed \<Rightarrow> servers_array \<Rightarrow> servers_array" where
  "write_entry a s q = q\<lparr>sa_entry := (sa_entry q)(a := (ms_hostname s, ms_mac s, ms_ip s))\<rparr>"

definition remove_server :: "int \<Rightarrow> manager \<Rightarrow> manager outcome" where
  "remove_server index m =
     (let m1 = notify (Begin_remove index index) m in
      bind (vec_erase index 1 (mg_servers m1)) (\<lambda>servers.
      let q = (mg_store m1)\<lparr>sa_size := length servers\<rparr>
      in Inr (notify End_remove (m1\<lparr>mg_servers := servers,
           mg_store := fold (\<lambda>(a, s). write_entry a s) (List.enumerate 0 servers) q\<rparr>))))"

text \<open>The second half of \<open>change_server_options\<close>, with the answer of the server.\<close>

definition put_server :: "int \<Rightarrow> msg_system \<Rightarrow> string \<Rightarrow> manager \<Rightarrow> manager outcome" where
  "put_server index info ip m =
     (let new = (index = int (manager_size m));
          temp = \<lparr>ms_hostname = sys_hostname info, ms_mac = sys_mac_address info, ms_ip = ip,
                  ms_rows = (if mg_model m then [index] else [])\<rparr>;
          m1 = (if new then notify End_insert
                  (notify (Begin_insert (int (manager_size m)) (int (manager_size m))) m) else m)
      in bind (if new then Inr (mg_servers m1 @ [temp])
               else if index < 0 \<or> int (manager_size m1) \<le> index then Inl UB
               else Inr ((mg_servers m1)[nat index := temp])) (\<lambda>servers.
         Inr (m1\<lparr>mg_servers := servers,
           mg_store := write_entry (nat index) temp ((mg_store m1)\<lparr>sa_size := length servers\<rparr>)\<rparr>)))"

definition change_server_options ::
  "(string \<Rightarrow> json outcome) \<Rightarrow> probe \<Rightarrow> int \<Rightarrow> string \<Rightarrow> manager \<Rightarrow> manager outcome" where
  "change_server_options parse p index ip m =
     bind (check_if_server p) (\<lambda>found.
     if \<not> found then Inr m
     else
       bind (get_system_info parse p) (\<lambda>info.
       if sys_hostname info = [] \<or> sys_mac_address info = [] \<or> sys_ip_address info = [] then Inr m
       else put_server index info ip m))"

definition add_server :: "(string \<Rightarrow> json outcome) \<Rightarrow> probe \<Rightarrow> string \<Rightarrow> manager \<Rightarrow> manager outcome" where
  "add_server parse p ip m = change_server_options parse p (int (manager_size m)) ip m"

text \<open>\<open>update_server_info(true)\<close> after the refreshes were started: whether it goes on
  waiting for a server in the state it finds it in.  It waits while the latch is at zero, which is when the
  refresh of the server has ended.\<close>

definition keeps_waiting :: "client \<Rightarrow> bool" where
  "keeps_waiting c \<longleftrightarrow> c_steps c = 0"

text \<open>The first loop of \<open>update_server_info\<close>: what it gives the thread pool are indices, and a task looks
  its server up when it runs, without the lock.\<close>

definition update_server_info :: "manager \<Rightarrow> nat list" where
  "update_server_info m = [0..<manager_size m]"

definition refresh_task :: "manager \<Rightarrow> nat \<Rightarrow> managed outcome" where
  "refresh_task m a = server_at m a"

text \<open>The comparison of pointers in \<open>GetIndex\<close> is an argument.\<close>

fun server_index_from :: "(managed \<Rightarrow> bool) \<Rightarrow> int \<Rightarrow> managed list \<Rightarrow> int" where
  "server_index_from same a [] = - 1"
| "server_index_from same a (s # servers) = (if same s then a else server_index_from same (a + 1) servers)"

definition server_index :: "(managed \<Rightarrow> bool) \<Rightarrow> manager \<Rightarrow> int" where
  "server_index same m = server_index_from same 0 (mg_servers m)"

text \<open>The interval of the timer in milliseconds, at the start and after \<open>changed_server_refresh_rate\<close>.\<close>

definition refresh_interval :: "rat \<Rightarrow> int outcome" where
  "refresh_interval seconds = double_to_int 31 (- (2 ^ 31)) (Some (double_of (seconds * 1000)))"

text \<open>The title, the text and the icon of the notifications.\<close>

definition server_offline :: "managed \<Rightarrow> string \<times> string \<times> string" where
  "server_offline s = (''Server Offline'', ms_hostname s @ '' has gone offline'', ''offline'')"

definition server_online :: "managed \<Rightarrow> string \<times> string \<times> string" where
  "server_online s = (''Server Online'', ms_hostname s @ '' has come online'', ''online'')"

section \<open>serverlistmodel.cpp\<close>

text \<open>\<open>Row\<close> stands for the pointer to the server of a row.\<close>

datatype list_value = Nothing | Text string | State | Row nat

definition server_list_data :: "model_index \<Rightarrow> int \<Rightarrow> manager \<Rightarrow> list_value outcome" where
  "server_list_data index role m =
     (case index of None \<Rightarrow> Inr Nothing
      | Some (row, column) \<Rightarrow>
          (if row < 0 then Inl UB
           else
             bind (server_at m (nat row)) (\<lambda>temp.
             Inr (if role = UserRole + 1 then Text (ms_hostname temp)
                  else if role = UserRole + 2 then State
                  else if role = UserRole + 4 then Text (ms_ip temp)
                  else Row (nat row)))))"

definition server_list_role_names :: "(int \<times> string) list" where
  "server_list_role_names =
     [(UserRole + 1, ''hostname''), (UserRole + 2, ''state''), (UserRole + 3, ''data''), (UserRole + 4, ''ip'')]"

definition server_list_update :: "int \<Rightarrow> manager \<Rightarrow> manager" where
  "server_list_update index = notify (Data_changed (index, 0) (index, 0) [UserRole + 2, UserRole + 1])"

text \<open>What the signal \<open>changed_state\<close> of the server in a row does to the list.\<close>

definition changed_state :: "managed \<Rightarrow> manager \<Rightarrow> manager" where
  "changed_state s m = fold server_list_update (ms_rows s) m"

section \<open>settings.cpp\<close>

datatype settings_signal = Changed_wol_port | Changed_server_refresh_rate | Changed_font | Changed_term_type

record 'f settings =
  st_port :: "16 word option"
  st_refresh_rate :: "rat option"
  st_font :: "'f option"
  st_type :: "int option"
  st_signals :: "settings_signal list"

definition get_wol_port :: "'f settings \<Rightarrow> 16 word" where
  "get_wol_port s = (case st_port s of None \<Rightarrow> 9 | Some v \<Rightarrow> v)"

definition set_wol_port :: "16 word \<Rightarrow> 'f settings \<Rightarrow> 'f settings" where
  "set_wol_port v s = s\<lparr>st_port := Some v, st_signals := st_signals s @ [Changed_wol_port]\<rparr>"

definition get_server_refresh_rate :: "'f settings \<Rightarrow> rat" where
  "get_server_refresh_rate s = (case st_refresh_rate s of None \<Rightarrow> 5 | Some v \<Rightarrow> v)"

definition set_server_refresh_rate :: "rat \<Rightarrow> 'f settings \<Rightarrow> 'f settings" where
  "set_server_refresh_rate v s = s\<lparr>st_refresh_rate := Some v, st_signals := st_signals s @ [Changed_wol_port]\<rparr>"

definition get_font :: "'f \<Rightarrow> 'f settings \<Rightarrow> 'f" where
  "get_font system_font s = (case st_font s of None \<Rightarrow> system_font | Some v \<Rightarrow> v)"

definition set_font :: "'f \<Rightarrow> 'f settings \<Rightarrow> 'f settings" where
  "set_font v s = s\<lparr>st_font := Some v, st_signals := st_signals s @ [Changed_font]\<rparr>"

definition get_term_type :: "'f settings \<Rightarrow> int" where
  "get_term_type s = (case st_type s of None \<Rightarrow> 1 | Some v \<Rightarrow> v)"

text \<open>The overload that never gives the null terminal.\<close>

definition get_usable_term_type :: "'f settings \<Rightarrow> int" where
  "get_usable_term_type s =
     (let data = get_term_type s in if term_type_name data = term_type_name 0 then 1 else data)"

definition set_term_type :: "int \<Rightarrow> 'f settings \<Rightarrow> 'f settings" where
  "set_term_type v s = s\<lparr>st_type := Some v, st_signals := st_signals s @ [Changed_term_type]\<rparr>"

section \<open>terminfo.cpp\<close>

definition i_max :: int where "i_max = 3"

definition is_null :: "int \<Rightarrow> bool" where
  "is_null t \<longleftrightarrow> term_type_name t = term_type_name 0"

definition get_terms :: "string list" where
  "get_terms = map (\<lambda>a. term_type_name (int a)) [0..<nat i_max]"

definition avalible_terms_count :: int where
  "avalible_terms_count = i_max - int (length (filter (\<lambda>a. is_null (int a)) [0..<nat i_max]))"

text \<open>The loops; an \<open>int\<close> that would pass its maximum is undefined.\<close>

function to_emun_loop :: "int \<Rightarrow> int \<Rightarrow> int \<Rightarrow> int outcome" where
  "to_emun_loop index count offset =
     (if count - offset \<le> index then
        bind (int_value (count + 1)) (\<lambda>count'.
        to_emun_loop index count' (if is_null count then offset + 1 else offset))
      else Inr (count - 1))"
  by pat_completeness auto
termination
  by (relation "measure (\<lambda>(index, count, offset). nat (2 ^ 31 - count))")
    (auto simp: int_value_def split: if_splits)

declare to_emun_loop.simps [simp del]

definition avalible_to_emun :: "int \<Rightarrow> int outcome" where
  "avalible_to_emun index = to_emun_loop index 0 0"

definition emun_to_avalible :: "int \<Rightarrow> int" where
  "emun_to_avalible index =
     (if index \<le> 0 then 0 else index - int (length (filter (\<lambda>a. is_null (int a)) [0..<nat index])))"

section \<open>termlist.cpp\<close>

definition term_list_data :: "model_index \<Rightarrow> int \<Rightarrow> variant outcome" where
  "term_list_data index role =
     (case index of None \<Rightarrow> Inr VNone
      | Some (row, column) \<Rightarrow>
          bind (avalible_to_emun row) (\<lambda>v.
          Inr (if role = UserRole + 1 then VInt v else VString (term_type_name v))))"

definition term_list_row_count :: int where
  "term_list_row_count = avalible_terms_count"

definition term_list_role_names :: "(int \<times> string) list" where
  "term_list_role_names = [(DisplayRole, ''display''), (UserRole + 1, ''value'')]"

section \<open>The list and its copy\<close>

datatype manager_call =
    Set_model
  | Add_server probe string
  | Change_server probe int string
  | Remove_server int
  | Hostname_changed nat string

text \<open>The last is what a server's own refresh does to its host name.\<close>

definition manager_call :: "(string \<Rightarrow> json outcome) \<Rightarrow> manager \<Rightarrow> manager_call \<Rightarrow> manager outcome" where
  "manager_call parse m c =
     (case c of
        Set_model \<Rightarrow> Inr (set_model m)
      | Add_server p ip \<Rightarrow> add_server parse p ip m
      | Change_server p index ip \<Rightarrow> change_server_options parse p index ip m
      | Remove_server index \<Rightarrow> remove_server index m
      | Hostname_changed a h \<Rightarrow>
          bind (server_at m a) (\<lambda>s. Inr (m\<lparr>mg_servers := (mg_servers m)[a := s\<lparr>ms_hostname := h\<rparr>]\<rparr>)))"

definition address :: "managed \<Rightarrow> string \<times> string" where
  "address s = (ms_mac s, ms_ip s)"

definition stored :: "manager \<Rightarrow> bool" where
  "stored m \<longleftrightarrow> sa_size (mg_store m) = length (mg_servers m) \<and>
     (\<forall>a < length (mg_servers m). snd (sa_entry (mg_store m) a) = address (mg_servers m ! a))"

lemma notify_simps [simp]:
  "mg_servers (notify n m) = mg_servers m" "mg_store (notify n m) = mg_store m" "mg_model (notify n m) = mg_model m"
  by (simp_all add: notify_def)

lemma write_entries:
  "sa_size (fold (\<lambda>(a, s). write_entry a s) (List.enumerate n xs) q) = sa_size q \<and>
   sa_entry (fold (\<lambda>(a, s). write_entry a s) (List.enumerate n xs) q) a =
     (if n \<le> a \<and> a < n + length xs
      then (ms_hostname (xs ! (a - n)), ms_mac (xs ! (a - n)), ms_ip (xs ! (a - n))) else sa_entry q a)"
proof (induction xs arbitrary: n q)
  case Nil
  then show ?case by (auto simp: not_less)
next
  case (Cons x xs)
  show ?case
  proof (cases "a = n")
    case True
    then show ?thesis using Cons.IH [of "Suc n" "write_entry n x q"] by (simp add: write_entry_def)
  next
    case False
    have "xs ! (a - Suc n) = (x # xs) ! (a - n)" if "Suc n \<le> a"
    proof -
      have "a - n = Suc (a - Suc n)" using that by simp
      then show ?thesis by simp
    qed
    then show ?thesis
      using False Cons.IH [of "Suc n" "write_entry n x q"] by (auto simp: write_entry_def)
  qed
qed

lemma stored_new: "stored (new_manager store)"
  by (simp add: stored_def new_manager_def reload_def address_def split_beta)

lemma stored_remove: "remove_server index m = Inr m' \<Longrightarrow> stored m'"
  by (auto simp: remove_server_def bind_eq_Inr_iff stored_def write_entries address_def)

lemma remove_server_Inr:
  "remove_server (int i) m = Inr m' \<Longrightarrow> i < length (mg_servers m) \<and> mg_model m' = mg_model m \<and>
   mg_servers m' = take i (mg_servers m) @ drop (Suc i) (mg_servers m)"
  by (auto simp: remove_server_def bind_eq_Inr_iff vec_erase_def Let_def nat_add_distrib split: if_splits)

lemma remove_server_in: "i < length (mg_servers m) \<Longrightarrow> \<exists>m'. remove_server (int i) m = Inr m'"
  by (simp add: remove_server_def vec_erase_def Let_def)

text \<open>A refresh that was started before a server was removed: the tasks of the servers behind it refresh the
  next one, and the last task reads behind the end of the list.\<close>

lemma removed_while_refreshing:
  assumes "remove_server (int i) m = Inr m'"
  shows "map (refresh_task m') (update_server_info m) =
    map Inr (take i (mg_servers m)) @ map Inr (drop (Suc i) (mg_servers m)) @ [Inl UB]"
proof (rule nth_equalityI)
  from remove_server_Inr [OF assms] have i: "i < length (mg_servers m)"
    and s: "mg_servers m' = take i (mg_servers m) @ drop (Suc i) (mg_servers m)" by simp_all
  then show "length (map (refresh_task m') (update_server_info m)) =
      length (map Inr (take i (mg_servers m)) @ map Inr (drop (Suc i) (mg_servers m)) @ [Inl UB])"
    by (simp add: update_server_info_def manager_size_def)
  fix a
  assume "a < length (map (refresh_task m') (update_server_info m))"
  then show "map (refresh_task m') (update_server_info m) ! a =
      (map Inr (take i (mg_servers m)) @ map Inr (drop (Suc i) (mg_servers m)) @ [Inl UB]) ! a"
    using i
    by (simp add: update_server_info_def refresh_task_def server_at_def vec_get_def s manager_size_def nth_append) arith
qed

text \<open>\<open>GetIndex\<close> gives the position of a server, or -1.\<close>

lemma server_index_from_nth:
  "server_index_from same a servers =
    (if \<exists>s \<in> set servers. same s then a + int (LEAST i. i < length servers \<and> same (servers ! i)) else - 1)"
proof (induction servers arbitrary: a)
  case Nil
  then show ?case by simp
next
  case (Cons s servers)
  show ?case
  proof (cases "same s")
    case True
    then have "(LEAST i. i < length (s # servers) \<and> same ((s # servers) ! i)) = 0" by (intro Least_equality) simp_all
    then show ?thesis using True by simp
  next
    case False
    have "(LEAST i. i < length (s # servers) \<and> same ((s # servers) ! i)) =
        Suc (LEAST i. i < length servers \<and> same (servers ! i))" if found: "\<exists>s \<in> set servers. same s"
    proof -
      obtain i where "i < length servers" "same (servers ! i)"
        using found unfolding Bex_def in_set_conv_nth by blast
      then show ?thesis
        using False Least_Suc [of "\<lambda>i. i < length (s # servers) \<and> same ((s # servers) ! i)" "Suc i"] by simp
    qed
    then show ?thesis using False Cons.IH by simp
  qed
qed

lemma stored_put:
  assumes "stored m" and "put_server index info ip m = Inr m'"
  shows "stored m'"
proof -
  let ?temp = "\<lparr>ms_hostname = sys_hostname info, ms_mac = sys_mac_address info, ms_ip = ip,
    ms_rows = (if mg_model m then [index] else [])\<rparr>"
  show ?thesis
  proof (cases "index = int (manager_size m)")
    case True
    with assms(2) have "mg_servers m' = mg_servers m @ [?temp]"
      "mg_store m' = write_entry (length (mg_servers m)) ?temp ((mg_store m)\<lparr>sa_size := Suc (length (mg_servers m))\<rparr>)"
      by (auto simp: put_server_def manager_size_def Let_def)
    with assms(1) show ?thesis
      by (auto simp: stored_def write_entry_def address_def nth_append less_Suc_eq)
  next
    case False
    with assms(2) have "0 \<le> index" "index < int (length (mg_servers m))"
      "mg_servers m' = (mg_servers m)[nat index := ?temp]"
      "mg_store m' = write_entry (nat index) ?temp ((mg_store m)\<lparr>sa_size := length (mg_servers m)\<rparr>)"
      by (auto simp: put_server_def manager_size_def Let_def split: if_splits)
    with assms(1) show ?thesis
      by (auto simp: stored_def write_entry_def address_def nth_list_update)
  qed
qed

lemma stored_change: "stored m \<Longrightarrow> change_server_options parse p index ip m = Inr m' \<Longrightarrow> stored m'"
  by (auto simp: change_server_options_def bind_eq_Inr_iff split: if_splits intro: stored_put)

lemma stored_call: "stored m \<Longrightarrow> manager_call parse m c = Inr m' \<Longrightarrow> stored m'"
proof (cases c)
  case Set_model
  assume "stored m" and "manager_call parse m c = Inr m'"
  then show ?thesis
    by (auto simp: manager_call_def Set_model set_model_def stored_def address_def nth_enumerate_eq)
next
  case (Hostname_changed a h)
  assume "stored m" and "manager_call parse m c = Inr m'"
  then show ?thesis
    by (auto simp: manager_call_def Hostname_changed bind_eq_Inr_iff server_at_def vec_get_def stored_def
      address_def nth_list_update split: if_splits)
qed (auto simp: manager_call_def add_server_def intro: stored_change stored_remove)

section \<open>Properties\<close>


definition some_probe :: probe where
  "some_probe = \<lparr>pr_resolved = True, pr_head = Some 302, pr_system = Some (200, ''x'')\<rparr>"

definition some_info :: json where
  "some_info = json_of_system (no_info\<lparr>sys_hostname := ''pc'', sys_mac_address := ''m'', sys_ip_address := ''i''\<rparr>)"


lemma null_types: "is_null t \<longleftrightarrow> t \<noteq> 1 \<and> t \<noteq> 2"
  by (simp add: is_null_def term_type_name_def create_term_def term_type_def)

lemma to_emun_overflow:
  "2 \<le> index \<Longrightarrow> 3 \<le> count \<Longrightarrow> to_emun_loop index count (count - 2) = Inl UB"
proof (induction "nat (2 ^ 31 - count)" arbitrary: count rule: less_induct)
  case less
  show ?case
  proof (cases "count + 1 < 2 ^ 31")
    case True
    have "to_emun_loop index (count + 1) (count + 1 - 2) = Inl UB"
      using less.prems True by (intro less.hyps) auto
    with less.prems True show ?thesis
      by (subst to_emun_loop.simps) (simp add: null_types)
  next
    case False
    then have "int_value (count + 1) = Inl UB" by (simp add: int_value_def)
    with less.prems show ?thesis by (subst to_emun_loop.simps) simp
  qed
qed

text \<open>The numbering of the terminals a user can choose: the numbers from 0 to the count are the
  usable types, and each number finds its type and each type its number.  For a number at the count or above the
  search counts on until the integer overflows.\<close>

theorem term_numbers:
  "avalible_terms_count = 2 \<and>
   (if 0 \<le> index \<and> index < avalible_terms_count
    then \<exists>t. avalible_to_emun index = Inr t \<and> emun_to_avalible t = index \<and> create_term t \<noteq> Null_term
    else if 0 \<le> index then avalible_to_emun index = Inl UB else avalible_to_emun index = Inr (- 1))"
proof -
  have up: "[0..<nat i_max] = [0, 1, 2]" by (simp add: i_max_def numeral_eq_Suc)
  have n: "avalible_terms_count = 2" by (simp add: avalible_terms_count_def up null_types) (simp add: i_max_def)
  have z: "avalible_to_emun 0 = Inr 1" "avalible_to_emun 1 = Inr 2"
    by (simp_all add: avalible_to_emun_def to_emun_loop.simps null_types)
  have e: "emun_to_avalible 1 = 0" "emun_to_avalible 2 = 1"
    by (simp_all add: emun_to_avalible_def null_types upt_rec)
  have big: "avalible_to_emun index = Inl UB" if "2 \<le> index"
  proof -
    have "avalible_to_emun index = to_emun_loop index 3 (3 - 2)"
      unfolding avalible_to_emun_def using that
      by (subst to_emun_loop.simps, simp add: null_types, subst to_emun_loop.simps, simp add: null_types,
        subst to_emun_loop.simps, simp add: null_types)
    then show ?thesis using to_emun_overflow [of index 3] that by simp
  qed
  have neg: "avalible_to_emun index = Inr (- 1)" if "index < 0"
    using that by (simp add: avalible_to_emun_def to_emun_loop.simps)
  consider "index = 0" | "index = 1" | "2 \<le> index" | "index < 0" by linarith
  then show ?thesis
    by cases (simp_all add: n z e big neg create_term_def)
qed

text \<open>After a server was removed, every server behind it tells the list of its changes under
  the row it had before: the update goes to the wrong row, the last one's to a row that is not there.\<close>

theorem removed_rows_stale:
  assumes "remove_server (int i) (set_model (new_manager store)) = Inr m" and "i \<le> j" and "j < length (mg_servers m)"
  shows "mg_log (changed_state (mg_servers m ! j) m) =
    mg_log m @ [(Data_changed (int j + 1, 0) (int j + 1, 0) [UserRole + 2, UserRole + 1], length (mg_servers m))]"
proof -
  let ?m = "set_model (new_manager store)"
  have rows: "length (mg_servers ?m) = sa_size store" "\<And>a. a < sa_size store \<Longrightarrow> ms_rows (mg_servers ?m ! a) = [int a]"
    by (simp_all add: set_model_def new_manager_def reload_def nth_enumerate_eq split_beta)
  from remove_server_Inr [OF assms(1)] have s:
    "mg_servers m = take i (mg_servers ?m) @ drop (Suc i) (mg_servers ?m)" "mg_model m" "i < length (mg_servers ?m)"
    by (simp_all add: set_model_def)
  have "mg_servers m ! j = mg_servers ?m ! Suc j"
    using assms(2,3) s(3) by (simp add: s(1) nth_append)
  moreover have "Suc j < sa_size store" using assms(2,3) s(3) by (simp add: s(1) rows(1))
  ultimately have "ms_rows (mg_servers m ! j) = [int (Suc j)]" using rows(2) by simp
  then show ?thesis
    using s(2) by (simp add: changed_state_def server_list_update_def notify_def manager_size_def add.commute)
qed

definition two_servers :: servers_array where
  "two_servers = \<lparr>sa_size = 2, sa_entry = \<lambda>a. ([], [], [])\<rparr>"

theorem removed_rows_stale_witness:
  "\<exists>m. remove_server 0 (set_model (new_manager two_servers)) = Inr m \<and>
     (Data_changed (1, 0) (1, 0) [258, 257], 1) \<in> set (mg_log (changed_state (mg_servers m ! 0) m))"
proof -
  let ?m = "set_model (new_manager two_servers)"
  have two: "length (mg_servers ?m) = 2"
    by (simp add: set_model_def new_manager_def reload_def two_servers_def)
  then obtain m where m: "remove_server (int 0) ?m = Inr m" using remove_server_in [of 0 ?m] by auto
  with remove_server_Inr [OF m] two have "length (mg_servers m) = 1" by simp
  with removed_rows_stale [OF m, of 0] m show ?thesis by auto
qed


end
