(* ===== verification/Version.thy ===== *)
theory Version
  imports Cxx_Numbers
begin

text \<open>
  \<open>src/externals/ljh/include/ljh/version.hpp\<close>, the version numbers of the helper library,
  and the reader of numbers of \<open>char_convertions.hpp\<close> it uses.  The reader computes with
  doubles, which hold the powers of ten it can need exactly: a term from \<open>2 ^ 32\<close> on does not fit
  the unsigned type and its conversion is undefined.
\<close>

section \<open>from_string\<close>

definition decimal :: "char \<Rightarrow> bool" where
  "decimal c \<longleftrightarrow> 48 \<le> (of_char c :: nat) \<and> (of_char c :: nat) \<le> 57"

definition term_value :: "char \<Rightarrow> nat \<Rightarrow> 32 word outcome" where
  "term_value c k =
     (if 309 \<le> k \<or> 2 ^ 32 \<le> (of_char c - 48) * (10 :: nat) ^ k then Inl UB
      else Inr (of_nat ((of_char c - 48) * 10 ^ k)))"

text \<open>From the last digit to the first; \<open>k\<close> is \<open>max - a\<close>.\<close>

fun add_terms :: "nat \<Rightarrow> string \<Rightarrow> 32 word \<Rightarrow> 32 word outcome" where
  "add_terms k [] v = Inr v"
| "add_terms k (c # cs) v = bind (term_value c k) (\<lambda>t. add_terms (Suc k) cs (v + t))"

definition from_string :: "32 word \<Rightarrow> string \<Rightarrow> 32 word outcome" where
  "from_string v text = add_terms 0 (rev (takeWhile decimal text)) v"

section \<open>Versions\<close>

record version =
  v_major :: "32 word"
  v_minor :: "32 word"
  v_build :: "32 word"
  v_revision :: "32 word"

definition new_version :: "32 word \<Rightarrow> 32 word \<Rightarrow> 32 word \<Rightarrow> 32 word \<Rightarrow> version" where
  "new_version a b c d = \<lparr>v_major = a, v_minor = b, v_build = c, v_revision = d\<rparr>"

text \<open>One field, and the text after its dot.\<close>

definition read_field :: "string \<Rightarrow> (32 word \<times> string option) outcome" where
  "read_field text =
     (case find_pos (\<lambda>c. c = CHR ''.'') text of
        None \<Rightarrow> bind (from_string 0 text) (\<lambda>v. Inr (v, None))
      | Some dot_pos \<Rightarrow>
          bind (from_string 0 (take dot_pos text)) (\<lambda>v. Inr (v, Some (drop (dot_pos + 1) text))))"

definition version_of :: "string \<Rightarrow> version outcome" where
  "version_of text =
     bind (read_field text) (\<lambda>(a, rest).
     case rest of None \<Rightarrow> Inr (new_version a 0 0 0) | Some text \<Rightarrow>
     bind (read_field text) (\<lambda>(b, rest).
     case rest of None \<Rightarrow> Inr (new_version a b 0 0) | Some text \<Rightarrow>
     bind (read_field text) (\<lambda>(c, rest).
     case rest of None \<Rightarrow> Inr (new_version a b c 0) | Some text \<Rightarrow>
     bind (read_field text) (\<lambda>(d, rest). Inr (new_version a b c d)))))"

definition max_version :: "32 word \<Rightarrow> 32 word \<Rightarrow> 32 word \<Rightarrow> 32 word \<Rightarrow> version" where
  "max_version = new_version"

definition version_string :: "version \<Rightarrow> string" where
  "version_string v =
     to_string (unat (v_major v)) @ CHR ''.'' # to_string (unat (v_minor v)) @ CHR ''.'' #
     to_string (unat (v_build v)) @ CHR ''.'' # to_string (unat (v_revision v))"

datatype ordering = Less | Equal | Greater

definition word_ordering :: "32 word \<Rightarrow> 32 word \<Rightarrow> ordering" where
  "word_ordering a b = (if a < b then Less else if a = b then Equal else Greater)"

text \<open>\<open>operator<=>\<close>.\<close>

definition three_way :: "version \<Rightarrow> version \<Rightarrow> ordering" where
  "three_way a b =
     (case word_ordering (v_major a) (v_major b) of
        Equal \<Rightarrow>
          (case word_ordering (v_minor a) (v_minor b) of
             Equal \<Rightarrow>
               (case word_ordering (v_build a) (v_build b) of
                  Equal \<Rightarrow> word_ordering (v_revision a) (v_revision b)
                | x \<Rightarrow> x)
           | x \<Rightarrow> x)
      | x \<Rightarrow> x)"

text \<open>The operators for compilers without it.\<close>

definition version_eq :: "version \<Rightarrow> version \<Rightarrow> bool" where
  "version_eq a b =
     (if v_major a \<noteq> v_major b then False
      else if v_minor a \<noteq> v_minor b then False
      else if v_build a \<noteq> v_build b then False
      else v_revision a = v_revision b)"

definition version_less :: "version \<Rightarrow> version \<Rightarrow> bool" where
  "version_less a b =
     (if v_major a < v_major b then True
      else if v_minor a < v_minor b then True
      else if v_build a < v_build b then True
      else v_revision a < v_revision b)"

definition version_greater :: "version \<Rightarrow> version \<Rightarrow> bool" where
  "version_greater a b = version_less b a"

definition version_greater_eq :: "version \<Rightarrow> version \<Rightarrow> bool" where
  "version_greater_eq a b = (\<not> version_less a b)"

definition version_less_eq :: "version \<Rightarrow> version \<Rightarrow> bool" where
  "version_less_eq a b = (\<not> version_less b a)"

section \<open>The order of versions\<close>

text \<open>The numbers are compared from the major one on.\<close>

instantiation version_ext :: (linorder) linorder
begin

definition less_version_ext :: "'a version_scheme \<Rightarrow> 'a version_scheme \<Rightarrow> bool" where
  "less_version_ext a b \<longleftrightarrow>
     v_major a < v_major b \<or> v_major a = v_major b \<and>
     (v_minor a < v_minor b \<or> v_minor a = v_minor b \<and>
      (v_build a < v_build b \<or> v_build a = v_build b \<and>
       (v_revision a < v_revision b \<or> v_revision a = v_revision b \<and> version.more a < version.more b)))"

definition less_eq_version_ext :: "'a version_scheme \<Rightarrow> 'a version_scheme \<Rightarrow> bool" where
  "less_eq_version_ext a b \<longleftrightarrow> a < b \<or> a = b"

instance
proof
  fix x y z :: "'a version_scheme"
  show "x < y \<longleftrightarrow> x \<le> y \<and> \<not> y \<le> x"
    by (auto simp: less_eq_version_ext_def less_version_ext_def)
  show "x \<le> x" by (simp add: less_eq_version_ext_def)
  show "x \<le> y \<Longrightarrow> y \<le> z \<Longrightarrow> x \<le> z"
    unfolding less_eq_version_ext_def less_version_ext_def by (elim disjE conjE) auto
  show "x \<le> y \<Longrightarrow> y \<le> x \<Longrightarrow> x = y"
    by (auto simp: less_eq_version_ext_def less_version_ext_def)
  show "x \<le> y \<or> y \<le> x"
    unfolding less_eq_version_ext_def less_version_ext_def
    using version.equality [of x y] less_linear [of "v_major x" "v_major y"] less_linear [of "v_minor x" "v_minor y"]
      less_linear [of "v_build x" "v_build y"] less_linear [of "v_revision x" "v_revision y"]
      less_linear [of "version.more x" "version.more y"]
    by metis
qed

end

lemma word_ordering_iff:
  "word_ordering p q = Less \<longleftrightarrow> p < q" "word_ordering p q = Equal \<longleftrightarrow> p = q" "word_ordering p q = Greater \<longleftrightarrow> q < p"
  by (auto simp: word_ordering_def)

lemma version_more [simp]: "version.more (v :: version) = ()"
  by simp

lemma three_way_order:
  "three_way a b = (if a < b then Less else if a = b then Equal else Greater)"
proof -
  have l: "three_way a b = Less \<longleftrightarrow> a < b" for a b
    by (auto simp: three_way_def less_version_ext_def word_ordering_iff split: ordering.splits)
  have e: "three_way a b = Equal \<longleftrightarrow> a = b"
    by (cases a; cases b) (auto simp: three_way_def word_ordering_iff split: ordering.splits)
  show ?thesis using l [of a b] e by (cases "three_way a b") auto
qed

section \<open>Reading what is written\<close>

lemma digit_code: "k < 10 \<Longrightarrow> of_char (hex_digit k) = 48 + k" for k :: nat
proof -
  assume "k < 10"
  then have "k \<in> set [0, 1, 2, 3, 4, 5, 6, 7, 8, 9]" by (simp, arith)
  moreover have "list_all (\<lambda>k. of_char (hex_digit k) = 48 + k) [0, 1, 2, 3, 4, 5, 6, 7, 8, 9]"
    by (simp add: hex_digit_def)
  ultimately show ?thesis by (simp only: list_all_iff)
qed

lemma digit_decimal: "k < 10 \<Longrightarrow> decimal (hex_digit k)" for k :: nat
  by (simp add: decimal_def digit_code)

lemma to_string_decimal: "list_all decimal (to_string n)"
proof (induction n rule: to_string.induct)
  case (1 n)
  then show ?case
    by (subst to_string.simps) (simp add: digit_decimal)
qed

lemma add_terms_to_string:
  "n * 10 ^ k < 2 ^ 32 \<Longrightarrow> n = 0 \<longrightarrow> k = 0 \<Longrightarrow> add_terms k (rev (to_string n)) v = Inr (v + of_nat (n * 10 ^ k))"
proof (induction n arbitrary: k v rule: to_string.induct)
  case (1 n)
  have k: "k < 309"
  proof (cases "n = 0")
    case False
    then have "1 * 10 ^ k \<le> n * 10 ^ k" by (intro mult_right_mono) simp_all
    moreover have "(2 :: nat) ^ 32 < 10 ^ 10" by simp
    ultimately have "(10 :: nat) ^ k < 10 ^ 10" using "1.prems"(1) by linarith
    then have "k < 10" by (simp only: power_strict_increasing_iff one_less_numeral_iff semiring_norm)
    then show ?thesis by simp
  qed (use "1.prems" in simp)
  show ?case
  proof (cases "n < 10")
    case True
    with "1.prems" k show ?thesis
      by (subst to_string.simps) (simp add: term_value_def digit_code not_le)
  next
    case False
    have "n = 10 * (n div 10) + n mod 10" by simp
    then have e: "n * 10 ^ k = (n mod 10) * 10 ^ k + (n div 10) * 10 ^ Suc k" by (metis (no_types, lifting) add.commute add_mult_distrib mult.assoc mult.commute power_Suc)
    then have b: "(n mod 10) * 10 ^ k < 2 ^ 32" "(n div 10) * 10 ^ Suc k < 2 ^ 32" using "1.prems"(1) by linarith+
    have "term_value (hex_digit (n mod 10)) k = Inr (of_nat ((n mod 10) * 10 ^ k))"
      using b(1) k by (simp add: term_value_def digit_code not_le)
    moreover have "add_terms (Suc k) (rev (to_string (n div 10))) (v + of_nat ((n mod 10) * 10 ^ k)) =
        Inr (v + of_nat ((n mod 10) * 10 ^ k) + of_nat ((n div 10) * 10 ^ Suc k))"
      using False b(2) by (intro "1.IH") auto
    ultimately show ?thesis
      using False by (subst to_string.simps) (simp only: rev_append rev.simps append.simps add_terms.simps bind_Inr if_False e of_nat_add add.assoc)
  qed
qed

lemma from_string_to_string:
  assumes "t = [] \<or> \<not> decimal (hd t)"
  shows "from_string 0 (to_string (unat w) @ t) = Inr w"
proof -
  have "takeWhile decimal t = []" using assms by (cases t) auto
  then have "takeWhile decimal (to_string (unat w) @ t) = to_string (unat w)"
    using to_string_decimal [of "unat w"] by (simp add: takeWhile_append list_all_iff)
  moreover have "unat w < 2 ^ 32" using unsigned_less [of w] by simp
  ultimately show ?thesis
    using add_terms_to_string [of "unat w" 0 0] by (simp add: from_string_def)
qed

lemma to_string_no_dot: "CHR ''.'' \<notin> set (to_string n)"
proof
  assume "CHR ''.'' \<in> set (to_string n)"
  with to_string_decimal [of n] have "decimal (CHR ''.'')" by (simp add: list_all_iff)
  then show False by (simp add: decimal_def)
qed

lemma read_field_dot: "read_field (to_string (unat w) @ CHR ''.'' # t) = Inr (w, Some t)"
proof -
  have "find_pos (\<lambda>c. c = CHR ''.'') (to_string (unat w) @ CHR ''.'' # t) = Some (length (to_string (unat w)))"
    using to_string_no_dot by (intro find_pos_append_hit) auto
  then show ?thesis using from_string_to_string [of "[]" w] by (simp add: read_field_def)
qed

lemma read_field_end: "read_field (to_string (unat w)) = Inr (w, None)"
proof -
  have "find_pos (\<lambda>c. c = CHR ''.'') (to_string (unat w)) = None"
    using to_string_no_dot [of "unat w"] by (auto simp: find_pos_None_iff)
  then show ?thesis using from_string_to_string [of "[]" w] by (simp add: read_field_def)
qed

section \<open>Properties\<close>

text \<open>A version that is written as text is read back.\<close>

theorem version_roundtrip: "version_of (version_string v) = Inr v"
  by (simp add: version_of_def version_string_def read_field_dot read_field_end new_version_def)

text \<open>The two orders of versions: the one with three results compares from the major number on; the
  operator for older compilers holds as soon as any one number is smaller, so it holds where the first order says
  less, but it also holds both ways, and there the operators for \<open>at least\<close> and \<open>at most\<close> fail both.\<close>

theorem version_orders:
  "(three_way a b = Less \<longrightarrow> version_less a b) \<and>
   (three_way a b = Equal \<longleftrightarrow> a = b) \<and>
   (three_way a b = Greater \<longleftrightarrow> three_way b a = Less) \<and>
   (version_less a b \<longleftrightarrow> v_major a < v_major b \<or> v_minor a < v_minor b \<or> v_build a < v_build b \<or>
      v_revision a < v_revision b) \<and>
   (let x = new_version 1 2 0 0; y = new_version 2 1 0 0 in
      version_less x y \<and> version_less y x \<and> \<not> version_less_eq x y \<and> \<not> version_greater_eq x y \<and>
      three_way x y = Less)"
proof -
  have "version_less a b \<longleftrightarrow> v_major a < v_major b \<or> v_minor a < v_minor b \<or> v_build a < v_build b \<or>
      v_revision a < v_revision b"
    by (simp add: version_less_def)
  moreover have "a < b \<longrightarrow> v_major a < v_major b \<or> v_minor a < v_minor b \<or>
      v_build a < v_build b \<or> v_revision a < v_revision b" by (auto simp: less_version_ext_def)
  moreover have "let x = new_version 1 2 0 0; y = new_version 2 1 0 0 in
      version_less x y \<and> version_less y x \<and> \<not> version_less_eq x y \<and> \<not> version_greater_eq x y \<and>
      three_way x y = Less"
    by (simp add: three_way_order less_version_ext_def version_less_def version_less_eq_def
      version_greater_eq_def new_version_def)
  ultimately show ?thesis by (auto simp: three_way_order split: if_splits)
qed

theorem version_orders_witness:
  "version_less (new_version 1 0 0 0) (new_version 2 0 0 0)"
  using version_orders [of "new_version 1 0 0 0" "new_version 2 0 0 0"]
  by (simp add: new_version_def)


end
