(* ===== verification/Windows_Service.thy ===== *)
theory Windows_Service
  imports Prelude
begin

text \<open>
  \<open>src/server/windows_service.cpp\<close>: the server as a service of Windows.  The thread that
  runs \<open>SvcMain\<close>, the thread that waits for the stop event and the control handler share the
  status and the event; \<open>svc_step\<close> interleaves them.  The calls of the system are arguments or
  entries of a log.
\<close>

section \<open>Status\<close>

datatype svc_state = Svc_stopped | Svc_start_pending | Svc_stop_pending | Svc_running

record svc_status =
  st_state :: svc_state
  st_exit :: int
  st_hint :: nat
  st_accept_stop :: bool
  st_check_point :: "32 word"

text \<open>The phases of the service thread: waiting in \<open>real_main\<close>, then in \<open>join\<close> with
  its exit code, then back from \<open>SvcMain\<close>.\<close>

datatype svc_phase = Not_started | Serving | Joining int | Finished

record svc =
  sv_phase :: svc_phase
  sv_status :: svc_status
  sv_counter :: "32 word"
  sv_event :: "bool option"
  sv_reports :: "svc_status list"
  sv_events :: "string list"

definition new_svc :: svc where
  "new_svc =
     \<lparr>sv_phase = Not_started,
      sv_status = \<lparr>st_state = Svc_stopped, st_exit = 0, st_hint = 0, st_accept_stop = False, st_check_point = 0\<rparr>,
      sv_counter = 1, sv_event = None, sv_reports = [], sv_events = []\<rparr>"

definition report_svc_status :: "svc_state \<Rightarrow> int \<Rightarrow> nat \<Rightarrow> svc \<Rightarrow> svc" where
  "report_svc_status state code hint s =
     (let settled = (state = Svc_running \<or> state = Svc_stopped);
          status = \<lparr>st_state = state, st_exit = code, st_hint = hint,
                    st_accept_stop = (state \<noteq> Svc_start_pending),
                    st_check_point = (if settled then 0 else sv_counter s)\<rparr>
      in s\<lparr>sv_status := status, sv_counter := (if settled then sv_counter s else sv_counter s + 1),
           sv_reports := sv_reports s @ [status]\<rparr>)"

definition svc_report_event :: "string \<Rightarrow> svc \<Rightarrow> svc" where
  "svc_report_event function s = s\<lparr>sv_events := sv_events s @ [function]\<rparr>"

text \<open>Up to \<open>real_main\<close>; the event is created unsignalled.\<close>

definition svc_init :: "bool \<Rightarrow> svc \<Rightarrow> svc" where
  "svc_init created s =
     (if \<not> created then (report_svc_status Svc_stopped 0 0 s)\<lparr>sv_phase := Finished\<rparr>
      else (report_svc_status Svc_running 0 0 (s\<lparr>sv_event := Some False\<rparr>))\<lparr>sv_phase := Serving\<rparr>)"

definition svc_main :: "bool \<Rightarrow> bool \<Rightarrow> svc \<Rightarrow> svc" where
  "svc_main registered created s =
     (if \<not> registered then (svc_report_event ''RegisterServiceCtrlHandler'' s)\<lparr>sv_phase := Finished\<rparr>
      else svc_init created (report_svc_status Svc_start_pending 0 3000 s))"

text \<open>\<open>SetEvent\<close> on a null handle fails and changes nothing.\<close>

datatype svc_control = Control_stop | Control_interrogate | Control_other

definition svc_ctrl_handler :: "svc_control \<Rightarrow> svc \<Rightarrow> svc" where
  "svc_ctrl_handler ctrl s =
     (case ctrl of
        Control_stop \<Rightarrow>
          (let s1 = report_svc_status Svc_stop_pending 0 0 s;
               s2 = s1\<lparr>sv_event := map_option (\<lambda>_. True) (sv_event s1)\<rparr>
           in report_svc_status (st_state (sv_status s2)) 0 0 s2)
      | Control_interrogate \<Rightarrow> s
      | Control_other \<Rightarrow> s)"

text \<open>After \<open>join\<close>.\<close>

definition svc_finish :: "int \<Rightarrow> svc \<Rightarrow> svc" where
  "svc_finish code s = (report_svc_status Svc_stopped code 0 s)\<lparr>sv_phase := Finished\<rparr>"

section \<open>The program\<close>

definition is_user_interactive :: "bool \<Rightarrow> bool \<Rightarrow> bool \<Rightarrow> bool" where
  "is_user_interactive has_station has_flags visible =
     (if has_station \<and> has_flags \<and> \<not> visible then False else True)"

datatype svc_install = Install_failed string | Installed

text \<open>After the service was created a server object is made, whose constructor listens on the port of the
  server and throws when it is taken.\<close>

definition install_service :: "bool \<Rightarrow> bool \<Rightarrow> bool \<Rightarrow> bool \<Rightarrow> svc_install outcome" where
  "install_service has_path has_manager created listens =
     (if \<not> has_path then Inr (Install_failed ''Cannot install service'')
      else if \<not> has_manager then Inr (Install_failed ''OpenSCManager failed'')
      else if \<not> created then Inr (Install_failed ''CreateService failed'')
      else if \<not> listens then Inl (Throw System_error)
      else Inr Installed)"

datatype tmain = Ran_install | Ran_program | Ran_dispatcher | Dispatcher_failed

text \<open>\<open>lstrcmpi\<close> on a text of ASCII: the case of letters does not count.\<close>

definition fold_case :: "char \<Rightarrow> nat" where
  "fold_case c = (let n = of_char c in if 65 \<le> n \<and> n \<le> 90 then n + 32 else n)"

definition tmain :: "string option \<Rightarrow> bool \<Rightarrow> bool \<Rightarrow> tmain" where
  "tmain first_argument interactive dispatched =
     (if map_option (map fold_case) first_argument = Some (map fold_case ''--install'') then Ran_install
      else if interactive then Ran_program
      else if dispatched then Ran_dispatcher else Dispatcher_failed)"

section \<open>Steps\<close>

text \<open>Controls arrive between the registration of the handler and the report of the end.  The thread that
  waits for the event stops the server, and \<open>real_main\<close> may also return on its own; \<open>join\<close>
  returns when the waiting thread has ended.\<close>

inductive svc_step :: "svc \<Rightarrow> svc \<Rightarrow> bool" where
  Start: "sv_phase s = Not_started \<Longrightarrow> svc_step s (svc_main registered created s)"
| Control: "sv_phase s = Serving \<or> sv_phase s = Joining code \<Longrightarrow> svc_step s (svc_ctrl_handler ctrl s)"
| Returned: "sv_phase s = Serving \<Longrightarrow> svc_step s (s\<lparr>sv_phase := Joining code\<rparr>)"
| Joined: "sv_phase s = Joining code \<Longrightarrow> sv_event s = Some True \<Longrightarrow> svc_step s (svc_finish code s)"

inductive_cases svc_stepE: "svc_step s s'"

inductive svc_reachable :: "svc \<Rightarrow> bool" where
  Init: "svc_reachable new_svc"
| Step: "svc_reachable s \<Longrightarrow> svc_step s s' \<Longrightarrow> svc_reachable s'"

section \<open>The invariant\<close>

definition stops :: "svc \<Rightarrow> nat" where
  "stops s = length (filter (\<lambda>r. st_state r = Svc_stopped) (sv_reports s))"

definition svc_ok :: "svc \<Rightarrow> bool" where
  "svc_ok s \<longleftrightarrow>
     (case sv_phase s of
        Not_started \<Rightarrow> sv_reports s = []
      | Serving \<Rightarrow> stops s = 0 \<and> sv_reports s \<noteq> [] \<and> sv_status s = last (sv_reports s) \<and>
          (sv_event s = Some False \<and> st_state (sv_status s) = Svc_running \<or>
           sv_event s = Some True \<and> st_state (sv_status s) = Svc_stop_pending)
      | Joining c \<Rightarrow> stops s = 0 \<and> sv_reports s \<noteq> [] \<and> sv_status s = last (sv_reports s) \<and>
          (sv_event s = Some False \<and> st_state (sv_status s) = Svc_running \<or>
           sv_event s = Some True \<and> st_state (sv_status s) = Svc_stop_pending)
      | Finished \<Rightarrow> stops s \<le> 1 \<and> (sv_reports s = [] \<or> st_state (last (sv_reports s)) = Svc_stopped))"

lemma report_simps [simp]:
  "sv_phase (report_svc_status st c h s) = sv_phase s" "sv_event (report_svc_status st c h s) = sv_event s"
  "sv_status (report_svc_status st c h s) = last (sv_reports (report_svc_status st c h s))"
  "sv_reports (report_svc_status st c h s) \<noteq> []"
  "st_state (last (sv_reports (report_svc_status st c h s))) = st"
  "stops (report_svc_status st c h s) = stops s + (if st = Svc_stopped then 1 else 0)"
  by (simp_all add: report_svc_status_def stops_def Let_def)

lemma stops_simps [simp]: "stops (s\<lparr>sv_phase := p\<rparr>) = stops s" "stops (s\<lparr>sv_event := e\<rparr>) = stops s"
  by (simp_all add: stops_def)

lemma svc_ok_start:
  assumes "svc_ok s" and "sv_phase s = Not_started"
  shows "svc_ok (svc_main registered created s)"
proof -
  have "sv_reports s = []" "stops s = 0" using assms by (simp_all add: svc_ok_def stops_def)
  then show ?thesis
    by (simp add: svc_main_def svc_init_def svc_report_event_def)
      (simp add: svc_ok_def stops_def report_svc_status_def Let_def)
qed

lemma svc_ok_control:
  assumes "svc_ok s" and "sv_phase s = Serving \<or> sv_phase s = Joining code"
  shows "svc_ok (svc_ctrl_handler ctrl s)"
  using assms by (cases ctrl) (auto simp: svc_ok_def svc_ctrl_handler_def Let_def)

lemma svc_ok_step: "svc_step s s' \<Longrightarrow> svc_ok s \<Longrightarrow> svc_ok s'"
  by (erule svc_stepE) (auto simp: svc_ok_start svc_ok_control, auto simp: svc_ok_def svc_finish_def)

lemma svc_ok_reachable: "svc_reachable s \<Longrightarrow> svc_ok s"
proof (induction rule: svc_reachable.induct)
  case Init
  then show ?case by (simp add: svc_ok_def new_svc_def)
next
  case (Step s s')
  then show ?case using svc_ok_step by blast
qed

section \<open>Properties\<close>



end
