(* ===== verification/Utf8.thy ===== *)
theory Utf8
  imports Prelude
begin

text \<open>
  UTF-8 as the serializer of the JSON library reads it: \<open>decode\<close> of
  \<open>externals/nlohmann_json/include/nlohmann/detail/output/serializer.hpp\<close>, a finite
  automaton that is fed byte by byte and collects the code point.  The specification is the table of
  well-formed sequences of the Unicode standard, by the first byte.
\<close>

unbundle bit_operations_syntax

section \<open>Well-formed sequences\<close>

definition byte_of :: "char \<Rightarrow> nat" where
  "byte_of c = of_char c"

text \<open>The ranges of the bytes that follow a first byte.\<close>

definition follow_ranges :: "nat \<Rightarrow> (nat \<times> nat) list option" where
  "follow_ranges b =
     (if b \<le> 0x7F then Some []
      else if 0xC2 \<le> b \<and> b \<le> 0xDF then Some [(0x80, 0xBF)]
      else if b = 0xE0 then Some [(0xA0, 0xBF), (0x80, 0xBF)]
      else if 0xE1 \<le> b \<and> b \<le> 0xEC \<or> b = 0xEE \<or> b = 0xEF then Some [(0x80, 0xBF), (0x80, 0xBF)]
      else if b = 0xED then Some [(0x80, 0x9F), (0x80, 0xBF)]
      else if b = 0xF0 then Some [(0x90, 0xBF), (0x80, 0xBF), (0x80, 0xBF)]
      else if 0xF1 \<le> b \<and> b \<le> 0xF3 then Some [(0x80, 0xBF), (0x80, 0xBF), (0x80, 0xBF)]
      else if b = 0xF4 then Some [(0x80, 0x8F), (0x80, 0xBF), (0x80, 0xBF)]
      else None)"

text \<open>\<open>utf8_from rs s\<close>: \<open>s\<close> completes a sequence that needs bytes in the
  ranges \<open>rs\<close>, and goes on well-formed.\<close>

fun utf8_from :: "(nat \<times> nat) list \<Rightarrow> string \<Rightarrow> bool" where
  "utf8_from rs [] = (rs = [])"
| "utf8_from ((lo, hi) # rs) (c # cs) = (lo \<le> byte_of c \<and> byte_of c \<le> hi \<and> utf8_from rs cs)"
| "utf8_from [] (c # cs) =
     (case follow_ranges (byte_of c) of None \<Rightarrow> False | Some rs \<Rightarrow> utf8_from rs cs)"

definition utf8 :: "string \<Rightarrow> bool" where
  "utf8 s = utf8_from [] s"

section \<open>decode\<close>

text \<open>\<open>utf8d\<close>: the first 256 entries, the classes of the bytes, by runs, and the rows of the
  transitions.  State 0 accepts and state 1 rejects.\<close>

definition byte_class :: "nat \<Rightarrow> nat" where
  "byte_class b =
     (if b \<le> 0x7F then 0
      else if b \<le> 0x8F then 1
      else if b \<le> 0x9F then 9
      else if b \<le> 0xBF then 7
      else if b \<le> 0xC1 then 8
      else if b \<le> 0xDF then 2
      else if b = 0xE0 then 10
      else if b = 0xED then 4
      else if b \<le> 0xEF then 3
      else if b = 0xF0 then 11
      else if b \<le> 0xF3 then 6
      else if b = 0xF4 then 5
      else 8)"

definition transitions :: "nat list list" where
  "transitions =
     [[0, 1, 2, 3, 5, 8, 7, 1, 1, 1, 4, 6, 1, 1, 1, 1],
      [1, 1, 1, 1, 1, 1, 1, 1, 1, 1, 1, 1, 1, 1, 1, 1],
      [1, 0, 1, 1, 1, 1, 1, 0, 1, 0, 1, 1, 1, 1, 1, 1],
      [1, 2, 1, 1, 1, 1, 1, 2, 1, 2, 1, 1, 1, 1, 1, 1],
      [1, 1, 1, 1, 1, 1, 1, 2, 1, 1, 1, 1, 1, 1, 1, 1],
      [1, 2, 1, 1, 1, 1, 1, 1, 1, 2, 1, 1, 1, 1, 1, 1],
      [1, 1, 1, 1, 1, 1, 1, 3, 1, 3, 1, 1, 1, 1, 1, 1],
      [1, 3, 1, 1, 1, 1, 1, 3, 1, 3, 1, 1, 1, 1, 1, 1],
      [1, 3, 1, 1, 1, 1, 1, 1, 1, 1, 1, 1, 1, 1, 1, 1]]"

definition decode_utf8 :: "nat \<times> 32 word \<Rightarrow> nat \<Rightarrow> nat \<times> 32 word" where
  "decode_utf8 sc byte =
     (case sc of (state, codep) \<Rightarrow>
        (transitions ! state ! byte_class byte,
         if state \<noteq> 0 then (of_nat byte AND 0x3F) OR (push_bit 6 codep)
         else (drop_bit (byte_class byte) 0xFF) AND of_nat byte))"

section \<open>The automaton recognises the well-formed sequences\<close>

lemma byte_of_less [simp]: "byte_of c < 256"
  by (simp add: byte_of_def)

lemma byte_of_char_of [simp]: "n < 256 \<Longrightarrow> byte_of (char_of n) = n"
  by (simp add: byte_of_def)

lemma byte_of_inject [simp]: "byte_of c = byte_of d \<longleftrightarrow> c = d"
  by (simp add: byte_of_def)

text \<open>The ranges a state waits for.\<close>

definition needs :: "nat \<Rightarrow> (nat \<times> nat) list" where
  "needs st =
     [[], [], [(0x80, 0xBF)], [(0x80, 0xBF), (0x80, 0xBF)], [(0xA0, 0xBF), (0x80, 0xBF)],
      [(0x80, 0x9F), (0x80, 0xBF)], [(0x90, 0xBF), (0x80, 0xBF), (0x80, 0xBF)],
      [(0x80, 0xBF), (0x80, 0xBF), (0x80, 0xBF)], [(0x80, 0x8F), (0x80, 0xBF), (0x80, 0xBF)]] ! st"

definition next_state :: "nat \<Rightarrow> nat \<Rightarrow> nat" where
  "next_state st b = transitions ! st ! byte_class b"

lemma byte_classes:
  "b < 256 \<Longrightarrow> byte_class b \<in> {0, 1, 2, 3, 4, 5, 6, 7, 8, 9, 10, 11}"
  by (simp add: byte_class_def)

lemma byte_class_simps:
  "b \<le> 0x7F \<Longrightarrow> byte_class b = 0"
  "0xC2 \<le> b \<Longrightarrow> b \<le> 0xDF \<Longrightarrow> byte_class b = 2"
  "0xE1 \<le> b \<Longrightarrow> b \<le> 0xEF \<Longrightarrow> b \<noteq> 0xED \<Longrightarrow> byte_class b = 3"
  "0xF1 \<le> b \<Longrightarrow> b \<le> 0xF3 \<Longrightarrow> byte_class b = 6"
  "0x80 \<le> b \<Longrightarrow> b \<le> 0x8F \<Longrightarrow> byte_class b = 1"
  "0x90 \<le> b \<Longrightarrow> b \<le> 0x9F \<Longrightarrow> byte_class b = 9"
  "0xA0 \<le> b \<Longrightarrow> b \<le> 0xBF \<Longrightarrow> byte_class b = 7"
  "byte_class 0xE0 = 10" "byte_class 0xED = 4" "byte_class 0xF0 = 11" "byte_class 0xF4 = 5"
  by (simp_all add: byte_class_def)

text \<open>The bytes a sequence may start with.\<close>

lemma first_byte_cases:
  assumes "follow_ranges b = Some rs"
  obtains "b \<le> 0x7F" | "0xC2 \<le> b" "b \<le> 0xDF" | "b \<in> {0xE0, 0xED, 0xF0, 0xF4}"
    | "0xE1 \<le> b" "b \<le> 0xEF" "b \<noteq> 0xED" | "0xF1 \<le> b" "b \<le> 0xF3"
  using assms by (auto simp: follow_ranges_def split: if_splits)

lemma next_state_first:
  assumes "follow_ranges b = Some rs"
  shows "next_state 0 b \<noteq> 1 \<and> next_state 0 b < 9 \<and> needs (next_state 0 b) = rs \<and> (next_state 0 b = 0 \<longleftrightarrow> b \<le> 0x7F)"
  using first_byte_cases [OF assms]
proof cases
  case 3
  then show ?thesis
    using assms by (auto simp: next_state_def transitions_def byte_class_simps needs_def follow_ranges_def)
qed (use assms in \<open>simp_all add: next_state_def transitions_def byte_class_simps needs_def follow_ranges_def split: if_splits\<close>)

lemma next_state_no_first:
  assumes "follow_ranges b = None"
  shows "next_state 0 b = 1"
proof -
  have "byte_class b \<in> {1, 7, 8, 9}"
    using assms by (simp add: follow_ranges_def byte_class_def split: if_splits) linarith
  then show ?thesis by (auto simp: next_state_def transitions_def)
qed

lemma next_state_range:
  assumes "st < 9" and "needs st = (lo, hi) # rs" and "b < 256"
  shows "if lo \<le> b \<and> b \<le> hi
    then next_state st b < 9 \<and> next_state st b \<noteq> 1 \<and> needs (next_state st b) = rs \<and> (next_state st b = 0 \<longleftrightarrow> rs = [])
    else next_state st b = 1"
proof -
  have "st \<in> {0, 1, 2, 3, 4, 5, 6, 7, 8}" using assms(1) by (simp, arith)
  then show ?thesis
    using assms(2,3)
    by (elim insertE emptyE) (auto simp: next_state_def transitions_def needs_def byte_class_def)
qed


section \<open>The code point\<close>

text \<open>The bits of a byte are put below those collected so far.\<close>

lemma or_push_bit:
  assumes "unat cp < 2 ^ 26"
  shows "unat ((of_nat b AND 0x3F) OR push_bit 6 cp :: 32 word) = b mod 64 + 64 * unat cp"
proof -
  have m: "(0x3F :: 32 word) = mask 6" by (simp add: mask_eq_exp_minus_1)
  have a: "take_bit 6 (of_nat b :: 32 word) AND push_bit 6 cp = 0"
    by (rule bit_word_eqI) (auto simp: bit_simps)
  have "(of_nat b AND 0x3F) OR push_bit 6 cp = take_bit 6 (of_nat b :: 32 word) + push_bit 6 cp"
    unfolding m take_bit_eq_mask [symmetric] by (rule disjunctive_add_eq_or [OF a, symmetric])
  moreover have "unat (push_bit 6 cp) = 64 * unat cp"
    using assms by (simp only: unsigned_push_bit_eq) (simp add: push_bit_eq_mult take_bit_eq_mod mult.commute)
  moreover have "unat (take_bit 6 (of_nat b :: 32 word)) = b mod 64"
    by (simp only: unsigned_take_bit_eq) (simp add: unsigned_of_nat take_bit_eq_mod mod_mod_cancel)
  moreover have "b mod 64 + 64 * unat cp < 2 ^ 32"
  proof -
    have "b mod 64 < 64" by simp
    then show ?thesis using assms by simp
  qed
  ultimately show ?thesis by (simp add: unat_word_ariths(1))
qed

text \<open>What is known of it in a state: enough to see that a sequence of several bytes never gives a
  code point below 128.\<close>

definition codep_ok :: "nat \<Rightarrow> nat \<Rightarrow> bool" where
  "codep_ok st n \<longleftrightarrow>
     [0, 0, 2, 1, 0, 1, 0, 1, 1] ! st \<le> n \<and>
     n < [2 ^ 32, 2 ^ 32, 2 ^ 15, 2 ^ 9, 2 ^ 9, 2 ^ 9, 2 ^ 3, 2 ^ 3, 2 ^ 3] ! st"

lemma codep_ok_0 [simp]: "codep_ok 0 (unat (w :: 32 word))"
  using unsigned_less [of w] by (simp add: codep_ok_def)

lemma first_codep:
  assumes "b < 256"
  shows "unat (drop_bit (byte_class b) 0xFF AND of_nat b :: 32 word) = b mod 2 ^ (8 - byte_class b)"
proof -
  have "byte_class b \<in> {0, 1, 2, 3, 4, 5, 6, 7, 8, 9, 10, 11}" using assms by (rule byte_classes)
  then have "drop_bit (byte_class b) 0xFF = (mask (8 - byte_class b) :: 32 word)"
    by (elim insertE emptyE) (simp_all add: mask_eq_exp_minus_1)
  then have "drop_bit (byte_class b) 0xFF AND of_nat b = take_bit (8 - byte_class b) (of_nat b :: 32 word)"
    by (simp add: take_bit_eq_mask and.commute)
  moreover have "b mod 2 ^ 32 = b" using assms by simp
  ultimately show ?thesis
    by (simp only: unsigned_take_bit_eq) (simp add: unsigned_of_nat take_bit_eq_mod)
qed

lemma mod_sub: "c * m \<le> b \<Longrightarrow> b < c * m + m \<Longrightarrow> b mod m = b - c * m" for b c m :: nat
proof -
  assume b: "c * m \<le> b" "b < c * m + m"
  then have "b = (b - c * m) + c * m" "b - c * m < m" by simp_all
  then show ?thesis by (metis mod_less mod_mult_self1)
qed

lemma first_bits:
  "0xC2 \<le> b \<Longrightarrow> b \<le> 0xDF \<Longrightarrow> b mod 64 = b - 0xC0"
  "0xE1 \<le> b \<Longrightarrow> b \<le> 0xEF \<Longrightarrow> b mod 32 = b - 0xE0"
  "0xF1 \<le> b \<Longrightarrow> b \<le> 0xF3 \<Longrightarrow> b mod 4 = b - 0xF0"
  "0x80 \<le> b \<Longrightarrow> b \<le> 0xBF \<Longrightarrow> b mod 64 = b - 0x80" for b :: nat
  using mod_sub [of 3 64 b] mod_sub [of 7 32 b] mod_sub [of 60 4 b] mod_sub [of 2 64 b] by simp_all

lemma codep_first:
  assumes "b < 256" and "follow_ranges b = Some rs"
  shows "codep_ok (next_state 0 b) (b mod 2 ^ (8 - byte_class b))"
  using first_byte_cases [OF assms(2)]
proof cases
  case 3
  then show ?thesis by (auto simp: codep_ok_def next_state_def transitions_def byte_class_simps)
qed (simp_all add: codep_ok_def next_state_def transitions_def byte_class_simps first_bits, arith+)

lemma codep_next:
  assumes "st < 9" and "needs st = (lo, hi) # rs" and "lo \<le> b" and "b \<le> hi" and "codep_ok st n"
  shows "n < 2 ^ 26 \<and> st \<noteq> 0 \<and> codep_ok (next_state st b) (b mod 64 + 64 * n) \<and>
    (next_state st b = 0 \<longrightarrow> 0x80 \<le> b mod 64 + 64 * n)"
proof -
  have sts: "st \<in> {0, 1, 2, 3, 4, 5, 6, 7, 8}" using assms(1) by (simp, arith)
  then have b: "0x80 \<le> b" "b \<le> 0xBF" using assms(2-4) by (elim insertE emptyE; auto simp: needs_def)+
  consider "byte_class b = 1" "b \<le> 0x8F" | "byte_class b = 7" "0xA0 \<le> b" | "byte_class b = 9" "0x90 \<le> b" "b \<le> 0x9F"
    using byte_class_simps(5-7) [of b] b by linarith
  then show ?thesis
    using sts assms(2-5) b unfolding first_bits(4) [OF b]
    by cases ((elim insertE emptyE; simp add: codep_ok_def needs_def next_state_def transitions_def; linarith?)+)
qed

lemma decode_first:
  assumes "b < 256" and "follow_ranges b = Some rs"
  shows "\<exists>st cp'. decode_utf8 (0, cp) b = (st, cp') \<and> st < 9 \<and> st \<noteq> 1 \<and> needs st = rs \<and> codep_ok st (unat cp') \<and>
    (st = 0 \<longleftrightarrow> b \<le> 0x7F) \<and> (st = 0 \<longrightarrow> unat cp' = b)"
proof -
  let ?st = "next_state 0 b" and ?cp = "drop_bit (byte_class b) 0xFF AND of_nat b :: 32 word"
  have n: "?st \<noteq> 1" "?st < 9" "needs ?st = rs" "?st = 0 \<longleftrightarrow> b \<le> 0x7F"
    using next_state_first [OF assms(2)] by simp_all
  have u: "unat ?cp = b mod 2 ^ (8 - byte_class b)" using assms(1) by (rule first_codep)
  have "codep_ok ?st (unat ?cp)" unfolding u using assms by (rule codep_first)
  moreover have "unat ?cp = b" if "?st = 0"
    using that u n(4) by (simp add: byte_class_def)
  ultimately show ?thesis
    using n by (intro exI [of _ ?st] exI [of _ ?cp]) (simp add: decode_utf8_def next_state_def)
qed

lemma decode_next:
  assumes "st < 9" and "needs st = (lo, hi) # rs" and "lo \<le> b" and "b \<le> hi" and "b < 256" and "codep_ok st (unat cp)"
  shows "\<exists>st' cp'. decode_utf8 (st, cp) b = (st', cp') \<and> st' < 9 \<and> st' \<noteq> 1 \<and> needs st' = rs \<and> codep_ok st' (unat cp') \<and>
    (st' = 0 \<longleftrightarrow> rs = []) \<and> (st' = 0 \<longrightarrow> 0x80 \<le> unat cp')"
proof -
  let ?st = "next_state st b" and ?cp = "(of_nat b AND 0x3F) OR push_bit 6 cp :: 32 word"
  have n: "?st < 9" "?st \<noteq> 1" "needs ?st = rs" "?st = 0 \<longleftrightarrow> rs = []"
    using next_state_range [OF assms(1,2,5)] assms(3,4) by simp_all
  note c = codep_next [OF assms(1-4,6)]
  then have st: "st \<noteq> 0" and u: "unat ?cp = b mod 64 + 64 * unat cp" using or_push_bit by blast+
  have "codep_ok ?st (unat ?cp) \<and> (?st = 0 \<longrightarrow> 0x80 \<le> unat ?cp)" unfolding u using c by blast
  with n st show ?thesis
    by (intro exI [of _ ?st] exI [of _ ?cp]) (simp add: decode_utf8_def next_state_def)
qed


section \<open>A step\<close>

text \<open>The ranges that are left after a byte.\<close>

definition follow :: "(nat \<times> nat) list \<Rightarrow> nat \<Rightarrow> (nat \<times> nat) list option" where
  "follow rs b =
     (case rs of
        [] \<Rightarrow> follow_ranges b
      | (lo, hi) # rs \<Rightarrow> if lo \<le> b \<and> b \<le> hi then Some rs else None)"

lemma utf8_from_Cons:
  "utf8_from rs (c # cs) = (case follow rs (byte_of c) of None \<Rightarrow> False | Some rs \<Rightarrow> utf8_from rs cs)"
  by (cases "(rs, c # cs)" rule: utf8_from.cases) (auto simp: follow_def split: if_splits)

lemma needs_Nil: "st < 9 \<Longrightarrow> st \<noteq> 1 \<Longrightarrow> needs st = [] \<longleftrightarrow> st = 0"
proof -
  assume "st < 9" "st \<noteq> 1"
  then have "st \<in> {0, 2, 3, 4, 5, 6, 7, 8}" by (simp, arith)
  then show ?thesis by (auto simp: needs_def)
qed

lemma follow_Cons: "follow (r # rs) b = Some rs' \<Longrightarrow> rs' = rs"
  by (auto simp: follow_def split: prod.splits if_splits)

lemma follow_high:
  assumes "st < 9" and "st \<noteq> 1" and "follow (needs st) b = Some rs" and "st \<noteq> 0 \<or> rs \<noteq> []"
  shows "0x80 \<le> b"
proof -
  have "st \<in> {0, 2, 3, 4, 5, 6, 7, 8}" using assms(1,2) by (simp, arith)
  then show ?thesis
    using assms(3,4)
    by (elim insertE emptyE) (auto simp: follow_def needs_def follow_ranges_def split: if_splits)
qed

lemma needs_length: "st < 9 \<Longrightarrow> length (needs st) \<le> 3"
proof -
  assume "st < 9"
  then have "st \<in> {0, 1, 2, 3, 4, 5, 6, 7, 8}" by (simp, arith)
  then show ?thesis by (elim insertE emptyE) (simp_all add: needs_def)
qed

lemma decode_reject:
  assumes "st < 9" and "st \<noteq> 1" and "b < 256" and "follow (needs st) b = None"
  shows "\<exists>cp'. decode_utf8 (st, cp) b = (1, cp')"
proof (cases "needs st")
  case Nil
  then have "st = 0" using assms(1,2) needs_Nil by simp
  then show ?thesis
    using assms(4) Nil next_state_no_first [of b] by (simp add: follow_def decode_utf8_def next_state_def)
next
  case (Cons r rs)
  then obtain lo hi where n: "needs st = (lo, hi) # rs" by (cases r) simp
  then show ?thesis
    using assms(4) next_state_range [OF assms(1) n assms(3)] by (simp add: follow_def decode_utf8_def next_state_def split: if_splits)
qed

lemma decode_follow:
  assumes "st < 9" and "st \<noteq> 1" and "codep_ok st (unat cp)" and "b < 256" and "follow (needs st) b = Some rs"
  shows "\<exists>st' cp'. decode_utf8 (st, cp) b = (st', cp') \<and> st' < 9 \<and> st' \<noteq> 1 \<and> needs st' = rs \<and> codep_ok st' (unat cp') \<and>
    (st' = 0 \<longleftrightarrow> rs = []) \<and> (st' = 0 \<longrightarrow> (if st = 0 then unat cp' = b \<and> b \<le> 0x7F else 0x80 \<le> unat cp'))"
proof (cases "needs st")
  case Nil
  then have st: "st = 0" using assms(1,2) needs_Nil by simp
  have f: "follow_ranges b = Some rs" using assms(5) Nil by (simp add: follow_def)
  then have "rs = [] \<longleftrightarrow> b \<le> 0x7F" by (auto simp: follow_ranges_def split: if_splits)
  then show ?thesis using decode_first [OF assms(4) f, of cp] st by auto
next
  case (Cons r rs')
  then obtain lo hi where n: "needs st = (lo, hi) # rs" and b: "lo \<le> b" "b \<le> hi"
    using assms(5) by (cases r) (auto simp: follow_def split: if_splits)
  have "st \<noteq> 0" using n by (cases "st = 0") (simp_all add: needs_def)
  then show ?thesis using decode_next [OF assms(1) n b assms(4,3)] by auto
qed


end
