(* ===== verification/Json_Escape.thy ===== *)
theory Json_Escape
  imports Utf8 Cxx_Numbers
begin

text \<open>
  \<open>dump_escaped\<close> of
  \<open>externals/nlohmann_json/include/nlohmann/detail/output/serializer.hpp\<close>: the string of a JSON
  value or a key of an object, written with escapes through a buffer of 512 bytes, in its three ways to
  treat bytes that are not UTF-8.  The program only uses the first, \<open>strict\<close>.

  The first lemmas show that no string makes it write past the buffer, in any of the modes; the others
  that the strict mode is the escape of each character, and an error exactly for the strings that are not
  UTF-8.
\<close>

unbundle bit_operations_syntax

section \<open>dump_escaped\<close>

datatype error_handler = Handler_strict | Handler_replace | Handler_ignore

text \<open>The local variables: the buffer is the list of the bytes written to it, \<open>esc_accept\<close> is
  \<open>bytes_after_last_accept\<close>, and \<open>esc_out\<close> is what has gone to the output.\<close>

record esc =
  esc_state :: nat
  esc_codep :: "32 word"
  esc_buffer :: string
  esc_accept :: nat
  esc_undumped :: nat
  esc_out :: string

definition buffer_size :: nat where "buffer_size = 512"

text \<open>A write of the bytes \<open>t\<close> and of \<open>extra\<close> more that are not counted (the terminator of
  \<open>snprintf\<close>) at the end of what the buffer holds.\<close>

definition esc_put :: "string \<Rightarrow> nat \<Rightarrow> esc \<Rightarrow> esc outcome" where
  "esc_put t extra e =
     (if length (esc_buffer e) + length t + extra \<le> buffer_size
      then Inr (e\<lparr>esc_buffer := esc_buffer e @ t\<rparr>) else Inl UB)"

definition esc_flush :: "esc \<Rightarrow> esc" where
  "esc_flush e =
     (if buffer_size - length (esc_buffer e) < 13
      then e\<lparr>esc_out := esc_out e @ esc_buffer e, esc_buffer := []\<rparr> else e)"

text \<open>\<open>"\u%04x"\<close> of a \<open>std::uint16_t\<close>.\<close>

definition hex4 :: "16 word \<Rightarrow> string" where
  "hex4 w =
     (let n = unat w in
      [CHR 0x5C, CHR ''u'', hex_digit (n div 4096), hex_digit (n div 256 mod 16),
       hex_digit (n div 16 mod 16), hex_digit (n mod 16)])"

text \<open>The branch \<open>UTF8_ACCEPT\<close>: what is written for a code point whose last byte is \<open>c\<close>,
  with the terminator that \<open>snprintf\<close> adds.\<close>

definition codepoint_text :: "bool \<Rightarrow> 32 word \<Rightarrow> char \<Rightarrow> string \<times> nat" where
  "codepoint_text ensure_ascii cp c =
     (if cp = 0x08 then ([CHR 0x5C, CHR ''b''], 0)
      else if cp = 0x09 then ([CHR 0x5C, CHR ''t''], 0)
      else if cp = 0x0A then ([CHR 0x5C, CHR ''n''], 0)
      else if cp = 0x0C then ([CHR 0x5C, CHR ''f''], 0)
      else if cp = 0x0D then ([CHR 0x5C, CHR ''r''], 0)
      else if cp = 0x22 then ([CHR 0x5C, CHR 0x22], 0)
      else if cp = 0x5C then ([CHR 0x5C, CHR 0x5C], 0)
      else if cp \<le> 0x1F \<or> ensure_ascii \<and> 0x7F \<le> cp then
        (if cp \<le> 0xFFFF then (hex4 (ucast cp), 1)
         else (hex4 (ucast (0xD7C0 + drop_bit 10 cp)) @ hex4 (ucast (0xDC00 + (cp AND 0x3FF))), 1))
      else ([c], 0))"

definition accept_byte :: "bool \<Rightarrow> char \<Rightarrow> esc \<Rightarrow> esc outcome" where
  "accept_byte ensure_ascii c e =
     bind (case_prod esc_put (codepoint_text ensure_ascii (esc_codep e) c) e) (\<lambda>e.
       let e = esc_flush e in
       Inr (e\<lparr>esc_accept := length (esc_buffer e), esc_undumped := 0\<rparr>))"

text \<open>The branch \<open>UTF8_REJECT\<close>.  The flag of the result says that the byte is read again
  (\<open>--i\<close>).\<close>

definition reject_byte :: "error_handler \<Rightarrow> bool \<Rightarrow> esc \<Rightarrow> (bool \<times> esc) outcome" where
  "reject_byte handler ensure_ascii e =
     (if handler = Handler_strict then Inl (Throw Json_type_error)
      else
        let again = (0 < esc_undumped e);
            e = e\<lparr>esc_buffer := take (esc_accept e) (esc_buffer e)\<rparr>
        in bind
             (if handler = Handler_replace then
                bind (esc_put (if ensure_ascii then CHR 0x5C # ''ufffd'' else [CHR 0xEF, CHR 0xBF, CHR 0xBD]) 0 e) (\<lambda>e.
                  let e = esc_flush e in Inr (e\<lparr>esc_accept := length (esc_buffer e)\<rparr>))
              else Inr e) (\<lambda>e. Inr (again, e\<lparr>esc_undumped := 0, esc_state := 0\<rparr>)))"

definition dump_byte :: "error_handler \<Rightarrow> bool \<Rightarrow> char \<Rightarrow> esc \<Rightarrow> (bool \<times> esc) outcome" where
  "dump_byte handler ensure_ascii c e =
     (case decode_utf8 (esc_state e, esc_codep e) (byte_of c) of
        (state, codep) \<Rightarrow>
          let e = e\<lparr>esc_state := state, esc_codep := codep\<rparr> in
          if state = 0 then bind (accept_byte ensure_ascii c e) (\<lambda>e. Inr (False, e))
          else if state = 1 then reject_byte handler ensure_ascii e
          else bind (if ensure_ascii then Inr e else esc_put [c] 0 e) (\<lambda>e.
                 Inr (False, e\<lparr>esc_undumped := esc_undumped e + 1\<rparr>)))"

lemma dump_byte_again:
  assumes "dump_byte handler ensure_ascii c e = Inr (True, e')"
  shows "0 < esc_undumped e \<and> esc_undumped e' = 0"
  using assms
  by (auto simp: dump_byte_def reject_byte_def Let_def outcome_simps split: if_splits prod.splits)

text \<open>The loop over the bytes.\<close>

function dump_bytes :: "error_handler \<Rightarrow> bool \<Rightarrow> string \<Rightarrow> esc \<Rightarrow> esc outcome" where
  "dump_bytes handler ensure_ascii [] e = Inr e"
| "dump_bytes handler ensure_ascii (c # cs) e =
     (case dump_byte handler ensure_ascii c e of
        Inl f \<Rightarrow> Inl f
      | Inr (again, e') \<Rightarrow>
          if again then dump_bytes handler ensure_ascii (c # cs) e'
          else dump_bytes handler ensure_ascii cs e')"
  by pat_completeness auto
termination
  by (relation "measure (\<lambda>(_, _, cs, e). 2 * length cs + (if 0 < esc_undumped e then 1 else 0))")
    (auto dest: dump_byte_again)

definition esc_start :: esc where
  "esc_start = \<lparr>esc_state = 0, esc_codep = 0, esc_buffer = [], esc_accept = 0, esc_undumped = 0, esc_out = []\<rparr>"

definition dump_escaped :: "error_handler \<Rightarrow> bool \<Rightarrow> string \<Rightarrow> string outcome" where
  "dump_escaped handler ensure_ascii s =
     bind (dump_bytes handler ensure_ascii s esc_start) (\<lambda>e.
       if esc_state e = 0 then Inr (esc_out e @ esc_buffer e)
       else if handler = Handler_strict then Inl (Throw Json_type_error)
       else if handler = Handler_ignore then Inr (esc_out e @ take (esc_accept e) (esc_buffer e))
       else Inr (esc_out e @ take (esc_accept e) (esc_buffer e) @
              (if ensure_ascii then CHR 0x5C # ''ufffd'' else [CHR 0xEF, CHR 0xBF, CHR 0xBD])))"

section \<open>The buffer\<close>

text \<open>Between two code points at most 499 bytes wait in the buffer, and inside one the bytes of it that
  came come on top, where they are not escaped.\<close>

definition room :: "bool \<Rightarrow> nat \<Rightarrow> nat" where
  "room ensure_ascii st = (if st = 0 \<or> ensure_ascii then 499 else 503 - length (needs st))"

definition esc_ok :: "bool \<Rightarrow> esc \<Rightarrow> bool" where
  "esc_ok ensure_ascii e \<longleftrightarrow>
     esc_state e < 9 \<and> esc_state e \<noteq> 1 \<and> codep_ok (esc_state e) (unat (esc_codep e)) \<and>
     esc_accept e \<le> 499 \<and> length (esc_buffer e) \<le> room ensure_ascii (esc_state e)"

lemma length_hex4 [simp]: "length (hex4 w) = 6"
  by (simp add: hex4_def Let_def)

lemma length_flush: "length (esc_buffer e) \<le> buffer_size \<Longrightarrow> length (esc_buffer (esc_flush e)) \<le> 499"
  by (simp add: esc_flush_def buffer_size_def) arith

lemma flush_fields [simp]:
  "esc_state (esc_flush e) = esc_state e" "esc_codep (esc_flush e) = esc_codep e"
  "esc_out (esc_flush e) @ esc_buffer (esc_flush e) = esc_out e @ esc_buffer e"
  by (simp_all add: esc_flush_def)

lemma put_InrD:
  "esc_put t n e = Inr e' \<Longrightarrow> e' = e\<lparr>esc_buffer := esc_buffer e @ t\<rparr> \<and> length (esc_buffer e') \<le> buffer_size"
  by (auto simp: esc_put_def split: if_splits)

lemma codepoint_text_length:
  "case codepoint_text ensure_ascii cp c of (t, extra) \<Rightarrow> length t \<le> 12 \<and> extra \<le> 1"
  by (simp add: codepoint_text_def)

lemma codepoint_text_copy:
  "0x80 \<le> unat cp \<Longrightarrow> codepoint_text False cp c = ([c], 0)"
  by (auto simp: codepoint_text_def word_le_nat_alt)

lemma room_bounds:
  "room ensure_ascii st \<le> 503" "room True st = 499" "room ensure_ascii 0 = 499"
  by (simp_all add: room_def)

lemma accept_byte_ok:
  assumes "length (esc_buffer e) \<le> (if 0x80 \<le> unat (esc_codep e) \<and> \<not> ensure_ascii then 502 else 499)"
    and "esc_state e = 0"
  shows "\<exists>e'. accept_byte ensure_ascii c e = Inr e' \<and> esc_state e' = 0 \<and> esc_ok ensure_ascii e' \<and>
    esc_out e' @ esc_buffer e' = esc_out e @ esc_buffer e @ fst (codepoint_text ensure_ascii (esc_codep e) c)"
proof -
  obtain t extra where t: "codepoint_text ensure_ascii (esc_codep e) c = (t, extra)" by force
  have "length (esc_buffer e) + length t + extra \<le> buffer_size"
  proof (cases "0x80 \<le> unat (esc_codep e) \<and> \<not> ensure_ascii")
    case True
    then show ?thesis using assms(1) t codepoint_text_copy [of "esc_codep e" c] by (auto simp: buffer_size_def)
  next
    case False
    then have "length (esc_buffer e) \<le> 499" using assms(1) by auto
    then show ?thesis using codepoint_text_length [of ensure_ascii "esc_codep e" c] unfolding t
      by (simp add: buffer_size_def)
  qed
  then show ?thesis
    using length_flush [of "e\<lparr>esc_buffer := esc_buffer e @ t\<rparr>"] assms(2)
    by (simp add: accept_byte_def t esc_put_def esc_ok_def room_def Let_def flush_fields(3) [simplified])
qed

lemma reject_byte_ok:
  assumes "esc_accept e \<le> 499" and "handler \<noteq> Handler_strict"
  shows "\<exists>again e'. reject_byte handler ensure_ascii e = Inr (again, e') \<and> esc_ok ensure_ascii e'"
proof -
  let ?e = "e\<lparr>esc_buffer := take (esc_accept e) (esc_buffer e)\<rparr>"
  have "length (esc_buffer ?e) \<le> 499" using assms(1) by simp
  then show ?thesis
    using assms length_flush [of "?e\<lparr>esc_buffer := esc_buffer ?e @ t\<rparr>" for t]
    by (simp add: reject_byte_def esc_put_def esc_ok_def room_def Let_def buffer_size_def)
qed

text \<open>The escape of a byte.\<close>

definition json_escape :: "char \<Rightarrow> string" where
  "json_escape c =
     (if byte_of c = 0x08 then [CHR 0x5C, CHR ''b'']
      else if byte_of c = 0x09 then [CHR 0x5C, CHR ''t'']
      else if byte_of c = 0x0A then [CHR 0x5C, CHR ''n'']
      else if byte_of c = 0x0C then [CHR 0x5C, CHR ''f'']
      else if byte_of c = 0x0D then [CHR 0x5C, CHR ''r'']
      else if byte_of c = 0x22 then [CHR 0x5C, CHR 0x22]
      else if byte_of c = 0x5C then [CHR 0x5C, CHR 0x5C]
      else if byte_of c \<le> 0x1F then
        [CHR 0x5C, CHR ''u'', CHR ''0'', CHR ''0'', hex_digit (byte_of c div 16), hex_digit (byte_of c mod 16)]
      else [c])"

lemma json_escape_high: "0x80 \<le> byte_of c \<Longrightarrow> json_escape c = [c]"
  by (simp add: json_escape_def)

lemma hex4_byte:
  assumes "unat cp \<le> 0x1F"
  shows "hex4 (ucast cp) =
    [CHR 0x5C, CHR ''u'', CHR ''0'', CHR ''0'', hex_digit (unat cp div 16), hex_digit (unat cp mod 16)]"
proof -
  have "unat (ucast cp :: 16 word) = unat cp"
    using assms by (simp only: unsigned_ucast_eq) (simp add: take_bit_eq_mod)
  moreover have "unat cp div 16 mod 16 = unat cp div 16" using assms by simp
  ultimately show ?thesis using assms by (simp add: hex4_def hex_digit_def Let_def)
qed

lemma json_escape_codepoint:
  assumes "unat cp = byte_of c"
  shows "fst (codepoint_text False cp c) = json_escape c"
  using hex4_byte [of cp] by (simp add: codepoint_text_def json_escape_def word_unat_eq_iff word_le_nat_alt assms)

text \<open>A byte: the strict mode stops at a byte that does not continue what came before, the other modes
  never stop.\<close>

lemma dump_byte_follow:
  assumes "esc_ok ensure_ascii e" and "follow (needs (esc_state e)) (byte_of c) = Some rs"
  shows "\<exists>e'. dump_byte handler ensure_ascii c e = Inr (False, e') \<and> esc_ok ensure_ascii e' \<and> needs (esc_state e') = rs \<and>
    (\<not> ensure_ascii \<longrightarrow> esc_out e' @ esc_buffer e' = esc_out e @ esc_buffer e @ json_escape c)"
proof -
  have e: "esc_state e < 9" "esc_state e \<noteq> 1" "codep_ok (esc_state e) (unat (esc_codep e))"
    "length (esc_buffer e) \<le> room ensure_ascii (esc_state e)" "esc_accept e \<le> 499"
    using assms(1) by (simp_all add: esc_ok_def)
  obtain st cp where d: "decode_utf8 (esc_state e, esc_codep e) (byte_of c) = (st, cp)"
    and st: "st < 9" "st \<noteq> 1" "needs st = rs" "codep_ok st (unat cp)"
    and z: "st = 0 \<longrightarrow> (if esc_state e = 0 then unat cp = byte_of c \<and> byte_of c \<le> 0x7F else 0x80 \<le> unat cp)"
    using decode_follow [OF e(1-3) byte_of_less assms(2)] by blast
  let ?e = "e\<lparr>esc_state := st, esc_codep := cp\<rparr>"
  show ?thesis
  proof (cases "st = 0")
    case True
    have "length (esc_buffer ?e) \<le> (if 0x80 \<le> unat (esc_codep ?e) \<and> \<not> ensure_ascii then 502 else 499)"
      using e z True needs_Nil [OF e(1,2)] by (cases "needs (esc_state e)") (auto simp: room_def split: if_splits)
    from accept_byte_ok [OF this] True obtain e' where "accept_byte ensure_ascii c ?e = Inr e'" "esc_state e' = 0" "esc_ok ensure_ascii e'"
      "esc_out e' @ esc_buffer e' = esc_out e @ esc_buffer e @ fst (codepoint_text ensure_ascii cp c)"
      by auto
    moreover have "fst (codepoint_text False cp c) = json_escape c"
    proof (cases "esc_state e = 0")
      case True
      then show ?thesis using z \<open>st = 0\<close> by (intro json_escape_codepoint) simp
    next
      case False
      then show ?thesis
        using z \<open>st = 0\<close> codepoint_text_copy [of cp c] json_escape_high [OF follow_high [OF e(1,2) assms(2)]] by simp
    qed
    ultimately show ?thesis using d True st(3) by (auto simp: dump_byte_def)
  next
    case False
    have rs: "rs \<noteq> []" "length rs \<le> 3" using st False needs_Nil [of st] needs_length [of st] by simp_all
    have "length (needs (esc_state e)) = Suc (length rs)" if "esc_state e \<noteq> 0"
      using that assms(2) needs_Nil [OF e(1,2)] by (cases "needs (esc_state e)") (auto dest: follow_Cons)
    then have "length (esc_buffer e) + (if ensure_ascii then 0 else 1) \<le> room ensure_ascii st"
      using e(4) st(3) False rs by (cases "esc_state e = 0") (auto simp: room_def split: if_splits)
    moreover from this have "ensure_ascii \<or> esc_put [c] 0 ?e = Inr (?e\<lparr>esc_buffer := esc_buffer e @ [c]\<rparr>)"
      using room_bounds(1) [of ensure_ascii st] by (auto simp: esc_put_def buffer_size_def)
    moreover have "json_escape c = [c]" using json_escape_high [OF follow_high [OF e(1,2) assms(2)]] rs by simp
    ultimately show ?thesis
      using d st False e(5) by (cases ensure_ascii) (simp_all add: dump_byte_def esc_ok_def room_bounds)
  qed
qed

lemma dump_byte_no_follow:
  assumes "esc_ok ensure_ascii e" and "follow (needs (esc_state e)) (byte_of c) = None"
  shows "if handler = Handler_strict then dump_byte handler ensure_ascii c e = Inl (Throw Json_type_error)
    else \<exists>again e'. dump_byte handler ensure_ascii c e = Inr (again, e') \<and> esc_ok ensure_ascii e'"
proof -
  have e: "esc_state e < 9" "esc_state e \<noteq> 1" "esc_accept e \<le> 499" using assms(1) by (simp_all add: esc_ok_def)
  obtain cp where d: "decode_utf8 (esc_state e, esc_codep e) (byte_of c) = (1, cp)"
    using decode_reject [OF e(1,2) byte_of_less assms(2)] by blast
  show ?thesis
    using reject_byte_ok [of "e\<lparr>esc_state := 1, esc_codep := cp\<rparr>" handler ensure_ascii] e(3) d
    by (auto simp: dump_byte_def reject_byte_def)
qed

lemma dump_byte_cases:
  assumes "esc_ok ensure_ascii e"
  shows "(\<exists>again e'. dump_byte handler ensure_ascii c e = Inr (again, e') \<and> esc_ok ensure_ascii e') \<or>
    handler = Handler_strict \<and> dump_byte handler ensure_ascii c e = Inl (Throw Json_type_error)"
  using dump_byte_follow [OF assms, of c] dump_byte_no_follow [OF assms, of c handler]
  by (cases "follow (needs (esc_state e)) (byte_of c)") (fastforce split: if_splits)+

lemma dump_bytes_cases:
  "esc_ok ensure_ascii e \<Longrightarrow>
   (\<exists>e'. dump_bytes handler ensure_ascii s e = Inr e' \<and> esc_ok ensure_ascii e') \<or>
   handler = Handler_strict \<and> dump_bytes handler ensure_ascii s e = Inl (Throw Json_type_error)"
proof (induction handler ensure_ascii s e rule: dump_bytes.induct)
  case (2 handler ensure_ascii c cs e)
  show ?case using dump_byte_cases [OF 2(3), of handler c]
  proof (elim disjE exE conjE)
    fix again e'
    assume d: "dump_byte handler ensure_ascii c e = Inr (again, e')" and ok: "esc_ok ensure_ascii e'"
    show ?thesis using 2(1) [OF d refl] 2(2) [OF d refl] ok d by (cases again) simp_all
  qed simp
qed simp

section \<open>What the strict mode writes\<close>

lemma dump_bytes_strict:
  "esc_ok False e \<Longrightarrow>
   if utf8_from (needs (esc_state e)) s
   then \<exists>e'. dump_bytes Handler_strict False s e = Inr e' \<and> esc_state e' = 0 \<and>
     esc_out e' @ esc_buffer e' = esc_out e @ esc_buffer e @ concat (map json_escape s)
   else dump_bytes Handler_strict False s e = Inl (Throw Json_type_error) \<or>
     (\<exists>e'. dump_bytes Handler_strict False s e = Inr e' \<and> esc_state e' \<noteq> 0)"
proof (induction s arbitrary: e)
  case Nil
  then show ?case by (simp add: esc_ok_def needs_Nil)
next
  case (Cons c s)
  show ?case
  proof (cases "follow (needs (esc_state e)) (byte_of c)")
    case None
    then show ?thesis using dump_byte_no_follow [OF Cons.prems None, of Handler_strict] by (simp add: utf8_from_Cons)
  next
    case (Some rs)
    from dump_byte_follow [OF Cons.prems Some, of Handler_strict] obtain e' where
      e': "dump_byte Handler_strict False c e = Inr (False, e')" "esc_ok False e'" "needs (esc_state e') = rs"
      "esc_out e' @ esc_buffer e' = esc_out e @ esc_buffer e @ json_escape c" by blast
    have "esc_out e' @ (esc_buffer e' @ t) = esc_out e @ esc_buffer e @ json_escape c @ t" for t
      using e'(4) by (metis append.assoc)
    note out = this
    show ?thesis using Cons.IH [OF e'(2)] Some e'(1,3)
      by (cases "utf8_from rs s") (simp_all add: utf8_from_Cons out)
  qed
qed

lemma esc_start_ok: "esc_ok ensure_ascii esc_start"
  by (simp add: esc_ok_def esc_start_def room_def codep_ok_def)

lemma dump_escaped_strict:
  "dump_escaped Handler_strict False s =
     (if utf8 s then Inr (concat (map json_escape s)) else Inl (Throw Json_type_error))"
  using dump_bytes_strict [OF esc_start_ok [of False], of s]
  by (auto simp: dump_escaped_def utf8_def esc_start_def needs_def split: if_splits)

text \<open>(C20) The serializer never writes past its 512 bytes of buffer, however it treats wrong bytes and
  whether it escapes what is not ASCII or not; a mode that ignores or replaces wrong bytes writes every
  string, and the strict one fails with a type error only.\<close>

theorem dump_escaped_in_buffer:
  "(\<exists>t. dump_escaped handler ensure_ascii s = Inr t) \<or>
   dump_escaped handler ensure_ascii s = Inl (Throw Json_type_error) \<and> handler = Handler_strict"
  using dump_bytes_cases [OF esc_start_ok [of ensure_ascii], of handler s]
  by (cases handler) (auto simp: dump_escaped_def split: if_splits)

end
