(* ===== verification/Json_Scan.thy ===== *)
theory Json_Scan
  imports Json Json_Escape
begin

text \<open>
  The scanner of the JSON library
  (\<open>externals/nlohmann_json/include/nlohmann/detail/input/lexer.hpp\<close>), without comments, as
  \<open>basic_json::parse\<close> is called by the program.  The input is the list of the bytes not yet read:
  \<open>get\<close> takes its head, the empty list is the end of the file, and a byte that was \<open>unget\<close>
  stays in it.  The positions and the texts of the error messages are left out.

  \<open>lex_env\<close> holds what the scanner asks of the locale and of the floating-point conversion of the C
  library: the decimal point that \<open>std::localeconv\<close> reports, and \<open>std::strtod\<close>, with None for
  an infinite result.

  The lemmas show that a string the scanner accepts is UTF-8, that every token takes input, and what the
  scanner makes of the texts the serializer writes.
\<close>

unbundle bit_operations_syntax

record lex_env =
  decimal_point :: char
  strtod :: "string \<Rightarrow> rat option"

datatype token =
    Tok_literal_true
  | Tok_literal_false
  | Tok_literal_null
  | Tok_string string
  | Tok_unsigned "64 word"
  | Tok_integer int
  | Tok_float "rat option"
  | Tok_begin_array
  | Tok_begin_object
  | Tok_end_array
  | Tok_end_object
  | Tok_name_separator
  | Tok_value_separator
  | Tok_parse_error
  | Tok_end_of_input

section \<open>Strings\<close>

text \<open>\<open>get_codepoint\<close>: four hexadecimal digits; None is the result \<open>-1\<close>.\<close>

fun get_hex :: "nat list \<Rightarrow> nat \<Rightarrow> string \<Rightarrow> (nat \<times> string) option" where
  "get_hex [] codepoint cs = Some (codepoint, cs)"
| "get_hex (factor # fs) codepoint [] = None"
| "get_hex (factor # fs) codepoint (c # cs) =
     (case hex_value c of None \<Rightarrow> None | Some v \<Rightarrow> get_hex fs (codepoint + push_bit factor v) cs)"

definition get_codepoint :: "string \<Rightarrow> (nat \<times> string) option" where
  "get_codepoint cs = get_hex [12, 8, 4, 0] 0 cs"

text \<open>The bytes of a code point.\<close>

definition encode_utf8 :: "nat \<Rightarrow> string" where
  "encode_utf8 n =
     (if n < 0x80 then [char_of n]
      else if n \<le> 0x7FF then [char_of (0xC0 OR drop_bit 6 n), char_of (0x80 OR (n AND 0x3F))]
      else if n \<le> 0xFFFF then
        [char_of (0xE0 OR drop_bit 12 n), char_of (0x80 OR (drop_bit 6 n AND 0x3F)), char_of (0x80 OR (n AND 0x3F))]
      else
        [char_of (0xF0 OR drop_bit 18 n), char_of (0x80 OR (drop_bit 12 n AND 0x3F)),
         char_of (0x80 OR (drop_bit 6 n AND 0x3F)), char_of (0x80 OR (n AND 0x3F))])"

text \<open>What follows \<open>\u\<close>: a code point, or the two halves of one.  The arithmetic on
  \<open>unsigned int\<close> does not wrap around here: the sum is at least the constant that is taken off.\<close>

definition scan_unicode :: "string \<Rightarrow> (string \<times> string) option" where
  "scan_unicode cs =
     (case get_codepoint cs of
        None \<Rightarrow> None
      | Some (cp1, cs) \<Rightarrow>
          (if 0xD800 \<le> cp1 \<and> cp1 \<le> 0xDBFF then
             (if take 2 cs = [CHR 0x5C, CHR ''u''] then
                (case get_codepoint (drop 2 cs) of
                   None \<Rightarrow> None
                 | Some (cp2, cs) \<Rightarrow>
                     (if 0xDC00 \<le> cp2 \<and> cp2 \<le> 0xDFFF
                      then Some (encode_utf8 (push_bit 10 cp1 + cp2 - 0x35FDC00), cs) else None))
              else None)
           else if 0xDC00 \<le> cp1 \<and> cp1 \<le> 0xDFFF then None
           else Some (encode_utf8 cp1, cs)))"

text \<open>What follows a backslash, with the bytes it stands for.\<close>

definition scan_escape :: "string \<Rightarrow> (string \<times> string) option" where
  "scan_escape cs =
     (case cs of
        [] \<Rightarrow> None
      | c # cs \<Rightarrow>
          (if c = CHR 0x22 then Some ([CHR 0x22], cs)
           else if c = CHR 0x5C then Some ([CHR 0x5C], cs)
           else if c = CHR ''/'' then Some (''/'', cs)
           else if c = CHR ''b'' then Some ([CHR 0x08], cs)
           else if c = CHR ''f'' then Some ([CHR 0x0C], cs)
           else if c = CHR ''n'' then Some ([CHR 0x0A], cs)
           else if c = CHR ''r'' then Some ([CHR 0x0D], cs)
           else if c = CHR ''t'' then Some ([CHR 0x09], cs)
           else if c = CHR ''u'' then scan_unicode cs
           else None))"

text \<open>\<open>next_byte_in_range\<close>: the bytes after the first one of a character.\<close>

fun next_byte_in_range :: "(nat \<times> nat) list \<Rightarrow> string \<Rightarrow> (string \<times> string) option" where
  "next_byte_in_range [] cs = Some ([], cs)"
| "next_byte_in_range (r # rs) [] = None"
| "next_byte_in_range ((lo, hi) # rs) (c # cs) =
     (if lo \<le> byte_of c \<and> byte_of c \<le> hi
      then map_option (\<lambda>(t, cs). (c # t, cs)) (next_byte_in_range rs cs) else None)"

lemma get_hex_length: "get_hex fs n cs = Some (m, cs') \<Longrightarrow> length cs' \<le> length cs"
  by (induction fs n cs rule: get_hex.induct) (auto split: option.splits)

lemma scan_escape_length: "scan_escape cs = Some (t, cs') \<Longrightarrow> length cs' < length cs"
  by (auto simp: scan_escape_def scan_unicode_def get_codepoint_def dest!: get_hex_length
      split: list.splits if_splits option.splits)

lemma next_byte_length: "next_byte_in_range rs cs = Some (t, cs') \<Longrightarrow> length cs' \<le> length cs"
  by (induction rs cs arbitrary: t rule: next_byte_in_range.induct) (fastforce split: if_splits)+

text \<open>\<open>scan_string\<close> after the opening quote: \<open>buf\<close> is \<open>token_buffer\<close>.  After an error
  nothing more is read.\<close>

function scan_string :: "string \<Rightarrow> string \<Rightarrow> token \<times> string" where
  "scan_string buf [] = (Tok_parse_error, [])"
| "scan_string buf (c # cs) =
     (if c = CHR 0x22 then (Tok_string buf, cs)
      else if c = CHR 0x5C then
        (case scan_escape cs of
           None \<Rightarrow> (Tok_parse_error, [])
         | Some (t, cs') \<Rightarrow> scan_string (buf @ t) cs')
      else if byte_of c \<le> 0x1F then (Tok_parse_error, [])
      else
        (case follow_ranges (byte_of c) of
           None \<Rightarrow> (Tok_parse_error, [])
         | Some rs \<Rightarrow>
             (case next_byte_in_range rs cs of
                None \<Rightarrow> (Tok_parse_error, [])
              | Some (t, cs') \<Rightarrow> scan_string (buf @ c # t) cs')))"
  by pat_completeness auto
termination
  by (relation "measure (\<lambda>(_, cs). length cs)")
    (auto dest: scan_escape_length next_byte_length simp: less_Suc_eq_le less_imp_le)

section \<open>Numbers\<close>

text \<open>The labels of \<open>scan_number\<close>, and its variable \<open>number_type\<close>.\<close>

datatype number_state =
  Num_minus | Num_zero | Num_any1 | Num_decimal1 | Num_decimal2 | Num_exponent | Num_sign | Num_any2

datatype number_type = Type_unsigned | Type_integer | Type_float

definition decimal_digit :: "char \<Rightarrow> bool" where
  "decimal_digit c \<longleftrightarrow> CHR ''0'' \<le> c \<and> c \<le> CHR ''9''"

text \<open>Where a byte leads; None is the branch \<open>default\<close>.\<close>

definition number_next :: "number_state \<Rightarrow> char \<Rightarrow> number_state option" where
  "number_next st c =
     (case st of
        Num_minus \<Rightarrow>
          if c = CHR ''0'' then Some Num_zero else if decimal_digit c then Some Num_any1 else None
      | Num_zero \<Rightarrow>
          if c = CHR ''.'' then Some Num_decimal1
          else if c = CHR ''e'' \<or> c = CHR ''E'' then Some Num_exponent else None
      | Num_any1 \<Rightarrow>
          if decimal_digit c then Some Num_any1
          else if c = CHR ''.'' then Some Num_decimal1
          else if c = CHR ''e'' \<or> c = CHR ''E'' then Some Num_exponent else None
      | Num_decimal1 \<Rightarrow> if decimal_digit c then Some Num_decimal2 else None
      | Num_decimal2 \<Rightarrow>
          if decimal_digit c then Some Num_decimal2
          else if c = CHR ''e'' \<or> c = CHR ''E'' then Some Num_exponent else None
      | Num_exponent \<Rightarrow>
          if c = CHR ''+'' \<or> c = CHR ''-'' then Some Num_sign
          else if decimal_digit c then Some Num_any2 else None
      | Num_sign \<Rightarrow> if decimal_digit c then Some Num_any2 else None
      | Num_any2 \<Rightarrow> if decimal_digit c then Some Num_any2 else None)"

text \<open>Whether the branch \<open>default\<close> is the end of the number, or an error.\<close>

definition number_ends :: "number_state \<Rightarrow> bool" where
  "number_ends st \<longleftrightarrow> st \<in> {Num_zero, Num_any1, Num_decimal2, Num_any2}"

text \<open>The assignment to \<open>number_type\<close> at a label.\<close>

definition number_type :: "number_state \<Rightarrow> number_type \<Rightarrow> number_type" where
  "number_type st ty =
     (case st of Num_minus \<Rightarrow> Type_integer | Num_decimal1 \<Rightarrow> Type_float | Num_exponent \<Rightarrow> Type_float | _ \<Rightarrow> ty)"

fun scan_digits :: "char \<Rightarrow> number_state \<Rightarrow> number_type \<Rightarrow> string \<Rightarrow> string \<Rightarrow> (number_type \<times> string \<times> string) option" where
  "scan_digits point st ty buf [] = (if number_ends st then Some (ty, buf, []) else None)"
| "scan_digits point st ty buf (c # cs) =
     (case number_next st c of
        Some st' \<Rightarrow> scan_digits point st' (number_type st' ty) (buf @ [if c = CHR ''.'' then point else c]) cs
      | None \<Rightarrow> if number_ends st then Some (ty, buf, c # cs) else None)"

text \<open>\<open>scan_number_done\<close>: an integer that does not fit its 64 bits becomes a floating-point
  number.\<close>

definition number_done :: "lex_env \<Rightarrow> number_type \<Rightarrow> string \<Rightarrow> token" where
  "number_done env ty buf =
     (if ty = Type_unsigned \<and> number 10 buf < 2 ^ 64 then Tok_unsigned (of_nat (number 10 buf))
      else if ty = Type_integer \<and> number 10 (tl buf) \<le> 2 ^ 63 then Tok_integer (- int (number 10 (tl buf)))
      else Tok_float (strtod env buf))"

text \<open>\<open>scan_number\<close> after its first byte.\<close>

definition scan_number :: "lex_env \<Rightarrow> char \<Rightarrow> string \<Rightarrow> token \<times> string" where
  "scan_number env c cs =
     (let st = (if c = CHR ''-'' then Num_minus else if c = CHR ''0'' then Num_zero else Num_any1) in
      case scan_digits (decimal_point env) st (number_type st Type_unsigned) [c] cs of
        None \<Rightarrow> (Tok_parse_error, [])
      | Some (ty, buf, cs) \<Rightarrow> (number_done env ty buf, cs))"

section \<open>Tokens\<close>

fun scan_literal :: "string \<Rightarrow> token \<Rightarrow> string \<Rightarrow> token \<times> string" where
  "scan_literal [] tok cs = (tok, cs)"
| "scan_literal (l # ls) tok [] = (Tok_parse_error, [])"
| "scan_literal (l # ls) tok (c # cs) = (if c = l then scan_literal ls tok cs else (Tok_parse_error, []))"

definition json_space :: "char \<Rightarrow> bool" where
  "json_space c \<longleftrightarrow> c = CHR '' '' \<or> c = CHR 0x09 \<or> c = CHR 0x0A \<or> c = CHR 0x0D"

definition skip_bom :: "string \<Rightarrow> string option" where
  "skip_bom cs =
     (if take 1 cs = [CHR 0xEF] then
        (if take 2 (drop 1 cs) = [CHR 0xBB, CHR 0xBF] then Some (drop 3 cs) else None)
      else Some cs)"

text \<open>\<open>scan\<close> past the mark, and its first call, which looks for it.\<close>

definition scan :: "lex_env \<Rightarrow> string \<Rightarrow> token \<times> string" where
  "scan env cs =
     (case dropWhile json_space cs of
        [] \<Rightarrow> (Tok_end_of_input, [])
      | c # cs \<Rightarrow>
          (if c = CHR ''['' then (Tok_begin_array, cs)
           else if c = CHR '']'' then (Tok_end_array, cs)
           else if c = CHR ''{'' then (Tok_begin_object, cs)
           else if c = CHR ''}'' then (Tok_end_object, cs)
           else if c = CHR '':'' then (Tok_name_separator, cs)
           else if c = CHR '','' then (Tok_value_separator, cs)
           else if c = CHR ''t'' then scan_literal ''rue'' Tok_literal_true cs
           else if c = CHR ''f'' then scan_literal ''alse'' Tok_literal_false cs
           else if c = CHR ''n'' then scan_literal ''ull'' Tok_literal_null cs
           else if c = CHR 0x22 then scan_string [] cs
           else if c = CHR ''-'' \<or> decimal_digit c then scan_number env c cs
           else if c = CHR 0x00 then (Tok_end_of_input, cs)
           else (Tok_parse_error, [])))"

definition scan_first :: "lex_env \<Rightarrow> string \<Rightarrow> token \<times> string" where
  "scan_first env cs = (case skip_bom cs of None \<Rightarrow> (Tok_parse_error, []) | Some cs \<Rightarrow> scan env cs)"

section \<open>Every token takes input\<close>

definition tok_weight :: "token \<Rightarrow> nat" where
  "tok_weight tok = (if tok = Tok_end_of_input \<or> tok = Tok_parse_error then 0 else 1)"

lemma tok_weight_le: "tok_weight tok \<le> 1"
  by (simp add: tok_weight_def)

lemma scan_string_length: "length (snd (scan_string buf cs)) \<le> length cs"
  by (induction buf cs rule: scan_string.induct)
    (fastforce dest: scan_escape_length next_byte_length split: option.splits)+

lemma scan_digits_length: "scan_digits point st ty buf cs = Some (ty', buf', cs') \<Longrightarrow> length cs' \<le> length cs"
  by (induction point st ty buf cs rule: scan_digits.induct) (force split: option.splits if_splits)+

lemma scan_literal_length: "length (snd (scan_literal ls tok cs)) \<le> length cs"
  by (induction ls tok cs rule: scan_literal.induct) auto

lemma scan_number_length: "length (snd (scan_number env c cs)) \<le> length cs"
  by (auto simp: scan_number_def Let_def dest: scan_digits_length split: option.splits)

lemma scan_length:
  assumes "scan env cs = (tok, cs')"
  shows "length cs' + tok_weight tok \<le> length cs"
proof (cases "dropWhile json_space cs")
  case Nil
  show ?thesis using assms unfolding scan_def Nil by (auto simp: tok_weight_def)
next
  case (Cons c r)
  have "length (c # r) \<le> length cs" using length_dropWhile_le [of json_space cs] Cons by simp
  moreover have "length cs' \<le> length r"
    using assms Cons scan_string_length [of "[]" r] scan_number_length [of env c r]
      scan_literal_length [of "''rue''" Tok_literal_true r] scan_literal_length [of "''alse''" Tok_literal_false r]
      scan_literal_length [of "''ull''" Tok_literal_null r]
    by (simp add: scan_def split: if_splits)
  ultimately show ?thesis using tok_weight_le [of tok] by simp
qed

section \<open>A string is UTF-8\<close>

lemma or_low: "m < 2 ^ k \<Longrightarrow> push_bit k d OR m = push_bit k d + m" for m d :: nat
proof -
  assume "m < 2 ^ k"
  then have "take_bit k m = m" by (simp add: take_bit_nat_eq_self_iff)
  moreover have "push_bit k d AND take_bit k m = 0" by (rule bit_eqI) (auto simp: bit_simps)
  ultimately show ?thesis by (simp add: disjunctive_add_eq_or)
qed

lemma utf8_bytes:
  "0x80 OR (m AND 0x3F) = 0x80 + m mod 64"
  "m < 32 \<Longrightarrow> 0xC0 OR m = 0xC0 + m"
  "m < 16 \<Longrightarrow> 0xE0 OR m = 0xE0 + m"
  "m < 8 \<Longrightarrow> 0xF0 OR m = 0xF0 + m" for m :: nat
proof -
  have "m AND 0x3F = m mod 64" using take_bit_eq_mask [of 6 m] by (simp add: take_bit_eq_mod mask_eq_exp_minus_1)
  then show "0x80 OR (m AND 0x3F) = 0x80 + m mod 64" using or_low [of "m mod 64" 6 2] by (simp add: push_bit_eq_mult)
  show "m < 32 \<Longrightarrow> 0xC0 OR m = 0xC0 + m" using or_low [of m 5 6] by (simp add: push_bit_eq_mult)
  show "m < 16 \<Longrightarrow> 0xE0 OR m = 0xE0 + m" using or_low [of m 4 14] by (simp add: push_bit_eq_mult)
  show "m < 8 \<Longrightarrow> 0xF0 OR m = 0xF0 + m" using or_low [of m 3 30] by (simp add: push_bit_eq_mult)
qed

lemma follow_three:
  assumes "a < 16"
  shows "follow_ranges (0xE0 + a) = Some [(if a = 0 then 0xA0 else 0x80, if a = 13 then 0x9F else 0xBF), (0x80, 0xBF)]"
proof -
  have "a \<in> {0, 1, 2, 3, 4, 5, 6, 7, 8, 9, 10, 11, 12, 13, 14, 15}" using below_16 [OF assms] by simp
  then show ?thesis by (elim insertE emptyE) (simp_all add: follow_ranges_def)
qed

lemma follow_four:
  assumes "a < 5"
  shows "follow_ranges (0xF0 + a) =
    Some [(if a = 0 then 0x90 else 0x80, if a = 4 then 0x8F else 0xBF), (0x80, 0xBF), (0x80, 0xBF)]"
proof -
  have "a \<in> {0, 1, 2, 3, 4}" using assms by (simp, arith)
  then show ?thesis by (elim insertE emptyE) (simp_all add: follow_ranges_def)
qed

lemma utf8_three:
  fixes a b c :: nat
  assumes "a < 16" and "b < 64" and "c < 64" and "a = 0 \<longrightarrow> 32 \<le> b" and "a = 13 \<longrightarrow> b < 32"
  shows "utf8 [char_of (0xE0 + a), char_of (0x80 + b), char_of (0x80 + c)]"
  using assms by (auto simp: utf8_def follow_three)

lemma utf8_four:
  fixes a b c d :: nat
  assumes "a < 5" and "b < 64" and "c < 64" and "d < 64" and "a = 0 \<longrightarrow> 16 \<le> b" and "a = 4 \<longrightarrow> b < 16"
  shows "utf8 [char_of (0xF0 + a), char_of (0x80 + b), char_of (0x80 + c), char_of (0x80 + d)]"
  using assms by (auto simp: utf8_def follow_four)

lemma utf8_encode:
  assumes "n < 0x110000" and "\<not> (0xD800 \<le> n \<and> n \<le> 0xDFFF)"
  shows "utf8 (encode_utf8 n)"
proof -
  consider "n < 0x80" | "0x80 \<le> n" "n \<le> 0x7FF" | "0x7FF < n" "n \<le> 0xFFFF" | "0xFFFF < n" by linarith
  then show ?thesis
  proof cases
    case 1
    then show ?thesis by (simp add: encode_utf8_def utf8_def follow_ranges_def)
  next
    case 2
    then have "n div 64 < 32" "2 \<le> n div 64" by (simp_all add: div_less_iff_less_mult less_eq_div_iff_mult_less_eq)
    then show ?thesis using 2
      by (simp add: encode_utf8_def utf8_def follow_ranges_def drop_bit_eq_div utf8_bytes)
  next
    case 3
    let ?a = "n div 4096" and ?b = "n div 64 mod 64"
    have n: "n div 64 = 64 * ?a + ?b" using mult_div_mod_eq [of 64 "n div 64"] by (simp add: div_mult2_eq [symmetric])
    have "32 \<le> n div 64" "n div 64 < 1024" "n div 64 < 864 \<or> 896 \<le> n div 64"
      using 3 assms(2) by (simp_all add: div_less_iff_less_mult less_eq_div_iff_mult_less_eq) arith
    moreover have "?b < 64" by simp
    ultimately have "?a < 16" "?a = 0 \<longrightarrow> 32 \<le> ?b" "?a = 13 \<longrightarrow> ?b < 32" using n by linarith+
    then show ?thesis using 3
      by (simp add: encode_utf8_def drop_bit_eq_div utf8_bytes utf8_three)
  next
    case 4
    let ?a = "n div 262144" and ?b = "n div 4096 mod 64"
    have n: "n div 4096 = 64 * ?a + ?b" using mult_div_mod_eq [of 64 "n div 4096"] by (simp add: div_mult2_eq [symmetric])
    have "16 \<le> n div 4096" "n div 4096 < 272"
      using 4 assms(1) by (simp_all add: div_less_iff_less_mult less_eq_div_iff_mult_less_eq)
    moreover have "?b < 64" by simp
    ultimately have "?a < 5" "?a = 0 \<longrightarrow> 16 \<le> ?b" "?a = 4 \<longrightarrow> ?b < 16" using n by linarith+
    then show ?thesis using 4
      by (simp add: encode_utf8_def drop_bit_eq_div utf8_bytes utf8_four)
  qed
qed

lemma utf8_from_append: "utf8_from rs s \<Longrightarrow> utf8_from rs (s @ t) = utf8_from [] t"
  by (induction rs s rule: utf8_from.induct) (auto split: option.splits)

lemma utf8_append: "utf8 s \<Longrightarrow> utf8 t \<Longrightarrow> utf8 (s @ t)"
  by (simp add: utf8_def utf8_from_append)

lemma next_byte_utf8: "next_byte_in_range rs cs = Some (t, cs') \<Longrightarrow> utf8_from rs t \<and> cs = t @ cs'"
  by (induction rs cs arbitrary: t rule: next_byte_in_range.induct) (fastforce split: if_splits)+

lemma hex_value_less: "hex_value c = Some v \<Longrightarrow> v \<le> 15"
  by (auto simp: hex_value_def Let_def split: if_splits)

lemma get_hex_le: "get_hex fs n cs = Some (m, r) \<Longrightarrow> m \<le> n + sum_list (map (\<lambda>f. 2 ^ f * 15) fs)"
proof (induction fs n cs rule: get_hex.induct)
  case (3 f fs n c cs)
  then obtain v where v: "hex_value c = Some v" by (auto split: option.splits)
  then have "push_bit f v \<le> 2 ^ f * 15" using hex_value_less by (simp add: push_bit_eq_mult mult.commute)
  moreover have "m \<le> n + push_bit f v + sum_list (map (\<lambda>f. 2 ^ f * 15) fs)" using 3 v by simp
  ultimately show ?case by simp
qed simp_all

lemma get_codepoint_less: "get_codepoint cs = Some (n, r) \<Longrightarrow> n < 0x10000"
  by (auto simp: get_codepoint_def dest!: get_hex_le)

lemma utf8_single: "byte_of c \<le> 0x7F \<Longrightarrow> utf8 [c]"
  by (simp add: utf8_def follow_ranges_def)

lemma scan_unicode_utf8: "scan_unicode cs = Some (t, r) \<Longrightarrow> utf8 t"
proof -
  assume t: "scan_unicode cs = Some (t, r)"
  then obtain cp1 r1 where 1: "get_codepoint cs = Some (cp1, r1)" by (auto simp: scan_unicode_def split: option.splits)
  show "utf8 t"
  proof (cases "0xD800 \<le> cp1 \<and> cp1 \<le> 0xDBFF")
    case True
    with t 1 obtain cp2 where 2: "0xDC00 \<le> cp2" "cp2 \<le> 0xDFFF" "t = encode_utf8 (push_bit 10 cp1 + cp2 - 0x35FDC00)"
      by (auto simp: scan_unicode_def split: option.splits if_splits)
    show ?thesis unfolding 2(3) using True 2(1,2) by (intro utf8_encode) (simp_all add: push_bit_eq_mult, arith+)
  next
    case False
    with t 1 show ?thesis using get_codepoint_less [OF 1]
      by (auto simp: scan_unicode_def split: if_splits intro!: utf8_encode)
  qed
qed

lemma scan_escape_utf8: "scan_escape cs = Some (t, r) \<Longrightarrow> utf8 t"
  by (auto simp: scan_escape_def byte_of_def intro: utf8_single scan_unicode_utf8 split: list.splits if_splits)

lemma scan_string_utf8: "scan_string buf cs = (Tok_string s, r) \<Longrightarrow> utf8 buf \<Longrightarrow> utf8 s"
proof (induction buf cs rule: scan_string.induct)
  case (2 buf c cs)
  consider "c = CHR 0x22" | t cs' where "c = CHR 0x5C" "scan_escape cs = Some (t, cs')"
    | rs t cs' where "c \<noteq> CHR 0x22" "c \<noteq> CHR 0x5C" "\<not> byte_of c \<le> 0x1F" "follow_ranges (byte_of c) = Some rs" "next_byte_in_range rs cs = Some (t, cs')"
    using 2(3) by (auto split: if_splits option.splits)
  then show ?case
  proof cases
    case 1
    then show ?thesis using 2(3,4) by simp
  next
    case (2 t cs')
    then show ?thesis using "2.prems" "2.IH"(1) [of "(t, cs')"] utf8_append scan_escape_utf8 by simp
  next
    case (3 rs t cs')
    have "utf8 (c # t)" using 3(4) next_byte_utf8 [OF 3(5)] by (simp add: utf8_def)
    then show ?thesis using 3 "2.prems" "2.IH"(2) [of rs "(t, cs')"] utf8_append by simp
  qed
qed simp

section \<open>Reading back an escaped string\<close>

lemma byte_of_eq: "n < 256 \<Longrightarrow> byte_of c = n \<longleftrightarrow> c = char_of n"
  by (auto simp: byte_of_def)

lemma get_codepoint_escape:
  assumes "b < 256"
  shows "get_codepoint (''00'' @ hex_digit (b div 16) # hex_digit (b mod 16) # r) = Some (b, r)"
proof -
  have "b div 16 < 16" "b mod 16 < 16" using assms by (simp_all add: div_less_iff_less_mult)
  then show ?thesis
    using hex_digit_simps(1) [of 0] by (simp add: get_codepoint_def hex_digit_simps push_bit_eq_mult hex_digit_def [of 0])
qed

lemma scan_escaped_char:
  assumes "byte_of c \<le> 0x7F"
  shows "scan_string buf (json_escape c @ r) = scan_string (buf @ [c]) r"
proof -
  consider "byte_of c \<in> {0x08, 0x09, 0x0A, 0x0C, 0x0D, 0x22, 0x5C}"
    | "byte_of c \<le> 0x1F"
      "json_escape c = CHR 0x5C # CHR ''u'' # ''00'' @ [hex_digit (byte_of c div 16), hex_digit (byte_of c mod 16)]"
    | "0x20 \<le> byte_of c" "byte_of c \<noteq> 0x22" "byte_of c \<noteq> 0x5C" "json_escape c = [c]"
    by (cases "byte_of c \<in> {0x08, 0x09, 0x0A, 0x0C, 0x0D, 0x22, 0x5C}"; cases "byte_of c \<le> 0x1F")
      (auto simp: json_escape_def)
  then show ?thesis
  proof cases
    case 1
    then have "c \<in> {CHR 0x08, CHR 0x09, CHR 0x0A, CHR 0x0C, CHR 0x0D, CHR 0x22, CHR 0x5C}"
      by (elim insertE emptyE) (simp_all add: byte_of_eq char_of_eq_iff)
    then show ?thesis
      by (elim insertE emptyE) (simp_all add: json_escape_def byte_of_def scan_escape_def)
  next
    case 2
    have "scan_unicode (''00'' @ hex_digit (byte_of c div 16) # hex_digit (byte_of c mod 16) # r) = Some ([c], r)"
      using get_codepoint_escape [of "byte_of c" r] 2(1)
      by (simp add: scan_unicode_def encode_utf8_def) (simp add: byte_of_def)
    then show ?thesis unfolding 2(2) by (simp add: scan_escape_def)
  next
    case 3
    moreover from this have "c \<noteq> CHR 0x22" "c \<noteq> CHR 0x5C" by (auto simp: byte_of_def)
    ultimately show ?thesis using assms by (simp add: follow_ranges_def)
  qed
qed

text \<open>A character of several bytes is read as it stands.\<close>

lemma follow_ranges_high: "follow_ranges b = Some rs \<Longrightarrow> \<forall>(lo, hi) \<in> set rs. 0x80 \<le> lo"
  by (auto simp: follow_ranges_def split: if_splits)

lemma split_bytes:
  "utf8_from rs s \<Longrightarrow> \<forall>(lo, hi) \<in> set rs. 0x80 \<le> lo \<Longrightarrow>
   \<exists>t s'. s = t @ s' \<and> utf8 s' \<and> concat (map json_escape t) = t \<and> (\<forall>r. next_byte_in_range rs (t @ r) = Some (t, r))"
proof (induction rs arbitrary: s)
  case Nil
  then show ?case by (intro exI [of _ "[]"] exI [of _ s]) (simp add: utf8_def)
next
  case (Cons rg rs)
  obtain lo hi where rg: "rg = (lo, hi)" by force
  with Cons.prems(1) obtain c s1 where s: "s = c # s1" "lo \<le> byte_of c" "byte_of c \<le> hi" "utf8_from rs s1"
    by (cases s) auto
  from Cons.IH [OF s(4)] Cons.prems(2) obtain t s' where
    t: "s1 = t @ s'" "utf8 s'" "concat (map json_escape t) = t" "\<forall>r. next_byte_in_range rs (t @ r) = Some (t, r)" by auto
  have "json_escape c = [c]" using Cons.prems(2) rg s(2) by (intro json_escape_high) simp
  then show ?case using s t rg by (intro exI [of _ "c # t"] exI [of _ s']) simp
qed

lemma scan_string_escaped:
  "utf8 s \<Longrightarrow> scan_string buf (concat (map json_escape s) @ CHR 0x22 # r) = (Tok_string (buf @ s), r)"
proof (induction s arbitrary: buf rule: length_induct)
  case (1 s)
  show ?case
  proof (cases s)
    case (Cons c s1)
    with 1(2) obtain rs where rs: "follow_ranges (byte_of c) = Some rs" "utf8_from rs s1"
      by (auto simp: utf8_def split: option.splits)
    show ?thesis
    proof (cases "byte_of c \<le> 0x7F")
      case True
      then have "utf8 s1" using rs by (simp add: follow_ranges_def utf8_def)
      then show ?thesis using 1(1) Cons True by (simp add: scan_escaped_char)
    next
      case False
      from split_bytes [OF rs(2) follow_ranges_high [OF rs(1)]] obtain t s' where
        t: "s1 = t @ s'" "utf8 s'" "concat (map json_escape t) = t" "\<forall>r. next_byte_in_range rs (t @ r) = Some (t, r)" by blast
      have "c \<noteq> CHR 0x22" "c \<noteq> CHR 0x5C" using False by (auto simp: byte_of_def)
      then have "scan_string buf (c # t @ r') = scan_string (buf @ c # t) r'" for r'
        using False rs(1) t(4) by simp
      then show ?thesis using 1(1) [rule_format, of s' "buf @ c # t"] t False Cons json_escape_high [of c] by simp
    qed
  qed simp
qed

section \<open>Reading back a number\<close>

lemma hex_digit_decimal:
  assumes "k < 10"
  shows "decimal_digit (hex_digit k) \<and> hex_digit k \<noteq> CHR ''.'' \<and> digit_value 10 (hex_digit k) = Some k \<and>
    (hex_digit k = CHR ''0'' \<longleftrightarrow> k = 0)"
proof -
  have "k \<in> {0, 1, 2, 3, 4, 5, 6, 7, 8, 9}" using assms by (simp, arith)
  then show ?thesis
    by (elim insertE emptyE)
      (simp_all add: hex_digit_def decimal_digit_def digit_value_def hex_value_def less_eq_char_def)
qed

lemma number_append: "number b (s @ [c]) = b * number b s + the (digit_value b c)"
  by (simp add: number_def)

lemma to_string_number: "number 10 (to_string n) = n"
proof (induction n rule: to_string.induct)
  case (1 n)
  show ?case
  proof (cases "n < 10")
    case True
    then show ?thesis
      using hex_digit_decimal [of n] number_append [of 10 "[]" "hex_digit n"] by (subst to_string.simps) (simp add: number_def)
  next
    case False
    then show ?thesis
      using 1 hex_digit_decimal [of "n mod 10"] by (subst to_string.simps) (simp add: number_append)
  qed
qed

lemma to_string_digits: "\<forall>c \<in> set (to_string n). decimal_digit c \<and> c \<noteq> CHR ''.''"
proof (induction n rule: to_string.induct)
  case (1 n)
  then show ?case
    using hex_digit_decimal [of n] hex_digit_decimal [of "n mod 10"] by (subst to_string.simps) auto
qed

lemma to_string_head: "\<exists>c t. to_string n = c # t \<and> decimal_digit c \<and> (c = CHR ''0'' \<longleftrightarrow> n = 0) \<and> (n = 0 \<longrightarrow> t = [])"
proof (induction n rule: to_string.induct)
  case (1 n)
  show ?case
  proof (cases "n < 10")
    case True
    then show ?thesis using hex_digit_decimal [of n] by (subst to_string.simps) simp
  next
    case False
    then obtain c t where "to_string (n div 10) = c # t" "decimal_digit c" "c \<noteq> CHR ''0''"
      using 1 by (auto simp: div_greater_zero_iff)
    then show ?thesis using False by (subst to_string.simps) simp
  qed
qed

text \<open>What follows a value in a text: nothing, or the next token of an array or object.\<close>

definition value_ends :: "string \<Rightarrow> bool" where
  "value_ends r \<longleftrightarrow> r = [] \<or> hd r \<in> {CHR '','', CHR '']'', CHR ''}''}"

lemma scan_digits_any1:
  assumes "value_ends r"
  shows "\<forall>c \<in> set ds. decimal_digit c \<and> c \<noteq> CHR ''.'' \<Longrightarrow> scan_digits point Num_any1 ty buf (ds @ r) = Some (ty, buf @ ds, r)"
proof (induction ds arbitrary: buf)
  case Nil
  show ?case
    using assms by (cases r) (auto simp: number_ends_def number_next_def value_ends_def decimal_digit_def less_eq_char_def)
next
  case (Cons d ds)
  then show ?case by (simp add: number_next_def number_type_def)
qed

lemma scan_digits_zero:
  assumes "value_ends r"
  shows "scan_digits point Num_zero ty buf r = Some (ty, buf, r)"
  using assms by (cases r) (auto simp: number_ends_def number_next_def value_ends_def)

text \<open>The digits of a number from its first one on.\<close>

lemma scan_digits_to_string:
  assumes "value_ends r"
  obtains c t where "to_string n = c # t" "decimal_digit c" "c \<noteq> CHR ''-''"
    "\<And>buf ty. scan_digits point (if c = CHR ''0'' then Num_zero else Num_any1) ty buf (t @ r) = Some (ty, buf @ t, r)"
proof -
  obtain c t where c: "to_string n = c # t" "decimal_digit c" "c = CHR ''0'' \<longleftrightarrow> n = 0" "n = 0 \<longrightarrow> t = []"
    using to_string_head by blast
  have "c \<noteq> CHR ''-''" using c(2) by (auto simp: decimal_digit_def less_eq_char_def)
  moreover have "scan_digits point (if c = CHR ''0'' then Num_zero else Num_any1) ty buf (t @ r) = Some (ty, buf @ t, r)" for buf ty
    using c to_string_digits [of n] scan_digits_zero [OF assms] scan_digits_any1 [OF assms, of t point ty buf] by auto
  ultimately show ?thesis using c that by blast
qed


lemma scan_punctuation:
  "scan env (CHR ''['' # cs) = (Tok_begin_array, cs)" "scan env (CHR '']'' # cs) = (Tok_end_array, cs)"
  "scan env (CHR ''{'' # cs) = (Tok_begin_object, cs)" "scan env (CHR ''}'' # cs) = (Tok_end_object, cs)"
  "scan env (CHR '':'' # cs) = (Tok_name_separator, cs)" "scan env (CHR '','' # cs) = (Tok_value_separator, cs)"
  "scan env [] = (Tok_end_of_input, [])"
  by (simp_all add: scan_def json_space_def)

lemma scan_literals:
  "scan env (''true'' @ r) = (Tok_literal_true, r)" "scan env (''false'' @ r) = (Tok_literal_false, r)"
  "scan env (''null'' @ r) = (Tok_literal_null, r)"
  by (simp_all add: scan_def json_space_def)

lemma scan_quote: "scan env (CHR 0x22 # cs) = scan_string [] cs"
  by (simp add: scan_def json_space_def)

lemma scan_minus: "scan env (CHR ''-'' # cs) = scan_number env CHR ''-'' cs"
  by (simp add: scan_def json_space_def)

lemma scan_decimal:
  assumes "decimal_digit c"
  shows "scan env (c # cs) = scan_number env c cs"
proof -
  have "c \<notin> set ('' []{}:,tfn'' @ [CHR 0x09, CHR 0x0A, CHR 0x0D, CHR 0x22])"
    using assms by (auto simp: decimal_digit_def less_eq_char_def)
  then show ?thesis using assms by (simp add: scan_def json_space_def)
qed

lemma scan_unsigned:
  assumes "value_ends r"
  shows "scan env (to_string (unat w) @ r) = (Tok_unsigned w, r)"
proof -
  obtain c t where t: "to_string (unat w) = c # t" "decimal_digit c" "c \<noteq> CHR ''-''"
    "\<And>buf ty. scan_digits (decimal_point env) (if c = CHR ''0'' then Num_zero else Num_any1) ty buf (t @ r) = Some (ty, buf @ t, r)"
    using scan_digits_to_string [OF assms] by metis
  have "number 10 (c # t) < 2 ^ 64" using to_string_number [of "unat w"] unsigned_less [of w] t(1) by simp
  moreover have "of_nat (number 10 (c # t)) = w" using to_string_number [of "unat w"] t(1) by simp
  ultimately show ?thesis
    using t by (simp add: scan_decimal scan_number_def Let_def number_type_def number_done_def)
qed

lemma scan_negative:
  assumes "value_ends r" and "m \<le> 2 ^ 63"
  shows "scan env (CHR ''-'' # to_string m @ r) = (Tok_integer (- int m), r)"
proof -
  obtain c t where t: "to_string m = c # t" "decimal_digit c" "c \<noteq> CHR ''-''"
    "\<And>buf ty. scan_digits (decimal_point env) (if c = CHR ''0'' then Num_zero else Num_any1) ty buf (t @ r) = Some (ty, buf @ t, r)"
    using scan_digits_to_string [OF assms(1)] by metis
  have "c \<noteq> CHR ''.''" using t(2) by (auto simp: decimal_digit_def less_eq_char_def)
  moreover have "number_next Num_minus c = Some (if c = CHR ''0'' then Num_zero else Num_any1)"
    using t(2) by (simp add: number_next_def)
  ultimately have "scan_digits (decimal_point env) Num_minus Type_integer [CHR ''-''] (c # t @ r) = Some (Type_integer, CHR ''-'' # c # t, r)"
    using t(4) by (simp add: number_type_def)
  moreover have "number 10 (c # t) = m" using to_string_number [of m] t(1) by simp
  ultimately show ?thesis
    using t(1) assms(2)
    by (simp add: scan_minus scan_number_def Let_def number_type_def number_done_def del: scan_digits.simps)
qed

lemma scan_quoted: "utf8 s \<Longrightarrow> scan env (CHR 0x22 # concat (map json_escape s) @ CHR 0x22 # r) = (Tok_string s, r)"
  by (simp add: scan_quote scan_string_escaped)

text \<open>The strings and integers of the tokens are what a value may hold.\<close>

definition token_ok :: "token \<Rightarrow> bool" where
  "token_ok tok =
     (case tok of
        Tok_string s \<Rightarrow> utf8 s
      | Tok_integer n \<Rightarrow> - (2 ^ 63) \<le> n \<and> n \<le> 0
      | _ \<Rightarrow> True)"

lemma token_ok_simps [simp]:
  "token_ok Tok_literal_true" "token_ok Tok_literal_false" "token_ok Tok_literal_null"
  "token_ok Tok_begin_array" "token_ok Tok_end_array" "token_ok Tok_begin_object" "token_ok Tok_end_object"
  "token_ok Tok_name_separator" "token_ok Tok_value_separator" "token_ok Tok_parse_error" "token_ok Tok_end_of_input"
  by (simp_all add: token_ok_def)

lemma number_done_ok: "token_ok (number_done env ty buf)"
proof -
  have "number 10 (tl buf) \<le> 2 ^ 63 \<longleftrightarrow> int (number 10 (tl buf)) \<le> 2 ^ 63" by simp
  then show ?thesis by (auto simp: token_ok_def number_done_def)
qed

lemma scan_literal_cases: "fst (scan_literal ls tok cs) \<in> {tok, Tok_parse_error}"
  by (induction ls tok cs rule: scan_literal.induct) auto

lemma scan_string_cases: "fst (scan_string buf cs) = Tok_parse_error \<or> (\<exists>s. fst (scan_string buf cs) = Tok_string s)"
  by (induction buf cs rule: scan_string.induct) (auto split: option.splits)

lemma scan_ok: "token_ok (fst (scan env cs))"
proof (cases "dropWhile json_space cs")
  case Nil
  show ?thesis unfolding scan_def Nil by (simp add: token_ok_def)
next
  case (Cons c r)
  have "token_ok (fst (scan_string [] r))"
    using scan_string_utf8 [of "[]" r] scan_string_cases [of "[]" r]
    by (cases "scan_string [] r") (auto simp: token_ok_def utf8_def)
  moreover have "token_ok (fst (scan_number env c r))"
    by (auto simp: scan_number_def Let_def number_done_ok split: option.splits)
  moreover have "token_ok (fst (scan_literal ls tok r))" if "token_ok tok" for ls tok
    using scan_literal_cases [of ls tok r] that by (auto simp: token_ok_def)
  ultimately show ?thesis
    unfolding scan_def Cons list.case if_distrib [of fst] if_distrib [of token_ok] fst_conv
    by (simp del: scan_literal.simps)
qed


end
