(* ===== verification/Json_Dump.thy ===== *)
theory Json_Dump
  imports Json Json_Escape
begin

text \<open>
  The serializer of the JSON library
  (\<open>externals/nlohmann_json/include/nlohmann/detail/output/serializer.hpp\<close>), as
  \<open>basic_json::dump\<close> calls it without arguments: no indentation, nothing escaped that need not be,
  wrong UTF-8 refused.

  What a number is written as does not depend on the buffer of the previous one and is its decimal
  representation; a value is written exactly when its strings and keys are UTF-8, and otherwise the
  call fails with a type error.
\<close>

section \<open>Numbers\<close>

text \<open>The number of decimal digits, four at a time.\<close>

fun count_digits :: "nat \<Rightarrow> nat" where
  "count_digits x =
     (if x < 10 then 1
      else if x < 100 then 2
      else if x < 1000 then 3
      else if x < 10000 then 4
      else count_digits (x div 10000) + 4)"

declare count_digits.simps [simp del]

text \<open>The table \<open>digits_to_99\<close>.\<close>

definition digits_to_99 :: "nat \<Rightarrow> char \<times> char" where
  "digits_to_99 i = (hex_digit (i div 10), hex_digit (i mod 10))"

text \<open>The digits go backwards into the buffer, two at a time, below the position \<open>p\<close>.\<close>

definition put_char :: "nat \<Rightarrow> char \<Rightarrow> string \<Rightarrow> string outcome" where
  "put_char p c buf = (if p < length buf then Inr (buf[p := c]) else Inl UB)"

definition put_pair :: "nat \<Rightarrow> nat \<Rightarrow> string \<Rightarrow> string outcome" where
  "put_pair i p buf =
     (if p < 2 then Inl UB
      else bind (put_char (p - 1) (snd (digits_to_99 i)) buf) (put_char (p - 2) (fst (digits_to_99 i))))"

fun put_digits :: "nat \<Rightarrow> nat \<Rightarrow> string \<Rightarrow> string outcome" where
  "put_digits n p buf =
     (if 100 \<le> n then
        (if p < 2 then Inl UB
         else case put_pair (n mod 100) p buf of
           Inl e \<Rightarrow> Inl e
         | Inr buf \<Rightarrow> put_digits (n div 100) (p - 2) buf)
      else if 10 \<le> n then put_pair n p buf
      else if p < 1 then Inl UB
      else put_char (p - 1) (char_of (48 + n)) buf)"

declare put_digits.simps [simp del]

text \<open>The magnitude of a negative \<open>std::int64_t\<close>, without the overflow of its negation.\<close>

definition remove_sign :: "64 word \<Rightarrow> 64 word" where
  "remove_sign x = - (x + 1) + 1"

text \<open>\<open>dump_integer\<close> for the two types of integers; \<open>buf\<close> is what \<open>number_buffer\<close>
  holds.\<close>

definition dump_magnitude :: "bool \<Rightarrow> 64 word \<Rightarrow> string \<Rightarrow> string outcome" where
  "dump_magnitude is_negative abs_value buf =
     (let n_chars = (if is_negative then 1 else 0) + count_digits (unat abs_value) in
      bind (if is_negative then put_char 0 CHR ''-'' buf else Inr buf) (\<lambda>buf.
        if n_chars < length buf - 1 then
          bind (put_digits (unat abs_value) n_chars buf) (\<lambda>buf. Inr (take n_chars buf))
        else Inl UB))"

definition dump_unsigned :: "64 word \<Rightarrow> string \<Rightarrow> string outcome" where
  "dump_unsigned x buf = (if x = 0 then Inr ''0'' else dump_magnitude False x buf)"

definition dump_signed :: "int \<Rightarrow> string \<Rightarrow> string outcome" where
  "dump_signed x buf =
     (if x = 0 then Inr ''0''
      else if \<not> 0 \<le> x then dump_magnitude True (remove_sign (of_int x)) buf
      else dump_magnitude False (of_int x) buf)"

definition number_buffer :: string where
  "number_buffer = replicate 64 CHR 0x00"

section \<open>dump\<close>

fun comma_separated :: "string list \<Rightarrow> string" where
  "comma_separated [] = []"
| "comma_separated [t] = t"
| "comma_separated (t # ts) = t @ '','' @ comma_separated ts"

lemma mapM_cong [fundef_cong]:
  "xs = ys \<Longrightarrow> (\<And>x. x \<in> set ys \<Longrightarrow> f x = g x) \<Longrightarrow> mapM f xs = mapM g ys"
  by (induction ys arbitrary: xs) auto

text \<open>The loops without indentation over the members of an object and the elements of an array, which
  are not empty.\<close>

definition dump_members :: "(json \<Rightarrow> string outcome) \<Rightarrow> (string \<times> json) list \<Rightarrow> string outcome" where
  "dump_members dump_value ms =
     bind
       (mapM (\<lambda>m.
          bind (dump_escaped Handler_strict False (fst m)) (\<lambda>k.
          bind (dump_value (snd m)) (\<lambda>t.
            Inr (CHR 0x22 # k @ [CHR 0x22, CHR '':''] @ t)))) ms)
       (\<lambda>ts. Inr (''{'' @ comma_separated ts @ ''}''))"

definition dump_elements :: "(json \<Rightarrow> string outcome) \<Rightarrow> json list \<Rightarrow> string outcome" where
  "dump_elements dump_value js =
     bind (mapM dump_value js) (\<lambda>ts. Inr (''['' @ comma_separated ts @ '']''))"

lemma dump_members_cong [fundef_cong]:
  "ms = ms' \<Longrightarrow> (\<And>m. m \<in> set ms' \<Longrightarrow> d (snd m) = d' (snd m)) \<Longrightarrow> dump_members d ms = dump_members d' ms'"
  by (auto simp: dump_members_def intro!: arg_cong2 [where f = bind] mapM_cong)

lemma dump_elements_cong [fundef_cong]:
  "js = js' \<Longrightarrow> (\<And>j. j \<in> set js' \<Longrightarrow> d j = d' j) \<Longrightarrow> dump_elements d js = dump_elements d' js'"
  using mapM_cong [of js js' d d'] by (simp add: dump_elements_def)

fun dump :: "(rat \<Rightarrow> string) \<Rightarrow> json \<Rightarrow> string outcome" where
  "dump dump_float JNull = Inr ''null''"
| "dump dump_float (JBool b) = Inr (if b then ''true'' else ''false'')"
| "dump dump_float (JUnsigned w) = dump_unsigned w number_buffer"
| "dump dump_float (JInteger n) = dump_signed n number_buffer"
| "dump dump_float (JFloat x) = Inr (dump_float x)"
| "dump dump_float (JString s) =
     bind (dump_escaped Handler_strict False s) (\<lambda>t. Inr (CHR 0x22 # t @ [CHR 0x22]))"
| "dump dump_float (JArray js) =
     (if js = [] then Inr ''[]'' else dump_elements (\<lambda>j. dump dump_float j) js)"
| "dump dump_float (JObject ms) =
     (if ms = [] then Inr ''{}'' else dump_members (\<lambda>j. dump dump_float j) ms)"

section \<open>Numbers are decimal\<close>

lemma length_to_string_step:
  "length (to_string n) = (if n < 10 then 1 else Suc (length (to_string (n div 10))))"
  by (subst to_string.simps) simp

lemma count_digits_to_string: "count_digits n = length (to_string n)"
proof (induction n rule: count_digits.induct)
  case (1 n)
  have d: "n div 10 div 10 = n div 100" "n div 100 div 10 = n div 1000" "n div 1000 div 10 = n div 10000"
    by (simp_all add: div_mult2_eq [symmetric])
  note l = length_to_string_step [of n] length_to_string_step [of "n div 10", unfolded d]
    length_to_string_step [of "n div 100", unfolded d] length_to_string_step [of "n div 1000", unfolded d]
  have b: "n div 10 < 10 \<longleftrightarrow> n < 100" "n div 100 < 10 \<longleftrightarrow> n < 1000" "n div 1000 < 10 \<longleftrightarrow> n < 10000"
    by (simp_all add: div_less_iff_less_mult)
  show ?case
    using 1 l unfolding b by (subst count_digits.simps) (simp split: if_splits)
qed

lemma length_to_string_le: "n < 10 ^ k \<Longrightarrow> 0 < k \<Longrightarrow> length (to_string n) \<le> k"
proof (induction k arbitrary: n)
  case (Suc k)
  show ?case
  proof (cases "n < 10")
    case False
    then have "0 < k" using Suc.prems(1) by (cases k) simp_all
    moreover have "n div 10 < 10 ^ k" using Suc.prems(1) by (simp add: div_less_iff_less_mult mult.commute)
    ultimately show ?thesis using Suc.IH False by (simp add: length_to_string_step [of n])
  qed (simp add: length_to_string_step)
qed simp

lemma put_char_text:
  "p < length buf \<Longrightarrow> put_char p c buf = Inr (take p buf @ c # drop (Suc p) buf)"
  by (simp add: put_char_def upd_conv_take_nth_drop)

lemma put_pair_text:
  assumes "2 \<le> p" and "p \<le> length buf"
  shows "put_pair i p buf = Inr (take (p - 2) buf @ [hex_digit (i div 10), hex_digit (i mod 10)] @ drop p buf)"
proof -
  have p: "Suc (p - Suc 0) = p" "Suc (p - 2) = p - 1" "min (p - 1) (p - 2) = p - 2" using assms(1) by simp_all
  have d: "drop (p - 1) (take (p - 1) buf @ c # drop p buf) = c # drop p buf" for c using assms by simp
  have t: "take (p - 2) (take (p - 1) buf @ c # drop p buf) = take (p - 2) buf" for c
    using assms p(3) by simp
  show ?thesis
    using assms by (simp add: put_pair_def put_char_text digits_to_99_def p d t)
qed

lemma decimal_char: "n < 10 \<Longrightarrow> char_of (48 + n) = hex_digit n"
proof -
  assume "n < 10"
  then have "n \<in> {0, 1, 2, 3, 4, 5, 6, 7, 8, 9}" by (simp, arith)
  then show ?thesis by (elim insertE emptyE) (simp_all add: hex_digit_def char_of_eq_iff)
qed

lemma to_string_two:
  assumes "100 \<le> n"
  shows "to_string n = to_string (n div 100) @ [hex_digit (n mod 100 div 10), hex_digit (n mod 100 mod 10)]"
proof -
  have m: "n mod 100 = 10 * (n div 10 mod 10) + n mod 10" using mod_mult2_eq [of n 10 10] by simp
  then have d: "n mod 100 div 10 = n div 10 mod 10" "n mod 100 mod 10 = n mod 10"
    by (simp, simp add: mod_mod_cancel)
  have "to_string n = to_string (n div 10) @ [hex_digit (n mod 10)]"
    using assms by (subst to_string.simps) simp
  also have "to_string (n div 10) = to_string (n div 100) @ [hex_digit (n div 10 mod 10)]"
  proof -
    have "n div 10 div 10 = n div 100" by (simp add: div_mult2_eq [symmetric])
    moreover have "\<not> n div 10 < 10" using assms by (simp add: not_less less_eq_div_iff_mult_less_eq)
    ultimately show ?thesis by (subst to_string.simps) simp
  qed
  finally show ?thesis by (simp add: d)
qed

lemma to_string_small:
  "n < 10 \<Longrightarrow> to_string n = [hex_digit n]"
  "10 \<le> n \<Longrightarrow> n < 100 \<Longrightarrow> to_string n = [hex_digit (n div 10), hex_digit (n mod 10)]"
proof -
  show one: "n < 10 \<Longrightarrow> to_string n = [hex_digit n]" for n by (subst to_string.simps) simp
  show "10 \<le> n \<Longrightarrow> n < 100 \<Longrightarrow> to_string n = [hex_digit (n div 10), hex_digit (n mod 10)]"
    by (subst to_string.simps) (simp add: one div_less_iff_less_mult)
qed

lemma put_digits_text:
  "length (to_string n) \<le> p \<Longrightarrow> p \<le> length buf \<Longrightarrow>
   put_digits n p buf = Inr (take (p - length (to_string n)) buf @ to_string n @ drop p buf)"
proof (induction n p buf rule: put_digits.induct)
  case (1 n p buf)
  note prems = 1(2,3) and IH = 1(1)
  consider "100 \<le> n" | "10 \<le> n" "n < 100" | "n < 10" by linarith
  then show ?case
  proof cases
    case 1
    note n = this
    let ?k = "length (to_string (n div 100))"
      and ?d = "[hex_digit (n mod 100 div 10), hex_digit (n mod 100 mod 10)]"
    have p: "2 \<le> p" "?k \<le> p - 2" using prems(1) to_string_two [OF n] by simp_all
    have pair: "put_pair (n mod 100) p buf = Inr (take (p - 2) buf @ ?d @ drop p buf)"
      using p prems(2) by (intro put_pair_text)
    let ?u = "take (p - 2) buf"
    have u: "length ?u = p - 2" using prems(2) p(1) by simp
    have "put_digits n p buf = put_digits (n div 100) (p - 2) (?u @ ?d @ drop p buf)"
      using n p(1) by (subst put_digits.simps) (simp only: pair if_True not_less [symmetric] if_False sum.case not_False_eq_True)
    also have "\<dots> = Inr (take (p - 2 - ?k) (?u @ ?d @ drop p buf) @ to_string (n div 100) @
        drop (p - 2) (?u @ ?d @ drop p buf))"
      by (rule IH [OF n _ pair p(2)]) (use p(1) u in simp_all)
    also have "take (p - 2 - ?k) (?u @ ?d @ drop p buf) = take (p - 2 - ?k) buf"
      by (simp only: take_append u) (simp add: min.absorb1)
    also have "drop (p - 2) (?u @ ?d @ drop p buf) = ?d @ drop p buf"
      using u by simp
    finally show ?thesis unfolding to_string_two [OF n] by simp
  next
    case 2
    then show ?thesis using prems put_pair_text [of p buf n]
      by (subst put_digits.simps) (simp add: to_string_small numeral_2_eq_2)
  next
    case 3
    then show ?thesis using prems
      by (subst put_digits.simps) (simp add: to_string_small put_char_text decimal_char)
  qed
qed

lemma dump_magnitude_text:
  assumes "length buf = 64"
  shows "dump_magnitude neg w buf = Inr ((if neg then ''-'' else []) @ to_string (unat w))"
proof -
  have "unat w < 2 ^ 64" using unsigned_less [of w] by simp
  then have l: "length (to_string (unat w)) \<le> 20" by (intro length_to_string_le) simp_all
  then show ?thesis
    using assms put_digits_text [of "unat w" "length (to_string (unat w))" buf]
      put_digits_text [of "unat w" "Suc (length (to_string (unat w)))" "CHR ''-'' # drop 1 buf"]
    by (simp add: dump_magnitude_def count_digits_to_string put_char_text Let_def)
qed

lemma length_number_buffer [simp]: "length number_buffer = 64"
  by (simp add: number_buffer_def)

lemma dump_unsigned_text:
  assumes "length buf = 64"
  shows "dump_unsigned w buf = Inr (to_string (unat w))"
  using dump_magnitude_text [OF assms, of False w]
  by (cases "w = 0") (simp_all add: dump_unsigned_def to_string_small hex_digit_def)

text \<open>The decimal representation of an integer of 64 bits.\<close>

definition decimal_text :: "int \<Rightarrow> string" where
  "decimal_text n = (if n < 0 then ''-'' else []) @ to_string (nat \<bar>n\<bar>)"

lemma uint_of_int_64: "0 \<le> n \<Longrightarrow> n \<le> 2 ^ 63 \<Longrightarrow> uint (of_int n :: 64 word) = n"
  by (simp only: uint_word_of_int) (rule mod_pos_pos_trivial, simp_all)

lemma remove_sign_of_int:
  assumes "- (2 ^ 63) \<le> n" and "n < 0"
  shows "unat (remove_sign (of_int n)) = nat (- n)"
proof -
  have "remove_sign (of_int n) = (of_int (- n) :: 64 word)" by (simp add: remove_sign_def)
  moreover have "uint (of_int (- n) :: 64 word) = - n"
    using assms by (intro uint_of_int_64) simp_all
  ultimately show ?thesis by (metis unat_eq_nat_uint)
qed

lemma dump_signed_text:
  assumes "- (2 ^ 63) \<le> n" and "n < 2 ^ 63" and "length buf = 64"
  shows "dump_signed n buf = Inr (decimal_text n)"
proof -
  consider "n = 0" | "n < 0" | "0 < n" by linarith
  then show ?thesis
  proof cases
    case 1
    then show ?thesis by (simp add: dump_signed_def decimal_text_def to_string_small hex_digit_def)
  next
    case 2
    then show ?thesis
      using dump_magnitude_text [OF assms(3), of True "remove_sign (of_int n)"] remove_sign_of_int [OF assms(1) 2]
      by (simp add: dump_signed_def decimal_text_def)
  next
    case 3
    then have "unat (of_int n :: 64 word) = nat n"
      using assms(2) uint_of_int_64 [of n] by (simp add: unat_eq_nat_uint)
    then show ?thesis
      using dump_magnitude_text [OF assms(3), of False "of_int n"] 3
      by (simp add: dump_signed_def decimal_text_def)
  qed
qed

section \<open>Which values are written, and as what\<close>

text \<open>The strings and keys of a value are UTF-8, and its integers fit their 64 bits.\<close>

fun json_utf8 :: "json \<Rightarrow> bool" where
  "json_utf8 (JString s) = utf8 s"
| "json_utf8 (JArray js) = (\<forall>j \<in> set js. json_utf8 j)"
| "json_utf8 (JObject ms) = (\<forall>m \<in> set ms. utf8 (fst m) \<and> json_utf8 (snd m))"
| "json_utf8 _ = True"

fun json_range :: "json \<Rightarrow> bool" where
  "json_range (JInteger n) = (- (2 ^ 63) \<le> n \<and> n < 2 ^ 63)"
| "json_range (JArray js) = (\<forall>j \<in> set js. json_range j)"
| "json_range (JObject ms) = (\<forall>m \<in> set ms. json_range (snd m))"
| "json_range _ = True"

text \<open>The text of a value.\<close>

definition quoted :: "string \<Rightarrow> string" where
  "quoted s = CHR 0x22 # concat (map json_escape s) @ [CHR 0x22]"

fun json_text :: "(rat \<Rightarrow> string) \<Rightarrow> json \<Rightarrow> string" where
  "json_text f JNull = ''null''"
| "json_text f (JBool b) = (if b then ''true'' else ''false'')"
| "json_text f (JUnsigned w) = to_string (unat w)"
| "json_text f (JInteger n) = decimal_text n"
| "json_text f (JFloat x) = f x"
| "json_text f (JString s) = quoted s"
| "json_text f (JArray js) = ''['' @ comma_separated (map (json_text f) js) @ '']''"
| "json_text f (JObject ms) =
     ''{'' @ comma_separated (map (\<lambda>m. quoted (fst m) @ CHR '':'' # json_text f (snd m)) ms) @ ''}''"

lemma mapM_eq: "(\<And>x. x \<in> set xs \<Longrightarrow> f x = Inr (g x)) \<Longrightarrow> mapM f xs = Inr (map g xs)"
  by (induction xs) simp_all

lemma mapM_fails:
  assumes "\<And>x. x \<in> set xs \<Longrightarrow> (if P x then \<exists>y. f x = Inr y else f x = Inl e)"
  shows "if \<forall>x \<in> set xs. P x then \<exists>ys. mapM f xs = Inr ys else mapM f xs = Inl e"
  using assms
proof (induction xs)
  case (Cons x xs)
  then show ?case by (cases "P x") (fastforce split: if_splits)+
qed simp

lemma dump_json_text: "json_utf8 j \<Longrightarrow> json_range j \<Longrightarrow> dump f j = Inr (json_text f j)"
proof (induction f j rule: dump.induct)
  case (7 f js)
  then have "mapM (dump f) js = Inr (map (json_text f) js)" by (intro mapM_eq) fastforce
  then show ?case by (simp add: dump_elements_def)
next
  case (8 f ms)
  then show ?case
    by (simp add: dump_members_def mapM_eq [where g = "\<lambda>m. quoted (fst m) @ CHR '':'' # json_text f (snd m)"] dump_escaped_strict quoted_def)
qed (simp_all add: dump_unsigned_text dump_signed_text dump_escaped_strict quoted_def)

lemma dump_number_returns:
  "\<exists>t. dump_unsigned w number_buffer = Inr t" "\<exists>t. dump_signed n number_buffer = Inr t"
  by (simp_all add: dump_unsigned_text dump_signed_def dump_magnitude_text)

lemma dump_fails:
  "if json_utf8 j then \<exists>t. dump f j = Inr t else dump f j = Inl (Throw Json_type_error)"
proof (induction f j rule: dump.induct)
  case (7 f js)
  show ?case
  proof (cases "js = []")
    case False
    have "if \<forall>j \<in> set js. json_utf8 j then \<exists>ts. mapM (dump f) js = Inr ts else mapM (dump f) js = Inl (Throw Json_type_error)"
      using 7 [OF False] by (rule mapM_fails)
    then show ?thesis by (auto simp: dump_elements_def split: if_splits)
  qed simp
next
  case (8 f ms)
  show ?case
  proof (cases "ms = []")
    case False
    let ?g = "\<lambda>m. bind (dump_escaped Handler_strict False (fst m)) (\<lambda>k. bind (dump f (snd m)) (\<lambda>t. Inr (CHR 0x22 # k @ [CHR 0x22, CHR '':''] @ t)))"
    have "if \<forall>m \<in> set ms. utf8 (fst m) \<and> json_utf8 (snd m) then \<exists>ts. mapM ?g ms = Inr ts else mapM ?g ms = Inl (Throw Json_type_error)"
      by (rule mapM_fails) (use 8 False in \<open>fastforce simp: dump_escaped_strict split: if_splits\<close>)
    then show ?thesis using False by (auto simp: dump_members_def split: if_splits)
  qed simp
qed (use dump_number_returns in \<open>auto simp: dump_escaped_strict split: if_splits\<close>)

text \<open>(C19) The serializer fails exactly on a value with a string or a key, at any depth, that is not
  UTF-8, and then with a type error; it never steps outside a buffer.\<close>

theorem dump_fails_iff:
  "if json_utf8 j then \<exists>t. dump f j = Inr t else dump f j = Inl (Throw Json_type_error)"
  by (rule dump_fails)

end
