(* ===== verification/Json_Parse.thy ===== *)
theory Json_Parse
  imports Json_Scan Json_Dump
begin

text \<open>
  The parser of the JSON library: \<open>sax_parse_internal\<close> and \<open>parse\<close> of
  \<open>externals/nlohmann_json/include/nlohmann/detail/input/parser.hpp\<close> and the class
  \<open>json_sax_dom_parser\<close> of \<open>json_sax.hpp\<close> beside it, with exceptions, no callback and the
  whole text to be read, which is how \<open>basic_json::parse\<close> is called by the program.

  The array or object under construction is a frame that holds what it has so far, and joins the one
  around it when it is closed; the library writes it there at once through a pointer, which makes no
  difference since a text that fails gives no value.

  The lemmas show that parsing always ends, that a parsed value satisfies the invariants of a value, and
  that parsing undoes \<open>dump\<close>.
\<close>

section \<open>json\_sax\_dom\_parser\<close>

text \<open>\<open>ref_stack\<close> from its end; the key of an object is \<open>object_element\<close>.\<close>

datatype frame =
    In_array "json list"
  | In_object "(string \<times> json) list" "string option"

record sax_dom =
  dom_root :: json
  dom_stack :: "frame list"

definition handle_value :: "json \<Rightarrow> sax_dom \<Rightarrow> sax_dom outcome" where
  "handle_value v d =
     (case dom_stack d of
        [] \<Rightarrow> Inr (d\<lparr>dom_root := v\<rparr>)
      | In_array js # fs \<Rightarrow> Inr (d\<lparr>dom_stack := In_array (js @ [v]) # fs\<rparr>)
      | In_object ms (Some k) # fs \<Rightarrow> Inr (d\<lparr>dom_stack := In_object (member_set k v ms) (Some k) # fs\<rparr>)
      | In_object ms None # fs \<Rightarrow> Inl UB)"

definition sax_start_array :: "sax_dom \<Rightarrow> sax_dom" where
  "sax_start_array d = d\<lparr>dom_stack := In_array [] # dom_stack d\<rparr>"

definition sax_start_object :: "sax_dom \<Rightarrow> sax_dom" where
  "sax_start_object d = d\<lparr>dom_stack := In_object [] None # dom_stack d\<rparr>"

text \<open>\<open>key\<close>: \<open>operator[]\<close> of the map adds null under a key that is new.\<close>

definition sax_key :: "string \<Rightarrow> sax_dom \<Rightarrow> sax_dom outcome" where
  "sax_key k d =
     (case dom_stack d of
        In_object ms _ # fs \<Rightarrow>
          Inr (d\<lparr>dom_stack := In_object (if k \<in> fst ` set ms then ms else member_set k JNull ms) (Some k) # fs\<rparr>)
      | _ \<Rightarrow> Inl UB)"

text \<open>\<open>end_array\<close> and \<open>end_object\<close>.\<close>

definition sax_end :: "sax_dom \<Rightarrow> sax_dom outcome" where
  "sax_end d =
     (case dom_stack d of
        [] \<Rightarrow> Inl UB
      | In_array js # fs \<Rightarrow> handle_value (JArray js) (d\<lparr>dom_stack := fs\<rparr>)
      | In_object ms _ # fs \<Rightarrow> handle_value (JObject ms) (d\<lparr>dom_stack := fs\<rparr>))"

section \<open>sax\_parse\_internal\<close>

text \<open>\<open>ps_states\<close> is the vector \<open>states\<close> from its end: True for an array, False for an
  object.\<close>

record parser =
  ps_token :: token
  ps_input :: string
  ps_states :: "bool list"
  ps_dom :: sax_dom

definition get_token :: "lex_env \<Rightarrow> parser \<Rightarrow> parser" where
  "get_token env p = (case scan env (ps_input p) of (tok, cs) \<Rightarrow> p\<lparr>ps_token := tok, ps_input := cs\<rparr>)"

definition put_value :: "json \<Rightarrow> parser \<Rightarrow> parser outcome" where
  "put_value v p = bind (handle_value v (ps_dom p)) (\<lambda>d. Inr (p\<lparr>ps_dom := d\<rparr>))"

text \<open>A key, and the separator after it.\<close>

definition parse_key :: "lex_env \<Rightarrow> parser \<Rightarrow> parser outcome" where
  "parse_key env p =
     (case ps_token p of
        Tok_string k \<Rightarrow>
          bind (sax_key k (ps_dom p)) (\<lambda>d.
            let p = get_token env (p\<lparr>ps_dom := d\<rparr>) in
            if ps_token p = Tok_name_separator then Inr p else Inl (Throw Json_parse_error))
      | _ \<Rightarrow> Inl (Throw Json_parse_error))"

text \<open>The switch over the last token.  The flag of the result tells a value that is complete
  (\<open>break\<close>) from an array or object that was begun (\<open>continue\<close>).\<close>

definition parse_value :: "lex_env \<Rightarrow> parser \<Rightarrow> (bool \<times> parser) outcome" where
  "parse_value env p =
     (case ps_token p of
        Tok_begin_object \<Rightarrow>
          let p = get_token env (p\<lparr>ps_dom := sax_start_object (ps_dom p)\<rparr>) in
          if ps_token p = Tok_end_object then
            bind (sax_end (ps_dom p)) (\<lambda>d. Inr (True, p\<lparr>ps_dom := d\<rparr>))
          else
            bind (parse_key env p) (\<lambda>p.
              Inr (False, get_token env (p\<lparr>ps_states := False # ps_states p\<rparr>)))
      | Tok_begin_array \<Rightarrow>
          let p = get_token env (p\<lparr>ps_dom := sax_start_array (ps_dom p)\<rparr>) in
          if ps_token p = Tok_end_array then
            bind (sax_end (ps_dom p)) (\<lambda>d. Inr (True, p\<lparr>ps_dom := d\<rparr>))
          else Inr (False, p\<lparr>ps_states := True # ps_states p\<rparr>)
      | Tok_float x \<Rightarrow>
          (case x of
             None \<Rightarrow> Inl (Throw Json_out_of_range)
           | Some x \<Rightarrow> bind (put_value (JFloat x) p) (\<lambda>p. Inr (True, p)))
      | Tok_literal_false \<Rightarrow> bind (put_value (JBool False) p) (\<lambda>p. Inr (True, p))
      | Tok_literal_null \<Rightarrow> bind (put_value JNull p) (\<lambda>p. Inr (True, p))
      | Tok_literal_true \<Rightarrow> bind (put_value (JBool True) p) (\<lambda>p. Inr (True, p))
      | Tok_integer n \<Rightarrow> bind (put_value (JInteger n) p) (\<lambda>p. Inr (True, p))
      | Tok_string s \<Rightarrow> bind (put_value (JString s) p) (\<lambda>p. Inr (True, p))
      | Tok_unsigned w \<Rightarrow> bind (put_value (JUnsigned w) p) (\<lambda>p. Inr (True, p))
      | _ \<Rightarrow> Inl (Throw Json_parse_error))"

text \<open>What follows a value in an array or object.  The flag of the result is
  \<open>skip_to_state_evaluation\<close>.\<close>

definition evaluate_state :: "lex_env \<Rightarrow> parser \<Rightarrow> (bool \<times> parser) outcome" where
  "evaluate_state env p =
     (let is_array = hd (ps_states p); p = get_token env p in
      if ps_token p = Tok_value_separator then
        (if is_array then Inr (False, get_token env p)
         else bind (parse_key env (get_token env p)) (\<lambda>p. Inr (False, get_token env p)))
      else if ps_token p = (if is_array then Tok_end_array else Tok_end_object) then
        bind (sax_end (ps_dom p)) (\<lambda>d. Inr (True, p\<lparr>ps_dom := d, ps_states := tl (ps_states p)\<rparr>))
      else Inl (Throw Json_parse_error))"

text \<open>An iteration of the loop: None is its \<open>return true\<close>.\<close>

definition parse_iteration :: "lex_env \<Rightarrow> bool \<Rightarrow> parser \<Rightarrow> (bool option \<times> parser) outcome" where
  "parse_iteration env skip p =
     bind (if skip then Inr (True, p) else parse_value env p) (\<lambda>(finished, p).
       if \<not> finished then Inr (Some False, p)
       else if ps_states p = [] then Inr (None, p)
       else bind (evaluate_state env p) (\<lambda>(skip, p). Inr (Some skip, p)))"

section \<open>The loop ends\<close>

text \<open>Every iteration that goes on has taken a token, so that the input and the token that waits get
  smaller.\<close>

definition left :: "bool \<Rightarrow> parser \<Rightarrow> nat" where
  "left skip p = length (ps_input p) + (if skip then 0 else tok_weight (ps_token p))"

lemma get_token_left: "left False (get_token env p) \<le> left True p"
  using scan_length [of env "ps_input p"] by (auto simp: get_token_def left_def split: prod.split)

lemma get_token_taken: "tok_weight (ps_token (get_token env p)) = 1 \<Longrightarrow> left True (get_token env p) < left True p"
  using get_token_left [of env p] by (simp add: left_def)

lemma left_dom [simp]:
  "left True (p\<lparr>ps_dom := d\<rparr>) = left True p" "left True (p\<lparr>ps_states := st\<rparr>) = left True p"
  "left False (p\<lparr>ps_states := st\<rparr>) = left False p"
  by (simp_all add: left_def)

lemma tok_weight_simps [simp]:
  "tok_weight Tok_begin_array = 1" "tok_weight Tok_end_array = 1" "tok_weight Tok_begin_object = 1" "tok_weight Tok_end_object = 1"
  "tok_weight Tok_name_separator = 1" "tok_weight Tok_value_separator = 1" "tok_weight (Tok_string s) = 1"
  by (simp_all add: tok_weight_def)

lemma parse_key_left: "parse_key env p = Inr p' \<Longrightarrow> left True p' < left True p"
  using get_token_taken [of env "p\<lparr>ps_dom := d\<rparr>" for d]
  by (auto simp: parse_key_def Let_def outcome_simps split: token.splits if_splits)

lemma put_value_left: "put_value v p = Inr p' \<Longrightarrow> left True p' = left True p"
  by (auto simp: put_value_def outcome_simps)

lemma parse_value_left:
  assumes "parse_value env p = Inr (finished, p')"
  shows "if finished then left True p' \<le> left True p else left False p' < left False p"
proof -
  let ?o = "get_token env (p\<lparr>ps_dom := sax_start_object (ps_dom p)\<rparr>)"
    and ?a = "get_token env (p\<lparr>ps_dom := sax_start_array (ps_dom p)\<rparr>)"
  have l: "left True ?o \<le> left True p" "left True ?a \<le> left True p" "left False ?a \<le> left True p"
    using get_token_left [of env "p\<lparr>ps_dom := sax_start_object (ps_dom p)\<rparr>"]
      get_token_left [of env "p\<lparr>ps_dom := sax_start_array (ps_dom p)\<rparr>"]
    by (simp_all add: left_def)
  show ?thesis
  proof (cases "ps_token p")
    case Tok_begin_object
    show ?thesis
    proof (cases "ps_token ?o = Tok_end_object")
      case True
      then show ?thesis using assms Tok_begin_object l(1) by (auto simp: parse_value_def Let_def outcome_simps)
    next
      case False
      then obtain q where q: "parse_key env ?o = Inr q" "\<not> finished" "p' = get_token env (q\<lparr>ps_states := False # ps_states q\<rparr>)"
        using assms Tok_begin_object by (auto simp: parse_value_def Let_def outcome_simps)
      have "left False p' \<le> left True q" using q(3) get_token_left [of env "q\<lparr>ps_states := False # ps_states q\<rparr>"] by simp
      also have "\<dots> < left True ?o" using q(1) by (rule parse_key_left)
      also have "\<dots> \<le> left True p" by (rule l(1))
      finally show ?thesis using q(2) by (simp add: left_def)
    qed
  next
    case Tok_begin_array
    then have "left False p = Suc (left True p)" by (simp add: left_def)
    then show ?thesis
      using assms Tok_begin_array l(2,3) by (auto simp: parse_value_def Let_def outcome_simps split: if_splits)
  qed (use assms in \<open>auto simp: parse_value_def put_value_def outcome_simps split: option.splits\<close>)
qed

lemma evaluate_state_left:
  assumes "evaluate_state env p = Inr (skip, p')"
  shows "left skip p' < left True p"
proof -
  let ?p = "get_token env p"
  consider "ps_token ?p = Tok_value_separator" "hd (ps_states p)" "\<not> skip" "p' = get_token env ?p"
    | q where "ps_token ?p = Tok_value_separator" "parse_key env (get_token env ?p) = Inr q" "\<not> skip" "p' = get_token env q"
    | d st where "tok_weight (ps_token ?p) = 1" "skip" "p' = ?p\<lparr>ps_dom := d, ps_states := st\<rparr>"
    using assms by (auto simp: evaluate_state_def Let_def outcome_simps split: if_splits)
  then show ?thesis
  proof cases
    case 1
    then show ?thesis using get_token_taken [of env p] get_token_left [of env ?p] by simp
  next
    case (2 q)
    have "left False p' \<le> left True q" using 2(4) get_token_left by simp
    also have "\<dots> < left True (get_token env ?p)" using 2(2) by (rule parse_key_left)
    also have "\<dots> \<le> left True ?p" using get_token_left [of env ?p] by (simp add: left_def)
    also have "\<dots> < left True p" using 2(1) by (intro get_token_taken) simp
    finally show ?thesis using 2(3) by simp
  next
    case (3 d st)
    then show ?thesis using get_token_taken [of env p] by simp
  qed
qed

lemma iteration_left:
  assumes "parse_iteration env skip p = Inr (Some skip', p')"
  shows "left skip' p' < left skip p"
proof (cases skip)
  case True
  then show ?thesis
    using assms evaluate_state_left by (auto simp: parse_iteration_def outcome_simps split: if_splits)
next
  case False
  with assms obtain finished q where q: "parse_value env p = Inr (finished, q)"
    "\<not> finished \<and> \<not> skip' \<and> p' = q \<or> finished \<and> evaluate_state env q = Inr (skip', p')"
    by (auto simp: parse_iteration_def outcome_simps split: if_splits)
  have "left True p \<le> left False p" by (simp add: left_def)
  then show ?thesis
    using q(2) parse_value_left [OF q(1)] evaluate_state_left [of env q skip' p'] False by (auto split: if_splits)
qed

function sax_parse :: "lex_env \<Rightarrow> bool \<Rightarrow> parser \<Rightarrow> parser outcome" where
  "sax_parse env skip p =
     (case parse_iteration env skip p of
        Inl e \<Rightarrow> Inl e
      | Inr (None, p') \<Rightarrow> Inr p'
      | Inr (Some skip', p') \<Rightarrow> sax_parse env skip' p')"
  by pat_completeness auto
termination
  by (relation "measure (\<lambda>(_, skip, p). left skip p)") (auto dest: iteration_left)

declare sax_parse.simps [simp del]

text \<open>\<open>parse\<close>, with the first token that the constructor reads.\<close>

definition parse :: "lex_env \<Rightarrow> string \<Rightarrow> json outcome" where
  "parse env s =
     (case scan_first env s of
        (tok, cs) \<Rightarrow>
          bind (sax_parse env False
            \<lparr>ps_token = tok, ps_input = cs, ps_states = [], ps_dom = \<lparr>dom_root = JNull, dom_stack = []\<rparr>\<rparr>) (\<lambda>p.
              if ps_token (get_token env p) = Tok_end_of_input then Inr (dom_root (ps_dom p))
              else Inl (Throw Json_parse_error)))"

section \<open>A parsed value satisfies the invariants\<close>

definition json_ok :: "json \<Rightarrow> bool" where
  "json_ok j \<longleftrightarrow> json_utf8 j \<and> json_sorted j \<and> json_range j"

text \<open>The contents of a frame, and the frame of a state of the loop.\<close>

definition contents_ok :: "frame \<Rightarrow> bool" where
  "contents_ok f = (case f of In_array js \<Rightarrow> \<forall>j \<in> set js. json_ok j | In_object ms _ \<Rightarrow> json_ok (JObject ms))"

definition frame_ok :: "bool \<Rightarrow> frame \<Rightarrow> bool" where
  "frame_ok st f \<longleftrightarrow> contents_ok f \<and>
     (case f of In_array js \<Rightarrow> st | In_object ms k \<Rightarrow> \<not> st \<and> (\<exists>k'. k = Some k' \<and> utf8 k'))"

definition dom_ok :: "bool list \<Rightarrow> sax_dom \<Rightarrow> bool" where
  "dom_ok sts d \<longleftrightarrow> json_ok (dom_root d) \<and> list_all2 frame_ok sts (dom_stack d)"

definition parser_ok :: "parser \<Rightarrow> bool" where
  "parser_ok p \<longleftrightarrow> dom_ok (ps_states p) (ps_dom p) \<and> token_ok (ps_token p)"

text \<open>A result that is right, or a failure that the library documents.\<close>

definition sound :: "('a \<Rightarrow> bool) \<Rightarrow> 'a outcome \<Rightarrow> bool" where
  "sound P m = (case m of Inr x \<Rightarrow> P x | Inl e \<Rightarrow> e = Throw Json_parse_error \<or> e = Throw Json_out_of_range)"

lemma sound_simps [simp]:
  "sound P (Inr x) = P x" "sound P (Inl (Throw Json_parse_error))" "sound P (Inl (Throw Json_out_of_range))"
  by (simp_all add: sound_def)

lemma sound_bind: "sound P m \<Longrightarrow> (\<And>x. P x \<Longrightarrow> sound Q (f x)) \<Longrightarrow> sound Q (bind m f)"
  by (cases m) (auto simp: sound_def)

lemma json_ok_simps:
  "json_ok JNull" "json_ok (JBool b)" "json_ok (JUnsigned w)" "json_ok (JFloat x)" "json_ok (JString s) = utf8 s"
  "json_ok (JArray js) = (\<forall>j \<in> set js. json_ok j)" "json_ok (JInteger n) = (- (2 ^ 63) \<le> n \<and> n < 2 ^ 63)"
  by (auto simp: json_ok_def)

lemma json_ok_object:
  "json_ok (JObject ms) \<longleftrightarrow> sorted_wrt (<) (map fst ms) \<and> (\<forall>m \<in> set ms. utf8 (fst m) \<and> json_ok (snd m))"
  by (auto simp: json_ok_def)

lemma json_ok_member_set:
  assumes "json_ok (JObject ms)" and "utf8 k" and "json_ok v"
  shows "json_ok (JObject (member_set k v ms))"
proof -
  have "m \<in> insert (k, v) (set ms)" if "m \<in> set (member_set k v ms)" for m
    using that by (induction k v ms rule: member_set.induct) (auto split: if_splits)
  then show ?thesis using assms member_set_sorted [of ms k v] by (force simp: json_ok_object)
qed

lemma handle_value_ok:
  assumes "dom_ok sts d" and "json_ok v"
  shows "\<exists>d'. handle_value v d = Inr d' \<and> dom_ok sts d'"
proof (cases "dom_stack d")
  case Nil
  then show ?thesis using assms by (simp add: handle_value_def dom_ok_def)
next
  case (Cons f fs)
  with assms(1) obtain st sts' where st: "sts = st # sts'" "frame_ok st f" "list_all2 frame_ok sts' fs"
    by (auto simp: dom_ok_def list_all2_Cons2)
  show ?thesis
  proof (cases f)
    case (In_array js)
    then show ?thesis using assms Cons st by (auto simp: handle_value_def dom_ok_def frame_ok_def contents_ok_def)
  next
    case (In_object ms k)
    then show ?thesis using assms Cons st json_ok_member_set
      by (auto simp: handle_value_def dom_ok_def frame_ok_def contents_ok_def)
  qed
qed

lemma sax_end_ok:
  assumes "dom_stack d = f # fs" and "contents_ok f" and "dom_ok sts (d\<lparr>dom_stack := fs\<rparr>)"
  shows "\<exists>d'. sax_end d = Inr d' \<and> dom_ok sts d'"
  using assms(1,2) handle_value_ok [OF assms(3)]
  by (cases f) (auto simp: sax_end_def contents_ok_def json_ok_simps)

lemma sax_key_ok:
  assumes "dom_stack d = In_object ms k' # fs" and "json_ok (JObject ms)" and "dom_ok sts (d\<lparr>dom_stack := fs\<rparr>)" and "utf8 k"
  shows "\<exists>d'. sax_key k d = Inr d' \<and> dom_ok (False # sts) d'"
  using assms json_ok_member_set [OF assms(2,4), of JNull]
  by (auto simp: sax_key_def dom_ok_def frame_ok_def contents_ok_def json_ok_simps)

lemma get_token_simps [simp]:
  "ps_states (get_token env p) = ps_states p" "ps_dom (get_token env p) = ps_dom p" "token_ok (ps_token (get_token env p))"
  using scan_ok [of env "ps_input p"] by (auto simp: get_token_def split: prod.split)

lemma parse_key_ok:
  assumes "dom_stack (ps_dom p) = In_object ms k # fs" and "json_ok (JObject ms)"
    and "dom_ok sts (ps_dom p\<lparr>dom_stack := fs\<rparr>)" and "token_ok (ps_token p)"
  shows "sound (\<lambda>q. dom_ok (False # sts) (ps_dom q) \<and> ps_states q = ps_states p \<and> token_ok (ps_token q)) (parse_key env p)"
proof (cases "ps_token p")
  case (Tok_string key)
  then have "utf8 key" using assms(4) by (simp add: token_ok_def)
  from sax_key_ok [OF assms(1-3) this] Tok_string show ?thesis by (auto simp: parse_key_def Let_def)
qed (simp_all add: parse_key_def)

lemma put_value_ok:
  assumes "parser_ok p" and "json_ok v"
  shows "sound (\<lambda>(finished, q). parser_ok q) (bind (put_value v p) (\<lambda>p. Inr (True, p)))"
  using handle_value_ok [of "ps_states p" "ps_dom p" v] assms by (auto simp: put_value_def parser_ok_def)

lemma parse_value_ok:
  assumes "parser_ok p"
  shows "sound (\<lambda>(finished, q). parser_ok q) (parse_value env p)"
proof -
  have d: "dom_ok (ps_states p) (ps_dom p)" using assms by (simp add: parser_ok_def)
  then have d': "dom_ok (ps_states p) (ps_dom p\<lparr>dom_stack := dom_stack (ps_dom p)\<rparr>)" by (simp add: dom_ok_def)
  show ?thesis
  proof (cases "ps_token p")
    case Tok_begin_object
    let ?o = "get_token env (p\<lparr>ps_dom := sax_start_object (ps_dom p)\<rparr>)"
    have o: "dom_stack (ps_dom ?o) = In_object [] None # dom_stack (ps_dom p)" "json_ok (JObject [])"
      "dom_ok (ps_states p) (ps_dom ?o\<lparr>dom_stack := dom_stack (ps_dom p)\<rparr>)"
      using d by (simp_all add: sax_start_object_def json_ok_object dom_ok_def)
    have "\<exists>d. sax_end (ps_dom ?o) = Inr d \<and> dom_ok (ps_states p) d"
      using sax_end_ok [OF o(1) _ o(3)] o(2) by (simp add: contents_ok_def)
    moreover have "sound (\<lambda>q. dom_ok (False # ps_states p) (ps_dom q) \<and> ps_states q = ps_states ?o \<and> token_ok (ps_token q)) (parse_key env ?o)"
      by (rule parse_key_ok [OF o]) simp
    then have "sound (\<lambda>(finished, q). parser_ok q)
        (bind (parse_key env ?o) (\<lambda>p. Inr (False, get_token env (p\<lparr>ps_states := False # ps_states p\<rparr>))))"
      by (rule sound_bind) (simp add: parser_ok_def)
    ultimately show ?thesis using Tok_begin_object by (auto simp: parse_value_def Let_def parser_ok_def)
  next
    case Tok_begin_array
    let ?a = "get_token env (p\<lparr>ps_dom := sax_start_array (ps_dom p)\<rparr>)"
    have a: "dom_stack (ps_dom ?a) = In_array [] # dom_stack (ps_dom p)" "contents_ok (In_array [])"
      "dom_ok (ps_states p) (ps_dom ?a\<lparr>dom_stack := dom_stack (ps_dom p)\<rparr>)"
      using d by (simp_all add: sax_start_array_def contents_ok_def dom_ok_def)
    have "dom_ok (True # ps_states p) (ps_dom ?a)"
      using d by (simp add: dom_ok_def sax_start_array_def frame_ok_def contents_ok_def)
    then show ?thesis using sax_end_ok [OF a] Tok_begin_array by (auto simp: parse_value_def Let_def parser_ok_def)
  next
    case (Tok_integer n)
    then have "json_ok (JInteger n)" using assms by (simp add: parser_ok_def token_ok_def json_ok_simps)
    from put_value_ok [OF assms this] Tok_integer show ?thesis by (simp add: parse_value_def)
  next
    case (Tok_string s)
    then have "json_ok (JString s)" using assms by (simp add: parser_ok_def token_ok_def json_ok_simps)
    from put_value_ok [OF assms this] Tok_string show ?thesis by (simp add: parse_value_def)
  qed (use put_value_ok [OF assms] in \<open>auto simp: parse_value_def json_ok_simps split: option.split\<close>)
qed


lemma evaluate_state_ok:
  assumes "parser_ok p" and "ps_states p \<noteq> []"
  shows "sound (\<lambda>(skip, q). parser_ok q) (evaluate_state env p)"
proof -
  let ?p = "get_token env p"
  obtain st sts f fs where s: "ps_states p = st # sts" "dom_stack (ps_dom p) = f # fs" "frame_ok st f"
    "dom_ok sts (ps_dom p\<lparr>dom_stack := fs\<rparr>)"
    using assms by (cases "ps_states p") (auto simp: parser_ok_def dom_ok_def list_all2_Cons1)
  have e: "\<exists>d. sax_end (ps_dom ?p) = Inr d \<and> dom_ok sts d"
    using sax_end_ok [OF s(2) _ s(4)] s(3) by (simp add: frame_ok_def)
  have ok: "dom_ok (st # sts) (ps_dom p)" using assms s(1) by (simp add: parser_ok_def)
  show ?thesis
  proof (cases st)
    case True
    then show ?thesis using e s(1) ok by (auto simp: evaluate_state_def Let_def parser_ok_def)
  next
    case False
    then obtain ms k where f: "f = In_object ms k" "json_ok (JObject ms)"
      using s(3) by (cases f) (auto simp: frame_ok_def contents_ok_def)
    have "sound (\<lambda>q. dom_ok (False # sts) (ps_dom q) \<and> ps_states q = ps_states (get_token env ?p) \<and> token_ok (ps_token q))
        (parse_key env (get_token env ?p))"
      using s f by (intro parse_key_ok) simp_all
    then have "sound (\<lambda>(skip, q). parser_ok q)
        (bind (parse_key env (get_token env ?p)) (\<lambda>p. Inr (False, get_token env p)))"
      by (rule sound_bind) (use s(1) False in \<open>simp add: parser_ok_def\<close>)
    then show ?thesis using e s(1) False by (auto simp: evaluate_state_def Let_def parser_ok_def)
  qed
qed

lemma iteration_ok:
  assumes "parser_ok p"
  shows "sound (\<lambda>(r, q). parser_ok q) (parse_iteration env skip p)"
proof -
  have v: "sound (\<lambda>(finished, q). parser_ok q) (if skip then Inr (True, p) else parse_value env p)"
    using assms parse_value_ok by simp
  have s: "sound (\<lambda>(r, q). parser_ok q)
      (if \<not> finished then Inr (Some False, q)
       else if ps_states q = [] then Inr (None, q)
       else bind (evaluate_state env q) (\<lambda>(skip, q). Inr (Some skip, q)))" if "parser_ok q" for finished q
    using that sound_bind [OF evaluate_state_ok [OF that], of "\<lambda>(r, q). parser_ok q" "\<lambda>(skip, q). Inr (Some skip, q)"]
    by auto
  show ?thesis unfolding parse_iteration_def
  proof (rule sound_bind [OF v])
    fix x :: "bool \<times> parser"
    assume "case x of (finished, q) \<Rightarrow> parser_ok q"
    then show "sound (\<lambda>(r, q). parser_ok q) (case x of (finished, p) \<Rightarrow>
        if \<not> finished then Inr (Some False, p)
        else if ps_states p = [] then Inr (None, p)
        else bind (evaluate_state env p) (\<lambda>(skip, p). Inr (Some skip, p)))"
      using s by (cases x) (simp only: prod.case)
  qed
qed

lemma sax_parse_ok: "parser_ok p \<Longrightarrow> sound parser_ok (sax_parse env skip p)"
proof (induction env skip p rule: sax_parse.induct)
  case (1 env skip p)
  from iteration_ok [OF 1(2), of env skip] show ?case
    using 1(1) by (subst sax_parse.simps) (auto simp: sound_def [of "\<lambda>(r, q). parser_ok q"] sound_def [of parser_ok "Inl _"] split: sum.splits option.splits)
qed

lemma parse_sound: "sound json_ok (parse env s)"
proof -
  obtain tok cs where t: "scan_first env s = (tok, cs)" by force
  have "token_ok tok"
    using t scan_ok [of env] by (auto simp: scan_first_def split: option.splits) (metis fst_conv)
  then have "parser_ok \<lparr>ps_token = tok, ps_input = cs, ps_states = [], ps_dom = \<lparr>dom_root = JNull, dom_stack = []\<rparr>\<rparr>"
    by (simp add: parser_ok_def dom_ok_def json_ok_simps)
  from sax_parse_ok [OF this, of env False] show ?thesis
    unfolding parse_def t prod.case by (rule sound_bind) (simp add: parser_ok_def dom_ok_def)
qed

lemma parse_total: "parse env s \<noteq> Inl UB"
  using parse_sound [of env s] by (auto simp: sound_def)

text \<open>(C18) Parsing any text ends with a value whose strings and keys are UTF-8, whose objects hold each
  key once and in order and whose integers fit their 64 bits, or with one of the two errors the library
  documents; the assertions about its stack never fail.\<close>

theorem parse_typed:
  "case parse env s of
     Inr j \<Rightarrow> json_utf8 j \<and> json_sorted j \<and> json_range j
   | Inl e \<Rightarrow> e = Throw Json_parse_error \<or> e = Throw Json_out_of_range"
  using parse_sound [of env s] by (simp add: sound_def json_ok_def split: sum.splits)

section \<open>Parsing undoes dump\<close>

text \<open>A value as a text gives it back: an integer that is not negative is read as an unsigned one, and
  the text of a floating-point number is left to its conversions.\<close>

fun json_plain :: "json \<Rightarrow> bool" where
  "json_plain JNull = True"
| "json_plain (JBool b) = True"
| "json_plain (JUnsigned w) = True"
| "json_plain (JString s) = True"
| "json_plain (JInteger n) = (- (2 ^ 63) \<le> n \<and> n < 0)"
| "json_plain (JFloat x) = False"
| "json_plain (JArray js) = (\<forall>j \<in> set js. json_plain j)"
| "json_plain (JObject ms) = (\<forall>m \<in> set ms. json_plain (snd m))"

text \<open>The parser that has just taken the first token of a text.\<close>

definition parser_at :: "lex_env \<Rightarrow> string \<Rightarrow> bool list \<Rightarrow> sax_dom \<Rightarrow> parser" where
  "parser_at env s sts d = (case scan env s of (tok, cs) \<Rightarrow> \<lparr>ps_token = tok, ps_input = cs, ps_states = sts, ps_dom = d\<rparr>)"

lemma get_token_at: "get_token env p = parser_at env (ps_input p) (ps_states p) (ps_dom p)"
  by (cases p) (simp add: get_token_def parser_at_def split: prod.split)

lemma parser_at_eq: "scan env s = (tok, cs) \<Longrightarrow> parser_at env s sts d = \<lparr>ps_token = tok, ps_input = cs, ps_states = sts, ps_dom = d\<rparr>"
  by (simp add: parser_at_def)

lemma parser_at_states [simp]: "parser_at env s sts d\<lparr>ps_states := sts'\<rparr> = parser_at env s sts' d"
  by (simp add: parser_at_def split: prod.split)

lemma sax_parse_complete:
  assumes "parse_value env p = Inr (True, q)"
  shows "sax_parse env False p = sax_parse env True q"
  using assms by (subst (1 2) sax_parse.simps) (simp add: parse_iteration_def)

lemma sax_parse_begun:
  assumes "parse_value env p = Inr (False, q)"
  shows "sax_parse env False p = sax_parse env False q"
  using assms by (subst sax_parse.simps) (simp add: parse_iteration_def)

lemma sax_parse_state:
  assumes "ps_states p \<noteq> []" and "evaluate_state env p = Inr (skip, q)"
  shows "sax_parse env True p = sax_parse env skip q"
  using assms by (subst sax_parse.simps) (simp add: parse_iteration_def)

text \<open>What reading a value from a text means: it is put in its place, and the loop goes on behind it.\<close>

definition reads :: "lex_env \<Rightarrow> string \<Rightarrow> json \<Rightarrow> bool" where
  "reads env s j \<longleftrightarrow>
     (\<forall>r sts d d'. value_ends r \<longrightarrow> handle_value j d = Inr d' \<longrightarrow>
        (\<exists>tok. sax_parse env False (parser_at env (s @ r) sts d) =
           sax_parse env True \<lparr>ps_token = tok, ps_input = r, ps_states = sts, ps_dom = d'\<rparr>))"

lemma readsD:
  assumes "reads env s j" and "value_ends r" and "handle_value j d = Inr d'"
  obtains tok where "sax_parse env False (parser_at env (s @ r) sts d) =
    sax_parse env True \<lparr>ps_token = tok, ps_input = r, ps_states = sts, ps_dom = d'\<rparr>"
  using assms unfolding reads_def by blast

lemma value_ends_simps [simp]:
  "value_ends []" "value_ends (CHR '','' # r)" "value_ends (CHR '']'' # r)" "value_ends (CHR ''}'' # r)"
  by (simp_all add: value_ends_def)

lemma reads_scalar:
  assumes "\<And>r. value_ends r \<Longrightarrow> scan env (s @ r) = (tok, r)"
    and "\<And>p. ps_token p = tok \<Longrightarrow> parse_value env p = bind (put_value j p) (\<lambda>p. Inr (True, p))"
  shows "reads env s j"
  unfolding reads_def
proof (intro allI impI)
  fix r sts d d'
  assume r: "value_ends r" and h: "handle_value j d = Inr d'"
  have "parse_value env (parser_at env (s @ r) sts d) = Inr (True, \<lparr>ps_token = tok, ps_input = r, ps_states = sts, ps_dom = d'\<rparr>)"
    using assms(2) [of "parser_at env (s @ r) sts d"] h
    by (simp add: parser_at_eq [OF assms(1) [OF r]] put_value_def)
  then show "\<exists>tok. sax_parse env False (parser_at env (s @ r) sts d) =
      sax_parse env True \<lparr>ps_token = tok, ps_input = r, ps_states = sts, ps_dom = d'\<rparr>"
    using sax_parse_complete by blast
qed


lemma comma_separated_Cons: "ts \<noteq> [] \<Longrightarrow> comma_separated (t # ts) = t @ CHR '','' # comma_separated ts"
  by (cases ts) simp_all

lemma evaluate_state_array:
  "evaluate_state env \<lparr>ps_token = tok, ps_input = CHR '','' # s, ps_states = True # sts, ps_dom = d\<rparr> =
     Inr (False, parser_at env s (True # sts) d)"
  "evaluate_state env \<lparr>ps_token = tok, ps_input = CHR '']'' # r, ps_states = True # sts, ps_dom = d\<rparr> =
     bind (sax_end d) (\<lambda>d. Inr (True, \<lparr>ps_token = Tok_end_array, ps_input = r, ps_states = sts, ps_dom = d\<rparr>))"
  by (simp_all add: evaluate_state_def get_token_at parser_at_eq [OF scan_punctuation(6)] parser_at_eq [OF scan_punctuation(2)])

lemma evaluate_state_object:
  "evaluate_state env \<lparr>ps_token = tok, ps_input = CHR '','' # s, ps_states = False # sts, ps_dom = d\<rparr> =
     bind (parse_key env (parser_at env s (False # sts) d)) (\<lambda>p. Inr (False, get_token env p))"
  "evaluate_state env \<lparr>ps_token = tok, ps_input = CHR ''}'' # r, ps_states = False # sts, ps_dom = d\<rparr> =
     bind (sax_end d) (\<lambda>d. Inr (True, \<lparr>ps_token = Tok_end_object, ps_input = r, ps_states = sts, ps_dom = d\<rparr>))"
  by (simp_all add: evaluate_state_def get_token_at parser_at_eq [OF scan_punctuation(6)] parser_at_eq [OF scan_punctuation(4)])

lemma reads_elements:
  assumes "\<forall>j \<in> set js. reads env (t j) j" and "js \<noteq> []"
    and "handle_value (JArray (xs @ js)) (d\<lparr>dom_stack := fs\<rparr>) = Inr d'"
  shows "\<exists>tok. sax_parse env False (parser_at env (comma_separated (map t js) @ CHR '']'' # r) (True # sts) (d\<lparr>dom_stack := In_array xs # fs\<rparr>)) =
    sax_parse env True \<lparr>ps_token = tok, ps_input = r, ps_states = sts, ps_dom = d'\<rparr>"
  using assms
proof (induction js arbitrary: xs)
  case (Cons j js)
  let ?d = "d\<lparr>dom_stack := In_array (xs @ [j]) # fs\<rparr>"
  have h: "handle_value j (d\<lparr>dom_stack := In_array xs # fs\<rparr>) = Inr ?d" by (simp add: handle_value_def)
  have j: "reads env (t j) j" using Cons.prems(1) by simp
  show ?case
  proof (cases "js = []")
    case True
    obtain tok where "sax_parse env False (parser_at env (t j @ CHR '']'' # r) (True # sts) (d\<lparr>dom_stack := In_array xs # fs\<rparr>)) =
        sax_parse env True \<lparr>ps_token = tok, ps_input = CHR '']'' # r, ps_states = True # sts, ps_dom = ?d\<rparr>"
      using readsD [OF j value_ends_simps(3) h] .
    also have "\<dots> = sax_parse env True \<lparr>ps_token = Tok_end_array, ps_input = r, ps_states = sts, ps_dom = d'\<rparr>"
      using Cons.prems(3) True by (intro sax_parse_state) (simp_all add: evaluate_state_array sax_end_def)
    finally show ?thesis using True by auto
  next
    case False
    let ?s = "comma_separated (map t js) @ CHR '']'' # r"
    obtain tok where "sax_parse env False (parser_at env (t j @ CHR '','' # ?s) (True # sts) (d\<lparr>dom_stack := In_array xs # fs\<rparr>)) =
        sax_parse env True \<lparr>ps_token = tok, ps_input = CHR '','' # ?s, ps_states = True # sts, ps_dom = ?d\<rparr>"
      using readsD [OF j value_ends_simps(2) h] .
    also have "\<dots> = sax_parse env False (parser_at env ?s (True # sts) ?d)"
      by (intro sax_parse_state) (simp_all add: evaluate_state_array)
    finally show ?thesis
      using Cons.IH [of "xs @ [j]"] Cons.prems False by (auto simp: comma_separated_Cons)
  qed
qed simp

lemma parse_key_at:
  assumes "utf8 k"
  shows "parse_key env (parser_at env (quoted k @ CHR '':'' # s) sts d) =
    bind (sax_key k d) (\<lambda>d. Inr \<lparr>ps_token = Tok_name_separator, ps_input = s, ps_states = sts, ps_dom = d\<rparr>)"
  by (simp add: quoted_def parser_at_eq [OF scan_quoted [OF assms]] parse_key_def get_token_at parser_at_eq [OF scan_punctuation(5)])

lemma member_set_last: "\<forall>k' \<in> fst ` set ms. k' < k \<Longrightarrow> member_set k v (ms @ [(k, x)]) = ms @ [(k, v)]"
  by (induction ms) auto

lemma sax_key_new:
  assumes "\<forall>k' \<in> fst ` set ms. k' < k"
  shows "sax_key k (d\<lparr>dom_stack := In_object ms k' # fs\<rparr>) = Inr (d\<lparr>dom_stack := In_object (ms @ [(k, JNull)]) (Some k) # fs\<rparr>)"
proof -
  have "k \<notin> fst ` set ms" using assms by auto
  then show ?thesis using member_set_above [OF assms] by (simp add: sax_key_def)
qed

definition member_text :: "(json \<Rightarrow> string) \<Rightarrow> string \<times> json \<Rightarrow> string" where
  "member_text t m = quoted (fst m) @ CHR '':'' # t (snd m)"

lemma member_text_pair: "member_text t (k, v) = quoted k @ CHR '':'' # t v"
  by (simp add: member_text_def)

lemma reads_members:
  assumes "\<forall>m \<in> set ms. utf8 (fst m) \<and> reads env (t (snd m)) (snd m)" and "ms \<noteq> []"
    and "sorted_wrt (<) (map fst (xs @ ms))"
    and "handle_value (JObject (xs @ ms)) (d\<lparr>dom_stack := fs\<rparr>) = Inr d'"
  shows "\<exists>tok q. parse_key env (parser_at env (comma_separated (map (member_text t) ms) @ CHR ''}'' # r) sts0 (d\<lparr>dom_stack := In_object xs k # fs\<rparr>)) =
      Inr q \<and> ps_states q = sts0 \<and>
    sax_parse env False (get_token env (q\<lparr>ps_states := False # sts\<rparr>)) =
      sax_parse env True \<lparr>ps_token = tok, ps_input = r, ps_states = sts, ps_dom = d'\<rparr>"
  using assms
proof (induction ms arbitrary: xs k sts0)
  case (Cons m ms)
  obtain key v where m: "m = (key, v)" by force
  have key: "utf8 key" "reads env (t v) v" "\<forall>k' \<in> fst ` set xs. k' < key"
    using Cons.prems(1,3) m by (auto simp: sorted_wrt_append)
  let ?k = "d\<lparr>dom_stack := In_object (xs @ [(key, JNull)]) (Some key) # fs\<rparr>"
    and ?d = "d\<lparr>dom_stack := In_object (xs @ [(key, v)]) (Some key) # fs\<rparr>"
  have h: "handle_value v ?k = Inr ?d" by (simp add: handle_value_def member_set_last [OF key(3)])
  have q: "parse_key env (parser_at env (quoted key @ CHR '':'' # s) sts0 (d\<lparr>dom_stack := In_object xs k # fs\<rparr>)) =
      Inr \<lparr>ps_token = Tok_name_separator, ps_input = s, ps_states = sts0, ps_dom = ?k\<rparr>" for s
    by (simp add: parse_key_at [OF key(1)] sax_key_new [OF key(3)])
  show ?case
  proof (cases "ms = []")
    case True
    obtain tok where "sax_parse env False (parser_at env (t v @ CHR ''}'' # r) (False # sts) ?k) =
        sax_parse env True \<lparr>ps_token = tok, ps_input = CHR ''}'' # r, ps_states = False # sts, ps_dom = ?d\<rparr>"
      using readsD [OF key(2) value_ends_simps(4) h] .
    also have "\<dots> = sax_parse env True \<lparr>ps_token = Tok_end_object, ps_input = r, ps_states = sts, ps_dom = d'\<rparr>"
      using Cons.prems(4) True m by (intro sax_parse_state) (simp_all add: evaluate_state_object sax_end_def)
    finally show ?thesis using True m q [of "t v @ CHR ''}'' # r"] by (auto simp: member_text_pair get_token_at)
  next
    case False
    let ?s = "comma_separated (map (member_text t) ms) @ CHR ''}'' # r"
    from Cons.IH [of "xs @ [m]" "False # sts" "Some key"] Cons.prems False obtain tok q' where
      q': "parse_key env (parser_at env ?s (False # sts) ?d) = Inr q'" "ps_states q' = False # sts"
      "sax_parse env False (get_token env (q'\<lparr>ps_states := False # sts\<rparr>)) =
        sax_parse env True \<lparr>ps_token = tok, ps_input = r, ps_states = sts, ps_dom = d'\<rparr>" using m by auto
    have same: "q'\<lparr>ps_states := False # sts\<rparr> = q'" using q'(2) by (cases q') simp
    obtain tok' where "sax_parse env False (parser_at env (t v @ CHR '','' # ?s) (False # sts) ?k) =
        sax_parse env True \<lparr>ps_token = tok', ps_input = CHR '','' # ?s, ps_states = False # sts, ps_dom = ?d\<rparr>"
      using readsD [OF key(2) value_ends_simps(2) h] .
    also have "\<dots> = sax_parse env False (get_token env q')"
      using q'(1) by (intro sax_parse_state) (simp_all add: evaluate_state_object)
    also have "\<dots> = sax_parse env True \<lparr>ps_token = tok, ps_input = r, ps_states = sts, ps_dom = d'\<rparr>"
      using q'(3) same by simp
    finally show ?thesis using False m q [of "t v @ CHR '','' # ?s"]
      by (auto simp: member_text_pair get_token_at comma_separated_Cons)
  qed
qed simp


lemma json_text_object:
  "json_text f (JObject ms) = CHR ''{'' # comma_separated (map (member_text (json_text f)) ms) @ ''}''"
  by (simp add: member_text_def [abs_def])

lemma scan_integer:
  assumes "- (2 ^ 63) \<le> n" and "n < 0" and "value_ends r"
  shows "scan env (decimal_text n @ r) = (Tok_integer n, r)"
proof -
  have "nat (- n) \<le> 2 ^ 63" using assms(1) by (simp add: nat_le_iff)
  from scan_negative [OF assms(3) this] show ?thesis using assms(2) by (simp add: decimal_text_def)
qed

lemma scan_json_text:
  assumes "json_plain j" and "json_utf8 j" and "value_ends r"
  shows "fst (scan env (json_text f j @ r)) \<notin> {Tok_end_array, Tok_end_object, Tok_parse_error}"
proof (cases j)
  case (JInteger n)
  then show ?thesis using assms by (simp add: scan_integer)
next
  case (JUnsigned w)
  then show ?thesis using assms scan_unsigned [of r env w] by simp
next
  case (JString s)
  then show ?thesis using assms scan_quoted [of s env r] by (simp add: quoted_def)
next
  case (JBool b)
  then show ?thesis using scan_literals [of env r] by (cases b) simp_all
next
  case JNull
  then show ?thesis using scan_literals(3) [of env r] by simp
qed (use assms scan_punctuation in simp_all)

lemma reads_array:
  assumes "\<forall>j \<in> set js. json_plain j \<and> json_utf8 j \<and> reads env (json_text f j) j"
  shows "reads env (json_text f (JArray js)) (JArray js)"
  unfolding reads_def
proof (intro allI impI)
  fix r sts d d'
  assume h: "handle_value (JArray js) d = Inr d'"
  let ?s = "comma_separated (map (json_text f) js) @ CHR '']'' # r"
  let ?p = "parser_at env (json_text f (JArray js) @ r) sts d"
  have p: "?p = \<lparr>ps_token = Tok_begin_array, ps_input = ?s, ps_states = sts, ps_dom = d\<rparr>"
    by (simp add: parser_at_eq scan_punctuation)
  have d: "handle_value (JArray ([] @ js)) (d\<lparr>dom_stack := dom_stack d\<rparr>) = Inr d'" using h by simp
  show "\<exists>tok. sax_parse env False ?p = sax_parse env True \<lparr>ps_token = tok, ps_input = r, ps_states = sts, ps_dom = d'\<rparr>"
  proof (cases js)
    case Nil
    then have "parse_value env ?p = Inr (True, \<lparr>ps_token = Tok_end_array, ps_input = r, ps_states = sts, ps_dom = d'\<rparr>)"
      unfolding p using h
      by (simp add: parse_value_def get_token_at sax_start_array_def parser_at_eq [OF scan_punctuation(2)] sax_end_def)
    then show ?thesis using sax_parse_complete by blast
  next
    case (Cons j js')
    have "\<exists>r'. ?s = json_text f j @ r' \<and> value_ends r'" by (cases js') (auto simp: Cons)
    then obtain r' where r': "?s = json_text f j @ r'" "value_ends r'" by blast
    have "fst (scan env ?s) \<noteq> Tok_end_array"
      unfolding r'(1) using scan_json_text [OF _ _ r'(2), of j env f] assms Cons by simp
    then have "ps_token (parser_at env ?s sts d') \<noteq> Tok_end_array" for d'
      by (auto simp: parser_at_def split: prod.split)
    then have "parse_value env ?p = Inr (False, parser_at env ?s (True # sts) (sax_start_array d))"
      unfolding p by (simp add: parse_value_def get_token_at)  (simp add: parser_at_def split: prod.split)
    from sax_parse_begun [OF this] show ?thesis
      using reads_elements [OF _ _ d, of env "json_text f" r sts] assms Cons by (simp add: sax_start_array_def)
  qed
qed

lemma reads_object:
  assumes "\<forall>m \<in> set ms. utf8 (fst m) \<and> reads env (json_text f (snd m)) (snd m)" and "sorted_wrt (<) (map fst ms)"
  shows "reads env (json_text f (JObject ms)) (JObject ms)"
  unfolding reads_def json_text_object
proof (intro allI impI)
  fix r sts d d'
  assume h: "handle_value (JObject ms) d = Inr d'"
  let ?s = "comma_separated (map (member_text (json_text f)) ms) @ CHR ''}'' # r"
  let ?p = "parser_at env ((CHR ''{'' # comma_separated (map (member_text (json_text f)) ms) @ ''}'') @ r) sts d"
  have p: "?p = \<lparr>ps_token = Tok_begin_object, ps_input = ?s, ps_states = sts, ps_dom = d\<rparr>"
    by (simp add: parser_at_eq scan_punctuation)
  have d: "handle_value (JObject ([] @ ms)) (d\<lparr>dom_stack := dom_stack d\<rparr>) = Inr d'" using h by simp
  show "\<exists>tok. sax_parse env False ?p = sax_parse env True \<lparr>ps_token = tok, ps_input = r, ps_states = sts, ps_dom = d'\<rparr>"
  proof (cases ms)
    case Nil
    then have "parse_value env ?p = Inr (True, \<lparr>ps_token = Tok_end_object, ps_input = r, ps_states = sts, ps_dom = d'\<rparr>)"
      unfolding p using h
      by (simp add: parse_value_def get_token_at sax_start_object_def parser_at_eq [OF scan_punctuation(4)] sax_end_def)
    then show ?thesis using sax_parse_complete by blast
  next
    case (Cons m ms')
    let ?o = "parser_at env ?s sts (sax_start_object d)"
    have "\<exists>r'. ?s = quoted (fst m) @ r'" by (cases ms') (auto simp: Cons member_text_def)
    then obtain r' where "?s = CHR 0x22 # concat (map json_escape (fst m)) @ CHR 0x22 # r'" by (auto simp: quoted_def)
    then have "ps_token ?o \<noteq> Tok_end_object"
      using scan_quoted [of "fst m" env r'] assms(1) Cons by (simp add: parser_at_def)
    moreover obtain tok q where q: "parse_key env ?o = Inr q"
      "sax_parse env False (get_token env (q\<lparr>ps_states := False # sts\<rparr>)) =
        sax_parse env True \<lparr>ps_token = tok, ps_input = r, ps_states = sts, ps_dom = d'\<rparr>" "ps_states q = sts"
      using reads_members [OF assms(1) _ _ d, of r sts None sts] assms(2) Cons by (auto simp: sax_start_object_def)
    ultimately have "parse_value env ?p = Inr (False, get_token env (q\<lparr>ps_states := False # sts\<rparr>))"
      unfolding p by (simp add: parse_value_def get_token_at [of env "_\<lparr>ps_dom := _\<rparr>"] get_token_at [of env "\<lparr>ps_token = _, ps_input = _, ps_states = _, ps_dom = _\<rparr>"])
    from sax_parse_begun [OF this] q(2) show ?thesis by auto
  qed
qed

lemma reads_json_text:
  "json_plain j \<Longrightarrow> json_utf8 j \<Longrightarrow> json_sorted j \<Longrightarrow> reads env (json_text f j) j"
proof (induction j rule: json_plain.induct)
  case (5 n)
  then show ?case
    by (intro reads_scalar [where tok = "Tok_integer n"]) (simp_all add: scan_integer parse_value_def)
next
  case (3 w)
  show ?case
    by (intro reads_scalar [where tok = "Tok_unsigned w"]) (simp_all add: scan_unsigned parse_value_def)
next
  case (4 s)
  then show ?case using scan_quoted [of s env]
    by (intro reads_scalar [where tok = "Tok_string s"]) (simp_all add: quoted_def parse_value_def)
next
  case (2 b)
  show ?case using scan_literals [of env]
    by (intro reads_scalar [where tok = "if b then Tok_literal_true else Tok_literal_false"]) (cases b; simp add: parse_value_def)+
next
  case 1
  show ?case using scan_literals(3) [of env]
    by (intro reads_scalar [where tok = Tok_literal_null]) (simp_all add: parse_value_def)
next
  case (7 js)
  then show ?case by (intro reads_array) simp
next
  case (8 ms)
  then show ?case by (intro reads_object) auto
qed simp


lemma json_plain_range: "json_plain j \<Longrightarrow> json_range j"
  by (induction j rule: json_plain.induct) auto

lemma skip_bom_text:
  assumes "json_plain j"
  shows "scan_first env (json_text f j) = scan env (json_text f j)"
proof -
  have d: "take 1 (to_string n) \<noteq> [CHR 0xEF]" for n
    using to_string_head [of n] by (auto simp: decimal_digit_def less_eq_char_def)
  have "take 1 (json_text f j) \<noteq> [CHR 0xEF]"
    using assms d by (cases j) (auto simp: decimal_text_def quoted_def)
  then show ?thesis by (simp add: scan_first_def skip_bom_def)
qed

lemma parse_json_text:
  assumes "json_plain j" and "json_utf8 j" and "json_sorted j"
  shows "parse env (json_text f j) = Inr j"
proof -
  have "handle_value j \<lparr>dom_root = JNull, dom_stack = []\<rparr> = Inr \<lparr>dom_root = j, dom_stack = []\<rparr>"
    by (simp add: handle_value_def)
  from readsD [OF reads_json_text [OF assms] value_ends_simps(1) this] obtain tok where
    "sax_parse env False (parser_at env (json_text f j @ []) [] \<lparr>dom_root = JNull, dom_stack = []\<rparr>) =
      sax_parse env True \<lparr>ps_token = tok, ps_input = [], ps_states = [], ps_dom = \<lparr>dom_root = j, dom_stack = []\<rparr>\<rparr>" .
  also have "\<dots> = Inr \<lparr>ps_token = tok, ps_input = [], ps_states = [], ps_dom = \<lparr>dom_root = j, dom_stack = []\<rparr>\<rparr>"
    by (subst sax_parse.simps) (simp add: parse_iteration_def)
  finally show ?thesis
    using assms(1) by (simp add: parse_def skip_bom_text parser_at_def get_token_def scan_punctuation split: prod.splits)
qed

text \<open>(C17) Whatever the program writes with \<open>dump\<close> is read back as the same value by
  \<open>parse\<close>: for every value whose objects are maps, whose strings are UTF-8 and whose numbers are of
  the types the scanner gives them.\<close>

theorem parse_dump:
  assumes "json_plain j" and "json_utf8 j" and "json_sorted j"
  shows "bind (dump f j) (parse env) = Inr j"
  using parse_json_text [OF assms] dump_json_text [OF assms(2) json_plain_range [OF assms(1)]] by simp


theorem parse_dump_witness:
  "bind
     (dump (\<lambda>_. ''0.5'')
       (JObject [(''Id'', JUnsigned 7), (''Low'', JInteger (- 3)),
          (''Name'', JArray [JString [CHR 0xC3, CHR 0xA9, CHR 0x0A], JNull])]))
     (parse \<lparr>decimal_point = CHR ''.'', strtod = \<lambda>_. None\<rparr>) =
   Inr (JObject [(''Id'', JUnsigned 7), (''Low'', JInteger (- 3)),
          (''Name'', JArray [JString [CHR 0xC3, CHR 0xA9, CHR 0x0A], JNull])])"
  by (rule parse_dump) (simp_all add: utf8_def follow_ranges_def byte_of_def)

end
