(* ===== verification/Json_Messages.thy ===== *)
theory Json_Messages
  imports Json_Parse Protocol
begin

text \<open>
  The messages of the program (\<open>Protocol\<close>) as texts: every message becomes a value that the JSON
  library writes, when its strings are UTF-8, and reads back unchanged.  A message has no floating-point
  and no negative number, so the conversions of those play no part.
\<close>

text \<open>A value that its text gives back, its strings apart.\<close>

definition json_message :: "json \<Rightarrow> bool" where
  "json_message j \<longleftrightarrow> json_plain j \<and> json_sorted j"

named_theorems message_intros \<open>values made of messages\<close>

lemma member_sets_plain:
  "json_plain (JObject ms) \<Longrightarrow> list_all (\<lambda>m. json_plain (snd m)) kvs \<Longrightarrow> json_plain (JObject (member_sets kvs ms))"
proof (induction kvs arbitrary: ms)
  case (Cons m kvs)
  obtain k v where m: "m = (k, v)" by force
  have "json_plain (JObject (member_set k v ms))"
    using Cons.prems member_set_snd [of k v ms] m by (force simp: image_iff)
  then show ?case using Cons m by (simp del: json_plain.simps)
qed simp

lemma message_object [message_intros]:
  "list_all (\<lambda>m. json_message (snd m)) kvs \<Longrightarrow> json_message (json_object kvs)"
  using member_sets_plain [of "[]" kvs] json_object_sorted [of kvs]
  by (simp add: json_message_def json_object_def list_all_iff)

lemma message_array [message_intros]: "(\<And>x. json_message (put x)) \<Longrightarrow> json_message (json_of_array put xs)"
  by (simp add: json_message_def json_of_array_def)

lemma message_scalars [simp]: "json_message (JString s)" "json_message (JBool b)" "json_message (JUnsigned w)"
  by (simp_all add: json_message_def)

lemma message_enums [simp]:
  "json_message (json_of_service_state s)" "json_message (json_of_action a)" "json_message (json_of_adapter_state t)"
  by (simp_all add: json_of_service_state_def json_of_action_def json_of_adapter_state_def)

lemma messages [simp]:
  "json_message (json_of_serviceinfo a)" "json_message (json_of_servicesrequest b)" "json_message (json_of_service c)"
  "json_message (json_of_control d)" "json_message (json_of_partition e)" "json_message (json_of_update f)"
  "json_message (json_of_system g)" "json_message (json_of_adapter h)"
  by (simp_all add: json_of_serviceinfo_def json_of_servicesrequest_def json_of_service_def json_of_control_def
      json_of_partition_def json_of_update_def json_of_system_def json_of_adapter_def message_intros)

lemma message_lists [simp]:
  "json_message (json_of_services a)" "json_message (json_of_drive b)" "json_message (json_of_drives c)"
  "json_message (json_of_updates d)" "json_message (json_of_adapters e)"
proof -
  show drive: "json_message (json_of_drive b)" for b by (simp add: json_of_drive_def message_intros)
  show "json_message (json_of_services a)" "json_message (json_of_drives c)" "json_message (json_of_updates d)"
    "json_message (json_of_adapters e)"
    by (simp_all add: json_of_services_def json_of_drives_def json_of_updates_def json_of_adapters_def message_intros drive)
qed

text \<open>What the library does with such a value.\<close>

lemma message_text:
  assumes "json_message j"
  shows "if json_utf8 j then dump f j = Inr (json_text f j) \<and> parse env (json_text f j) = Inr j
    else dump f j = Inl (Throw Json_type_error)"
  using assms dump_json_text [of j f] parse_json_text [of j env f] json_plain_range [of j] dump_fails [of j f]
  by (simp add: json_message_def)

lemma json_text_nonempty: "json_plain j \<Longrightarrow> json_text f j \<noteq> []"
proof -
  have "to_string n \<noteq> []" for n using to_string_head [of n] by auto
  then show "json_plain j \<Longrightarrow> json_text f j \<noteq> []" by (cases j) (simp_all add: decimal_text_def quoted_def)
qed

section \<open>Which strings of a message must be UTF-8\<close>

lemma member_set_new: "k \<notin> fst ` set ms \<Longrightarrow> set (member_set k v ms) = insert (k, v) (set ms)"
  by (induction k v ms rule: member_set.induct) auto

lemma member_sets_new:
  "distinct (map fst kvs) \<Longrightarrow> fst ` set kvs \<inter> fst ` set ms = {} \<Longrightarrow> set (member_sets kvs ms) = set kvs \<union> set ms"
proof (induction kvs arbitrary: ms)
  case (Cons m kvs)
  obtain k v where m: "m = (k, v)" by force
  have s: "set (member_set k v ms) = insert (k, v) (set ms)" using Cons.prems m by (intro member_set_new) auto
  have "set (member_sets kvs (member_set k v ms)) = set kvs \<union> set (member_set k v ms)"
    using Cons.prems m s by (intro Cons.IH) auto
  then show ?case using m s by auto
qed simp

definition ascii_text :: "string \<Rightarrow> bool" where
  "ascii_text s \<longleftrightarrow> list_all (\<lambda>c. byte_of c \<le> 0x7F) s"

lemma ascii_utf8: "ascii_text s \<Longrightarrow> utf8 s"
  by (induction s) (simp_all add: ascii_text_def utf8_def follow_ranges_def)

lemma utf8_object:
  assumes "distinct (map fst kvs)" and "list_all (\<lambda>m. ascii_text (fst m)) kvs"
  shows "json_utf8 (json_object kvs) \<longleftrightarrow> list_all (\<lambda>m. json_utf8 (snd m)) kvs"
  using assms member_sets_new [of kvs "[]"] by (auto simp: json_object_def list_all_iff intro: ascii_utf8)

lemma utf8_array: "json_utf8 (json_of_array put xs) \<longleftrightarrow> (\<forall>x \<in> set xs. json_utf8 (put x))"
  by (simp add: json_of_array_def)

lemmas utf8_messages = utf8_object utf8_array ascii_text_def byte_of_def json_of_service_state_def json_of_action_def
  json_of_adapter_state_def

lemma control_utf8: "json_utf8 (json_of_control data) \<longleftrightarrow> utf8 (ctl_id data)"
  by (simp add: json_of_control_def utf8_messages)

lemma system_utf8: "json_utf8 (json_of_system m) \<longleftrightarrow>
    list_all utf8 [sys_hostname m, sys_mac_address m, sys_ip_address m, sys_operating_system m, sys_kernel m,
      sys_architecture m, sys_vm_platform m, sys_icon m]"
  by (simp add: json_of_system_def utf8_messages)

lemma adapters_utf8: "json_utf8 (json_of_adapters m) \<longleftrightarrow>
    (\<forall>a \<in> set (ads_adapters m). utf8 (ad_name a) \<and> utf8 (ad_mac_address a) \<and> utf8 (ad_ip_address a))"
  by (simp add: json_of_adapters_def json_of_adapter_def utf8_messages)

end
