(* ===== verification/Dbus.thy ===== *)
theory Dbus
  imports Prelude
begin

text \<open>
  \<open>externals/ljh/include/ljh/unix/dbus.hpp\<close> and \<open>source/unix/dbus.cpp\<close>: the wrapper
  of libdbus through which the server talks to systemd.  The templates are functions of a type: the
  signature they generate, the value they append to a message, and the value they read from one.  libdbus is
  an argument, the transport that takes a call to its reply; a message is the list of its arguments.  Maps and
  fixed arrays, which the program does not send, are left out.
\<close>

section \<open>Types and values\<close>

text \<open>The types the templates are instantiated with, the values of C++, and what a message carries.
  A double is its 64 bits.\<close>

datatype ctype =
    C_bool
  | C_byte
  | C_int16
  | C_uint16
  | C_int32
  | C_uint32
  | C_int64
  | C_uint64
  | C_double
  | C_string
  | C_path
  | C_vector ctype
  | C_variant "ctype list"
  | C_tuple "ctype list"

datatype cvalue =
    V_bool bool
  | V_byte "8 word"
  | V_half "16 word"
  | V_int "32 word"
  | V_long "64 word"
  | V_string string
  | V_path string
  | V_vector "cvalue list"
  | V_variant nat cvalue
  | V_tuple "cvalue list"

datatype dvalue =
    D_bool bool
  | D_byte "8 word"
  | D_int16 "16 word"
  | D_uint16 "16 word"
  | D_int32 "32 word"
  | D_uint32 "32 word"
  | D_int64 "64 word"
  | D_uint64 "64 word"
  | D_double "64 word"
  | D_string string
  | D_path string
  | D_signature string
  | D_array string "dvalue list"
  | D_variant dvalue
  | D_struct "dvalue list"
  | D_dict dvalue dvalue

text \<open>\<open>dbus_message_iter_get_arg_type\<close>, and the signature of a value.\<close>

definition dtype :: "dvalue \<Rightarrow> char" where
  "dtype d =
     (case d of
        D_bool _ \<Rightarrow> CHR ''b'' | D_byte _ \<Rightarrow> CHR ''y''
      | D_int16 _ \<Rightarrow> CHR ''n'' | D_uint16 _ \<Rightarrow> CHR ''q''
      | D_int32 _ \<Rightarrow> CHR ''i'' | D_uint32 _ \<Rightarrow> CHR ''u''
      | D_int64 _ \<Rightarrow> CHR ''x'' | D_uint64 _ \<Rightarrow> CHR ''t''
      | D_double _ \<Rightarrow> CHR ''d'' | D_string _ \<Rightarrow> CHR ''s''
      | D_path _ \<Rightarrow> CHR ''o'' | D_signature _ \<Rightarrow> CHR ''g''
      | D_array _ _ \<Rightarrow> CHR ''a'' | D_variant _ \<Rightarrow> CHR ''v''
      | D_struct _ \<Rightarrow> CHR ''r'' | D_dict _ _ \<Rightarrow> CHR ''e'')"

fun dsig :: "dvalue \<Rightarrow> string" where
  "dsig (D_array elem ds) = CHR ''a'' # elem"
| "dsig (D_struct ds) = CHR ''('' # concat (map dsig ds) @ [CHR '')'']"
| "dsig (D_dict k v) = CHR ''{'' # dsig k @ dsig v @ [CHR ''}'']"
| "dsig d = [dtype d]"

text \<open>\<open>_i_type_value_f\<close>, \<open>_i_type_fixed_array_f\<close> and \<open>_i_gen_sig_f\<close>.\<close>

definition type_value :: "ctype \<Rightarrow> char" where
  "type_value t =
     (case t of
        C_vector _ \<Rightarrow> CHR ''a'' | C_variant _ \<Rightarrow> CHR ''v'' | C_string \<Rightarrow> CHR ''s''
      | C_int32 \<Rightarrow> CHR ''i'' | C_uint32 \<Rightarrow> CHR ''u''
      | C_int16 \<Rightarrow> CHR ''n'' | C_uint16 \<Rightarrow> CHR ''q''
      | C_int64 \<Rightarrow> CHR ''x'' | C_uint64 \<Rightarrow> CHR ''t''
      | C_byte \<Rightarrow> CHR ''y'' | C_path \<Rightarrow> CHR ''o'' | C_double \<Rightarrow> CHR ''d''
      | C_tuple _ \<Rightarrow> CHR ''r'' | C_bool \<Rightarrow> CHR ''b'')"

definition type_fixed_array :: "ctype \<Rightarrow> bool" where
  "type_fixed_array t \<longleftrightarrow> type_value t \<in> set ''ybnqiuxtd''"

fun gen_sig :: "ctype \<Rightarrow> string" where
  "gen_sig (C_vector t) = CHR ''a'' # gen_sig t"
| "gen_sig (C_tuple ts) = CHR ''('' # concat (map gen_sig ts) @ [CHR '')'']"
| "gen_sig t = [type_value t]"

text \<open>The value of a variable without an initialiser, or of \<open>emplace_back()\<close>.\<close>

fun default_value :: "ctype \<Rightarrow> cvalue" where
  "default_value C_bool = V_bool False"
| "default_value C_byte = V_byte 0"
| "default_value C_int16 = V_half 0"
| "default_value C_uint16 = V_half 0"
| "default_value C_int32 = V_int 0"
| "default_value C_uint32 = V_int 0"
| "default_value C_int64 = V_long 0"
| "default_value C_uint64 = V_long 0"
| "default_value C_double = V_long 0"
| "default_value C_string = V_string []"
| "default_value C_path = V_path []"
| "default_value (C_vector t) = V_vector []"
| "default_value (C_variant ts) = V_variant 0 (case ts of [] \<Rightarrow> V_bool False | t # _ \<Rightarrow> default_value t)"
| "default_value (C_tuple ts) = V_tuple (map default_value ts)"

section \<open>message::add\<close>

lemma size_alternative [termination_simp]: "i < length ts \<Longrightarrow> size (ts ! i) < Suc (size_list size ts)"
  by (metis le_imp_less_Suc nth_mem order_refl size_list_estimation')

text \<open>A value of another type than \<open>t\<close> does not exist in C++.\<close>

fun add_value :: "ctype \<Rightarrow> cvalue \<Rightarrow> dvalue outcome"
  and add_values :: "ctype list \<Rightarrow> cvalue list \<Rightarrow> dvalue list outcome" where
  "add_value C_bool v = (case v of V_bool b \<Rightarrow> Inr (D_bool b) | _ \<Rightarrow> Inl UB)"
| "add_value C_byte v = (case v of V_byte w \<Rightarrow> Inr (D_byte w) | _ \<Rightarrow> Inl UB)"
| "add_value C_int16 v = (case v of V_half w \<Rightarrow> Inr (D_int16 w) | _ \<Rightarrow> Inl UB)"
| "add_value C_uint16 v = (case v of V_half w \<Rightarrow> Inr (D_uint16 w) | _ \<Rightarrow> Inl UB)"
| "add_value C_int32 v = (case v of V_int w \<Rightarrow> Inr (D_int32 w) | _ \<Rightarrow> Inl UB)"
| "add_value C_uint32 v = (case v of V_int w \<Rightarrow> Inr (D_uint32 w) | _ \<Rightarrow> Inl UB)"
| "add_value C_int64 v = (case v of V_long w \<Rightarrow> Inr (D_int64 w) | _ \<Rightarrow> Inl UB)"
| "add_value C_uint64 v = (case v of V_long w \<Rightarrow> Inr (D_uint64 w) | _ \<Rightarrow> Inl UB)"
| "add_value C_double v = (case v of V_long w \<Rightarrow> Inr (D_double w) | _ \<Rightarrow> Inl UB)"
| "add_value C_string v = (case v of V_string s \<Rightarrow> Inr (D_string (c_str s)) | _ \<Rightarrow> Inl UB)"
| "add_value C_path v = (case v of V_path s \<Rightarrow> Inr (D_path (c_str s)) | _ \<Rightarrow> Inl UB)"
| "add_value (C_vector t) v =
     (case v of
        V_vector vs \<Rightarrow> bind (mapM (add_value t) vs) (\<lambda>ds. Inr (D_array (gen_sig t) ds))
      | _ \<Rightarrow> Inl UB)"
| "add_value (C_variant ts) v =
     (case v of
        V_variant i u \<Rightarrow>
          (if i < length ts then bind (add_value (ts ! i) u) (\<lambda>d. Inr (D_variant d)) else Inl UB)
      | _ \<Rightarrow> Inl UB)"
| "add_value (C_tuple ts) v =
     (case v of V_tuple vs \<Rightarrow> bind (add_values ts vs) (\<lambda>ds. Inr (D_struct ds)) | _ \<Rightarrow> Inl UB)"
| "add_values [] vs = (if vs = [] then Inr [] else Inl UB)"
| "add_values (t # ts) vs =
     (case vs of
        [] \<Rightarrow> Inl UB
      | v # vs' \<Rightarrow> bind (add_value t v) (\<lambda>d. bind (add_values ts vs') (\<lambda>ds. Inr (d # ds))))"

section \<open>message::get\<close>

text \<open>The loop over the elements of an array that is not empty: \<open>get\<close> tells whether another
  item follows.\<close>

fun get_elems :: "(dvalue \<Rightarrow> cvalue outcome) \<Rightarrow> dvalue list \<Rightarrow> cvalue list outcome" where
  "get_elems f [] = Inl (Throw Runtime_error)"
| "get_elems f (d # items) =
     bind (f d) (\<lambda>v. if items \<noteq> [] then bind (get_elems f items) (\<lambda>vs. Inr (v # vs)) else Inr [v])"

text \<open>\<open>get\<close> of the item at the iterator into a variable that holds \<open>v\<close>.  The members of
  a variant and of a tuple go through \<open>wrapper_v\<close> and \<open>wrapper_t\<close>, which pass over a
  member when the item is of another type: the variable keeps its value and the iterator its place.\<close>

fun get_value :: "ctype \<Rightarrow> cvalue \<Rightarrow> dvalue \<Rightarrow> cvalue outcome"
  and get_members :: "ctype list \<Rightarrow> cvalue list \<Rightarrow> dvalue list \<Rightarrow> cvalue list outcome"
  and get_alternatives :: "nat \<Rightarrow> ctype list \<Rightarrow> nat \<Rightarrow> cvalue \<Rightarrow> dvalue list \<Rightarrow> cvalue outcome" where
  "get_value C_bool v d = (case d of D_bool b \<Rightarrow> Inr (V_bool b) | _ \<Rightarrow> Inl (Throw Runtime_error))"
| "get_value C_byte v d = (case d of D_byte w \<Rightarrow> Inr (V_byte w) | _ \<Rightarrow> Inl (Throw Runtime_error))"
| "get_value C_int16 v d = (case d of D_int16 w \<Rightarrow> Inr (V_half w) | _ \<Rightarrow> Inl (Throw Runtime_error))"
| "get_value C_uint16 v d = (case d of D_uint16 w \<Rightarrow> Inr (V_half w) | _ \<Rightarrow> Inl (Throw Runtime_error))"
| "get_value C_int32 v d = (case d of D_int32 w \<Rightarrow> Inr (V_int w) | _ \<Rightarrow> Inl (Throw Runtime_error))"
| "get_value C_uint32 v d = (case d of D_uint32 w \<Rightarrow> Inr (V_int w) | _ \<Rightarrow> Inl (Throw Runtime_error))"
| "get_value C_int64 v d = (case d of D_int64 w \<Rightarrow> Inr (V_long w) | _ \<Rightarrow> Inl (Throw Runtime_error))"
| "get_value C_uint64 v d = (case d of D_uint64 w \<Rightarrow> Inr (V_long w) | _ \<Rightarrow> Inl (Throw Runtime_error))"
| "get_value C_double v d = (case d of D_double w \<Rightarrow> Inr (V_long w) | _ \<Rightarrow> Inl (Throw Runtime_error))"
| "get_value C_string v d = (case d of D_string s \<Rightarrow> Inr (V_string s) | _ \<Rightarrow> Inl (Throw Runtime_error))"
| "get_value C_path v d = (case d of D_path s \<Rightarrow> Inr (V_path s) | _ \<Rightarrow> Inl (Throw Runtime_error))"
| "get_value (C_vector t) v d =
     (case d of
        D_array _ ds \<Rightarrow>
          (case v of
             V_vector vs \<Rightarrow>
               (if ds = [] then Inr (V_vector vs)
                else bind (get_elems (get_value t (default_value t)) ds) (\<lambda>ws. Inr (V_vector (vs @ ws))))
           | _ \<Rightarrow> Inl UB)
      | _ \<Rightarrow> Inl (Throw Runtime_error))"
| "get_value (C_variant ts) v d =
     (case d of
        D_variant e \<Rightarrow>
          (case v of
             V_variant i u \<Rightarrow> bind (get_alternatives 0 ts i u [e]) (\<lambda>u'. Inr (V_variant i u'))
           | _ \<Rightarrow> Inl UB)
      | _ \<Rightarrow> Inl (Throw Runtime_error))"
| "get_value (C_tuple ts) v d =
     (case d of
        D_struct ds \<Rightarrow>
          (case v of
             V_tuple vs \<Rightarrow> bind (get_members ts vs ds) (\<lambda>ws. Inr (V_tuple ws))
           | _ \<Rightarrow> Inl UB)
      | _ \<Rightarrow> Inl (Throw Runtime_error))"
| "get_members [] vs ds = Inr vs"
| "get_members (t # ts) vs ds =
     (case vs of
        [] \<Rightarrow> Inl UB
      | v # vs' \<Rightarrow>
          (case ds of
             [] \<Rightarrow> bind (get_members ts vs' ds) (\<lambda>ws. Inr (v # ws))
           | d # ds' \<Rightarrow>
               (if dtype d = type_value t
                then bind (get_value t v d) (\<lambda>w. bind (get_members ts vs' ds') (\<lambda>ws. Inr (w # ws)))
                else bind (get_members ts vs' ds) (\<lambda>ws. Inr (v # ws)))))"
| "get_alternatives k [] i u ds = Inr u"
| "get_alternatives k (t # ts) i u ds =
     (case ds of
        [] \<Rightarrow> get_alternatives (Suc k) ts i u ds
      | d # ds' \<Rightarrow>
          (if dtype d = type_value t
           then (if i = k then bind (get_value t u d) (\<lambda>u'. get_alternatives (Suc k) ts i u' ds')
                 else Inl (Throw Std_exception))
           else get_alternatives (Suc k) ts i u ds))"

text \<open>One argument of \<open>run\<close>, with the items that follow it.\<close>

definition get_arg :: "ctype \<Rightarrow> cvalue \<Rightarrow> dvalue list \<Rightarrow> (cvalue \<times> dvalue list) outcome" where
  "get_arg t v items =
     (case items of
        [] \<Rightarrow> Inl (Throw Runtime_error)
      | d # rest \<Rightarrow> bind (get_value t v d) (\<lambda>w. Inr (w, rest)))"

fun get_args :: "(ctype \<times> cvalue) list \<Rightarrow> dvalue list \<Rightarrow> cvalue list outcome" where
  "get_args [] items = Inr []"
| "get_args ((t, v) # targets) items =
     bind (get_arg t v items) (\<lambda>(w, rest). bind (get_args targets rest) (\<lambda>ws. Inr (w # ws)))"

section \<open>Calls\<close>

text \<open>An error has a name and a message.  The reply to a call is an error of libdbus, an error message,
  or the arguments the method returns; the transport is \<open>dbus_connection_send_with_reply_and_block\<close>.\<close>

type_synonym derror = "string \<times> string"

datatype dreply = Bus_error derror | Error_message derror | Method_return "dvalue list"

record interface =
  itf_server :: string
  itf_path :: string
  itf_name :: string

record dcall =
  call_server :: string
  call_path :: string
  call_interface :: string
  call_method :: string
  call_args :: "dvalue list"

type_synonym 'w transport = "dcall \<Rightarrow> 'w \<Rightarrow> dreply \<times> 'w"

definition new_message :: "interface \<Rightarrow> string \<Rightarrow> string \<Rightarrow> dcall" where
  "new_message base interface method =
     \<lparr>call_server = itf_server base, call_path = itf_path base, call_interface = interface,
      call_method = method, call_args = []\<rparr>"

definition itf_call :: "interface \<Rightarrow> string \<Rightarrow> dcall" where
  "itf_call i method = new_message i (itf_name i) method"

fun message_args :: "(ctype \<times> cvalue) list \<Rightarrow> dcall \<Rightarrow> dcall outcome" where
  "message_args [] c = Inr c"
| "message_args ((t, v) # args) c =
     bind (add_value t v) (\<lambda>d. message_args args (c\<lparr>call_args := call_args c @ [d]\<rparr>))"

text \<open>\<open>run(args...)\<close>, \<open>run<A>()\<close> and \<open>run<void>()\<close>, which drops the error.\<close>

definition message_run :: "'w transport \<Rightarrow> (ctype \<times> cvalue) list \<Rightarrow> dcall \<Rightarrow> ('w, cvalue list) cmd" where
  "message_run send targets c w =
     (case send c w of
        (Bus_error e, w') \<Rightarrow> (Inl (Throw Dbus_error), w')
      | (Error_message e, w') \<Rightarrow> (Inl (Throw Dbus_error), w')
      | (Method_return items, w') \<Rightarrow> (get_args targets items, w'))"

definition message_run_as :: "'w transport \<Rightarrow> ctype \<Rightarrow> dcall \<Rightarrow> ('w, cvalue) cmd" where
  "message_run_as send t c = cbind (message_run send [(t, default_value t)] c) (\<lambda>vs. clift (vec_get vs 0))"

definition message_run_void :: "'w transport \<Rightarrow> dcall \<Rightarrow> ('w, unit) cmd" where
  "message_run_void send c w = (Inr (), snd (send c w))"

text \<open>\<open>interface::get\<close>: the call for a property, and its value as a \<open>T\<close>, the only
  alternative of the variant it is read into.\<close>

definition get_property_call :: "interface \<Rightarrow> string \<Rightarrow> dcall outcome" where
  "get_property_call i property =
     message_args [(C_string, V_string (itf_name i)), (C_string, V_string property)]
       (new_message i ''org.freedesktop.DBus.Properties'' ''Get'')"

definition itf_get :: "'w transport \<Rightarrow> ctype \<Rightarrow> interface \<Rightarrow> string \<Rightarrow> ('w, cvalue) cmd" where
  "itf_get send t i property =
     cbind (clift (get_property_call i property)) (\<lambda>c.
     cbind (message_run_as send (C_variant [t]) c) (\<lambda>v.
     clift (case v of V_variant k u \<Rightarrow> if k = 0 then Inr u else Inl (Throw Std_exception) | _ \<Rightarrow> Inl UB)))"

section \<open>connection and error\<close>

text \<open>The calls that count the references of a connection; None is the null pointer.\<close>

datatype ref_op = Bus_get nat | Conn_ref "nat option" | Conn_unref "nat option"

definition conn_copy :: "nat option \<Rightarrow> nat option \<times> ref_op list" where
  "conn_copy other = (other, [Conn_ref other])"

definition conn_copy_assign :: "nat option \<Rightarrow> nat option \<Rightarrow> nat option \<times> ref_op list" where
  "conn_copy_assign this other = (other, [Conn_ref other])"

definition conn_move :: "nat option \<Rightarrow> nat option \<times> nat option" where
  "conn_move other = (other, None)"

definition conn_move_assign :: "nat option \<Rightarrow> nat option \<Rightarrow> nat option \<times> nat option" where
  "conn_move_assign this other = (other, None)"

definition conn_destroy :: "nat option \<Rightarrow> ref_op list" where
  "conn_destroy data = [Conn_unref data]"

text \<open>An error that is not set has no name, and assigning it to one that is set changes nothing.\<close>

definition error_move :: "derror option \<Rightarrow> derror option \<times> derror option" where
  "error_move other = (other, None)"

definition error_move_assign :: "derror option \<Rightarrow> derror option \<Rightarrow> derror option \<times> derror option" where
  "error_move_assign this other = (if other \<noteq> None then (other, None) else (this, other))"

definition error_name :: "derror option \<Rightarrow> string outcome" where
  "error_name e = (case e of None \<Rightarrow> Inl UB | Some (name, text) \<Rightarrow> Inr name)"

definition error_text :: "derror option \<Rightarrow> string outcome" where
  "error_text e = (case e of None \<Rightarrow> Inl UB | Some (name, text) \<Rightarrow> Inr text)"

section \<open>What is written is read back\<close>

text \<open>A value of a type, with strings that end at their NUL, and every variant holding its first
  alternative.\<close>

fun sendable :: "ctype \<Rightarrow> cvalue \<Rightarrow> bool"
  and all_sendable :: "ctype list \<Rightarrow> cvalue list \<Rightarrow> bool" where
  "sendable C_bool v \<longleftrightarrow> (case v of V_bool _ \<Rightarrow> True | _ \<Rightarrow> False)"
| "sendable C_byte v \<longleftrightarrow> (case v of V_byte _ \<Rightarrow> True | _ \<Rightarrow> False)"
| "sendable C_int16 v \<longleftrightarrow> (case v of V_half _ \<Rightarrow> True | _ \<Rightarrow> False)"
| "sendable C_uint16 v \<longleftrightarrow> (case v of V_half _ \<Rightarrow> True | _ \<Rightarrow> False)"
| "sendable C_int32 v \<longleftrightarrow> (case v of V_int _ \<Rightarrow> True | _ \<Rightarrow> False)"
| "sendable C_uint32 v \<longleftrightarrow> (case v of V_int _ \<Rightarrow> True | _ \<Rightarrow> False)"
| "sendable C_int64 v \<longleftrightarrow> (case v of V_long _ \<Rightarrow> True | _ \<Rightarrow> False)"
| "sendable C_uint64 v \<longleftrightarrow> (case v of V_long _ \<Rightarrow> True | _ \<Rightarrow> False)"
| "sendable C_double v \<longleftrightarrow> (case v of V_long _ \<Rightarrow> True | _ \<Rightarrow> False)"
| "sendable C_string v \<longleftrightarrow> (case v of V_string s \<Rightarrow> CHR 0x00 \<notin> set s | _ \<Rightarrow> False)"
| "sendable C_path v \<longleftrightarrow> (case v of V_path s \<Rightarrow> CHR 0x00 \<notin> set s | _ \<Rightarrow> False)"
| "sendable (C_vector t) v \<longleftrightarrow> (case v of V_vector vs \<Rightarrow> (\<forall>u \<in> set vs. sendable t u) | _ \<Rightarrow> False)"
| "sendable (C_variant ts) v \<longleftrightarrow>
     (case ts of [] \<Rightarrow> False | t # _ \<Rightarrow> (case v of V_variant i u \<Rightarrow> i = 0 \<and> sendable t u | _ \<Rightarrow> False))"
| "sendable (C_tuple ts) v \<longleftrightarrow> (case v of V_tuple vs \<Rightarrow> all_sendable ts vs | _ \<Rightarrow> False)"
| "all_sendable [] vs \<longleftrightarrow> vs = []"
| "all_sendable (t # ts) vs \<longleftrightarrow>
     (case vs of [] \<Rightarrow> False | v # vs' \<Rightarrow> sendable t v \<and> all_sendable ts vs')"

lemma mapM_elems:
  assumes "\<And>u. u \<in> set vs \<Longrightarrow> \<exists>d. add_value t u = Inr d \<and> get_value t (default_value t) d = Inr u"
  shows "\<exists>ds. mapM (add_value t) vs = Inr ds \<and> (ds = [] \<longleftrightarrow> vs = []) \<and>
    (vs \<noteq> [] \<longrightarrow> get_elems (get_value t (default_value t)) ds = Inr vs)"
  using assms
proof (induction vs)
  case Nil
  then show ?case by simp
next
  case (Cons u vs)
  obtain d where "add_value t u = Inr d" "get_value t (default_value t) d = Inr u"
    using Cons.prems [of u] by auto
  moreover obtain ds where "mapM (add_value t) vs = Inr ds" "ds = [] \<longleftrightarrow> vs = []"
    "vs \<noteq> [] \<longrightarrow> get_elems (get_value t (default_value t)) ds = Inr vs"
    using Cons by auto
  ultimately show ?case by (cases "vs = []") auto
qed

lemma sent_received:
  "sendable t v \<Longrightarrow> \<exists>d. add_value t v = Inr d \<and> dtype d = type_value t \<and> dsig d = gen_sig t \<and>
     get_value t (default_value t) d = Inr v"
  "all_sendable ts vs \<Longrightarrow> \<exists>ds. add_values ts vs = Inr ds \<and> map dsig ds = map gen_sig ts \<and>
     get_members ts (map default_value ts) ds = Inr vs"
proof (induction t v and ts vs rule: sendable_all_sendable.induct)
  case (12 t v)
  then obtain vs where v: "v = V_vector vs" "\<And>u. u \<in> set vs \<Longrightarrow> sendable t u" by (auto split: cvalue.splits)
  then have "\<exists>ds. mapM (add_value t) vs = Inr ds \<and> (ds = [] \<longleftrightarrow> vs = []) \<and>
      (vs \<noteq> [] \<longrightarrow> get_elems (get_value t (default_value t)) ds = Inr vs)"
    using "12.IH" by (intro mapM_elems) blast
  then show ?case using v(1) by (auto simp: dtype_def type_value_def)
next
  case (13 ts v)
  then obtain t ts' u where v: "ts = t # ts'" "v = V_variant 0 u" "sendable t u"
    by (auto split: cvalue.splits list.splits)
  then obtain d where d: "add_value t u = Inr d" "dtype d = type_value t" "get_value t (default_value t) d = Inr u"
    using "13.IH" by blast
  have "get_alternatives k ts'' 0 u [] = Inr u" for k ts'' by (induction ts'' arbitrary: k) simp_all
  with d v show ?case by (simp add: dtype_def type_value_def)
next
  case (14 ts v)
  then obtain vs where v: "v = V_tuple vs" "all_sendable ts vs" by (auto split: cvalue.splits)
  with "14.IH" obtain ds where "add_values ts vs = Inr ds" "map dsig ds = map gen_sig ts"
    "get_members ts (map default_value ts) ds = Inr vs" by blast
  then show ?case using v(1) by (simp add: dtype_def type_value_def)
next
  case (16 t ts vs)
  then obtain v vs' where v: "vs = v # vs'" "sendable t v" "all_sendable ts vs'" by (auto split: list.splits)
  with "16.IH" show ?case by fastforce
qed (auto simp: dtype_def type_value_def c_str_id split: cvalue.splits)

text \<open>A variant of another type than the one asked for is no error: the result is the default value.
  A second alternative is never read, because the variable holds the first one.\<close>

lemma variant_other_type:
  "dtype d \<noteq> type_value t \<Longrightarrow> get_value (C_variant [t]) (V_variant 0 u) (D_variant d) = Inr (V_variant 0 u)"
  by simp

lemma variant_second_alternative:
  "dtype d = type_value t' \<Longrightarrow> type_value t \<noteq> type_value t' \<Longrightarrow>
   get_value (C_variant [t, t']) (V_variant 0 u) (D_variant d) = Inl (Throw Std_exception)"
  by simp

lemma void_drops_error: "fst (message_run_void send c w) = Inr ()"
  by (simp add: message_run_void_def)

text \<open>References: those taken less those given back.\<close>

fun ref_balance :: "nat \<Rightarrow> ref_op list \<Rightarrow> int" where
  "ref_balance h [] = 0"
| "ref_balance h (Bus_get h' # ops) = (if h' = h then 1 else 0) + ref_balance h ops"
| "ref_balance h (Conn_ref c # ops) = (if c = Some h then 1 else 0) + ref_balance h ops"
| "ref_balance h (Conn_unref c # ops) = ref_balance h ops - (if c = Some h then 1 else 0)"

lemma ref_balance_append [simp]: "ref_balance h (ops @ ops') = ref_balance h ops + ref_balance h ops'"
  by (induction h ops rule: ref_balance.induct) simp_all

text \<open>A connection and its copies give back what they took; one that was assigned to does not give back
  the reference it held before.\<close>

lemma copy_released:
  "ref_balance h (Bus_get h # snd (conn_copy (Some h)) @ conn_destroy (fst (conn_copy (Some h))) @ conn_destroy (Some h)) = 0"
  by (simp add: conn_copy_def conn_destroy_def)

lemma assigned_leaks:
  assumes "old \<noteq> h"
  shows "ref_balance old (Bus_get old # Bus_get h # snd (conn_copy_assign (Some old) (Some h)) @
     conn_destroy (fst (conn_copy_assign (Some old) (Some h))) @ conn_destroy (Some h)) = 1"
  using assms by (simp add: conn_copy_assign_def conn_destroy_def)

section \<open>Properties\<close>



end
