(* ===== verification/Systemd_Bus.thy ===== *)
theory Systemd_Bus
  imports Services Dbus
begin

text \<open>
  The calls of \<open>src/server/services.cpp\<close> on the bus, through the wrapper of \<open>Dbus\<close>: the
  interfaces, the methods, the types of the arguments and of the replies.  They make up the records that
  \<open>Services\<close> takes for the bus; the transport below them is libdbus and systemd.
\<close>

section \<open>The calls\<close>

definition dbus_interface :: interface where
  "dbus_interface =
     \<lparr>itf_server = ''org.freedesktop.DBus'', itf_path = ''/org/freedesktop/DBus'', itf_name = ''org.freedesktop.DBus''\<rparr>"

definition systemd_manager :: interface where
  "systemd_manager =
     \<lparr>itf_server = ''org.freedesktop.systemd1'', itf_path = ''/org/freedesktop/systemd1'',
      itf_name = ''org.freedesktop.systemd1.Manager''\<rparr>"

definition systemd_unit :: "string \<Rightarrow> interface" where
  "systemd_unit path =
     \<lparr>itf_server = ''org.freedesktop.systemd1'', itf_path = path, itf_name = ''org.freedesktop.systemd1.Unit''\<rparr>"

text \<open>\<open>connection system_bus(bus::SYSTEM)\<close> throws when \<open>dbus_bus_get\<close> sets its error.\<close>

definition open_bus :: "bool \<Rightarrow> ('w, unit) cmd" where
  "open_bus online = (if online then cret () else cfail (Throw Dbus_error))"

text \<open>The members of C++ values.  \<open>data()\<close> of a path is taken as a \<open>const char*\<close>.\<close>

definition as_string :: "cvalue \<Rightarrow> string outcome" where
  "as_string v = (case v of V_string s \<Rightarrow> Inr s | _ \<Rightarrow> Inl UB)"

definition path_data :: "cvalue \<Rightarrow> string outcome" where
  "path_data v = (case v of V_path s \<Rightarrow> Inr (c_str s) | _ \<Rightarrow> Inl UB)"

definition elements :: "cvalue \<Rightarrow> cvalue list outcome" where
  "elements v = (case v of V_vector vs \<Rightarrow> Inr vs | _ \<Rightarrow> Inl UB)"

definition tuple_get :: "nat \<Rightarrow> cvalue \<Rightarrow> cvalue outcome" where
  "tuple_get i v = (case v of V_tuple vs \<Rightarrow> vec_get vs i | _ \<Rightarrow> Inl UB)"

definition list_names :: "bool \<Rightarrow> 'w transport \<Rightarrow> ('w, string list) cmd" where
  "list_names online send =
     cbind (open_bus online) (\<lambda>_.
     cbind (message_run_as send (C_vector C_string) (itf_call dbus_interface ''ListNames'')) (\<lambda>v.
     clift (bind (elements v) (mapM as_string))))"

text \<open>The tuple \<open>ListUnits\<close> is read into, of which members 0, 1 and 8 are used.\<close>

definition unit_tuple :: ctype where
  "unit_tuple = C_tuple [C_string, C_string, C_string, C_string, C_string, C_path, C_uint32, C_string, C_path]"

definition listed_unit :: "cvalue \<Rightarrow> (string \<times> string \<times> string) outcome" where
  "listed_unit service =
     bind (bind (tuple_get 8 service) path_data) (\<lambda>path.
     bind (bind (tuple_get 0 service) as_string) (\<lambda>ident.
     bind (bind (tuple_get 1 service) as_string) (\<lambda>description.
     Inr (ident, description, path))))"

definition call_list_units :: "bool \<Rightarrow> 'w transport \<Rightarrow> ('w, (string \<times> string \<times> string) list) cmd" where
  "call_list_units online send =
     cbind (open_bus online) (\<lambda>_.
     cbind (message_run_as send (C_vector unit_tuple) (itf_call systemd_manager ''ListUnits'')) (\<lambda>v.
     clift (bind (elements v) (mapM listed_unit))))"

definition call_list_unit_files :: "'w transport \<Rightarrow> ('w, string list) cmd" where
  "call_list_unit_files send =
     cbind (message_run_as send (C_vector (C_tuple [C_string, C_string])) (itf_call systemd_manager ''ListUnitFiles'')) (\<lambda>v.
     clift (bind (elements v) (mapM (\<lambda>service. bind (tuple_get 0 service) as_string))))"

definition call_load_unit :: "'w transport \<Rightarrow> string \<Rightarrow> ('w, string) cmd" where
  "call_load_unit send ident =
     cbind (clift (message_args [(C_string, V_string ident)] (itf_call systemd_manager ''LoadUnit''))) (\<lambda>c.
     cbind (message_run_as send C_path c) (\<lambda>v. clift (path_data v)))"

definition call_unit_property :: "'w transport \<Rightarrow> string \<Rightarrow> string \<Rightarrow> ('w, string) cmd" where
  "call_unit_property send path property =
     cbind (itf_get send C_string (systemd_unit path) property) (\<lambda>v. clift (as_string v))"

text \<open>\<open>Stop\<close>, \<open>Start\<close> and \<open>Restart\<close> of a unit.\<close>

definition call_on_unit :: "'w transport \<Rightarrow> string \<Rightarrow> string \<Rightarrow> ('w, unit) cmd" where
  "call_on_unit send path mth =
     cbind (clift (message_args [(C_string, V_string ''replace'')] (itf_call (systemd_unit path) mth))) (\<lambda>c.
     cbind (message_run_as send C_path c) (\<lambda>_. cret ()))"

definition changes_tuple :: ctype where
  "changes_tuple = C_tuple [C_string, C_string, C_string]"

definition call_enable_files :: "'w transport \<Rightarrow> string \<Rightarrow> ('w, unit) cmd" where
  "call_enable_files send ident =
     cbind (clift (message_args
         [(C_vector C_string, V_vector [V_string ident]), (C_bool, V_bool False), (C_bool, V_bool False)]
         (itf_call systemd_manager ''EnableUnitFiles''))) (\<lambda>c.
     cbind (message_run send [(C_bool, V_bool False), (C_vector changes_tuple, V_vector [])] c) (\<lambda>_. cret ()))"

definition call_disable_files :: "'w transport \<Rightarrow> string \<Rightarrow> ('w, unit) cmd" where
  "call_disable_files send ident =
     cbind (clift (message_args
         [(C_vector C_string, V_vector [V_string ident]), (C_bool, V_bool False)]
         (itf_call systemd_manager ''DisableUnitFiles''))) (\<lambda>c.
     cbind (message_run send [(C_vector changes_tuple, V_vector [])] c) (\<lambda>_. cret ()))"

text \<open>The two records of \<open>Services\<close>.  The listing asks a bus that does not change meanwhile.\<close>

definition asks :: "(dcall \<Rightarrow> dreply) \<Rightarrow> unit transport" where
  "asks reply c w = (reply c, w)"

definition systemd_bus_of :: "bool \<Rightarrow> (dcall \<Rightarrow> dreply) \<Rightarrow> systemd_bus" where
  "systemd_bus_of online reply =
     \<lparr>list_units = fst (call_list_units online (asks reply) ()),
      list_unit_files = fst (call_list_unit_files (asks reply) ()),
      load_unit = (\<lambda>ident. fst (call_load_unit (asks reply) ident ())),
      unit_property = (\<lambda>path property. fst (call_unit_property (asks reply) path property ()))\<rparr>"

definition unit_calls_of :: "bool \<Rightarrow> 'w transport \<Rightarrow> 'w unit_calls" where
  "unit_calls_of online send =
     \<lparr>uc_load = (\<lambda>ident. cbind (open_bus online) (\<lambda>_. call_load_unit send ident)),
      uc_call = call_on_unit send, uc_property = call_unit_property send,
      uc_enable_files = call_enable_files send, uc_disable_files = call_disable_files send\<rparr>"

section \<open>Replies\<close>

text \<open>What \<open>ListUnits\<close> returns for a unit, as systemd documents it: \<open>a(ssssssouso)\<close>.  The
  sixth string is the unit that is followed; the tuple of the program has none.\<close>

record unit_entry =
  ue_name :: string
  ue_description :: string
  ue_load :: string
  ue_active :: string
  ue_sub :: string
  ue_followed :: string
  ue_path :: string
  ue_job :: "32 word"
  ue_job_type :: string
  ue_job_path :: string

definition unit_struct :: "unit_entry \<Rightarrow> dvalue" where
  "unit_struct u =
     D_struct [D_string (ue_name u), D_string (ue_description u), D_string (ue_load u), D_string (ue_active u),
       D_string (ue_sub u), D_string (ue_followed u), D_path (ue_path u), D_uint32 (ue_job u),
       D_string (ue_job_type u), D_path (ue_job_path u)]"

definition file_struct :: "string \<times> string \<Rightarrow> dvalue" where
  "file_struct f = D_struct [D_string (fst f), D_string (snd f)]"

lemma get_elems_map:
  assumes "xs \<noteq> []" and "\<And>x. x \<in> set xs \<Longrightarrow> f (enc x) = Inr (g x)"
  shows "get_elems f (map enc xs) = Inr (map g xs)"
  using assms by (induction xs rule: list_nonempty_induct) auto

lemma message_run_as_return:
  "send c w = (Method_return (d # rest), w') \<Longrightarrow>
   message_run_as send t c w = (get_value t (default_value t) d, w')"
  by (cases "get_value t (default_value t) d")
    (simp_all add: message_run_as_def message_run_def cbind_def get_arg_def)

text \<open>How the tuple is filled: the path of the job and its number find no item of their type and are passed
  over, the last string takes the followed unit, and the last member the path of the unit.\<close>

lemma unit_read:
  "get_value unit_tuple (default_value unit_tuple) (unit_struct u) =
     Inr (V_tuple [V_string (ue_name u), V_string (ue_description u), V_string (ue_load u), V_string (ue_active u),
       V_string (ue_sub u), V_path [], V_int 0, V_string (ue_followed u), V_path (ue_path u)])"
  by (simp add: unit_tuple_def unit_struct_def dtype_def type_value_def)

lemma array_read:
  assumes "\<And>x. x \<in> set xs \<Longrightarrow> get_value t (default_value t) (enc x) = Inr (g x)"
  shows "get_value (C_vector t) (default_value (C_vector t)) (D_array s (map enc xs)) = Inr (V_vector (map g xs))"
  using get_elems_map [of xs "get_value t (default_value t)" enc g] assms by (cases "xs = []") simp_all

lemma list_units_reply:
  assumes "reply (itf_call systemd_manager ''ListUnits'') = Method_return [D_array s (map unit_struct us)]"
  shows "list_units (systemd_bus_of True reply) = Inr (map (\<lambda>u. (ue_name u, ue_description u, c_str (ue_path u))) us)"
proof -
  let ?g = "\<lambda>u. V_tuple [V_string (ue_name u), V_string (ue_description u), V_string (ue_load u), V_string (ue_active u),
       V_string (ue_sub u), V_path [], V_int 0, V_string (ue_followed u), V_path (ue_path u)]"
  have "mapM listed_unit (map ?g us) = Inr (map (\<lambda>u. (ue_name u, ue_description u, c_str (ue_path u))) us)"
    by (induction us) (simp_all add: listed_unit_def tuple_get_def path_data_def as_string_def)
  moreover have "message_run_as (asks reply) (C_vector unit_tuple) (itf_call systemd_manager ''ListUnits'') () =
      (Inr (V_vector (map ?g us)), ())"
    using message_run_as_return [of "asks reply", OF _] array_read [of us unit_tuple unit_struct ?g s] assms
    by (simp add: asks_def unit_read)
  ultimately show ?thesis
    by (simp add: systemd_bus_of_def call_list_units_def open_bus_def cbind_def elements_def)
qed

lemma list_unit_files_reply:
  assumes "reply (itf_call systemd_manager ''ListUnitFiles'') = Method_return [D_array s (map file_struct fs)]"
  shows "list_unit_files (systemd_bus_of online reply) = Inr (map fst fs)"
proof -
  let ?t = "C_tuple [C_string, C_string]" and ?g = "\<lambda>f. V_tuple [V_string (fst f), V_string (snd f)]"
  have "mapM (\<lambda>service. bind (tuple_get 0 service) as_string) (map ?g fs) = Inr (map fst fs)"
    by (induction fs) (simp_all add: tuple_get_def as_string_def)
  moreover have "message_run_as (asks reply) (C_vector ?t) (itf_call systemd_manager ''ListUnitFiles'') () =
      (Inr (V_vector (map ?g fs)), ())"
    using message_run_as_return [of "asks reply", OF _] array_read [of fs ?t file_struct ?g s] assms
    by (simp add: asks_def file_struct_def dtype_def type_value_def)
  ultimately show ?thesis
    by (simp add: systemd_bus_of_def call_list_unit_files_def cbind_def elements_def)
qed

text \<open>The messages that are sent.\<close>

definition property_message :: "string \<Rightarrow> string \<Rightarrow> dcall" where
  "property_message path property =
     \<lparr>call_server = ''org.freedesktop.systemd1'', call_path = path,
      call_interface = ''org.freedesktop.DBus.Properties'', call_method = ''Get'',
      call_args = [D_string ''org.freedesktop.systemd1.Unit'', D_string property]\<rparr>"

definition load_message :: "string \<Rightarrow> dcall" where
  "load_message ident = (itf_call systemd_manager ''LoadUnit'')\<lparr>call_args := [D_string ident]\<rparr>"

definition method_message :: "string \<Rightarrow> string \<Rightarrow> dcall" where
  "method_message path mth = (itf_call (systemd_unit path) mth)\<lparr>call_args := [D_string ''replace'']\<rparr>"

lemma property_message_sent:
  "CHR 0x00 \<notin> set property \<Longrightarrow> get_property_call (systemd_unit path) property = Inr (property_message path property)"
  by (simp add: get_property_call_def property_message_def new_message_def systemd_unit_def c_str_id)

lemma load_message_sent:
  "CHR 0x00 \<notin> set ident \<Longrightarrow>
   message_args [(C_string, V_string ident)] (itf_call systemd_manager ''LoadUnit'') = Inr (load_message ident)"
  by (simp add: load_message_def itf_call_def new_message_def c_str_id)

lemma method_message_sent:
  "message_args [(C_string, V_string ''replace'')] (itf_call (systemd_unit path) mth) = Inr (method_message path mth)"
  by (simp add: method_message_def itf_call_def new_message_def c_str_id)

text \<open>What a reply to a request for a property, or for a path, is worth.\<close>

definition property_of_reply :: "dreply \<Rightarrow> string outcome" where
  "property_of_reply r =
     (case r of
        Method_return (D_variant (D_string s) # _) \<Rightarrow> Inr s
      | Method_return (D_variant _ # _) \<Rightarrow> Inr []
      | Method_return _ \<Rightarrow> Inl (Throw Runtime_error)
      | _ \<Rightarrow> Inl (Throw Dbus_error))"

definition path_of_reply :: "dreply \<Rightarrow> string outcome" where
  "path_of_reply r =
     (case r of
        Method_return (D_path s # _) \<Rightarrow> Inr (c_str s)
      | Method_return _ \<Rightarrow> Inl (Throw Runtime_error)
      | _ \<Rightarrow> Inl (Throw Dbus_error))"

lemma call_unit_property_reply:
  assumes "CHR 0x00 \<notin> set property" and "send (property_message path property) w = (r, w')"
  shows "call_unit_property send path property w = (property_of_reply r, w')"
  using assms(2) unfolding call_unit_property_def itf_get_def property_message_sent [OF assms(1)]
  by (auto simp: cbind_def message_run_as_def message_run_def property_of_reply_def as_string_def get_arg_def
      type_value_def dtype_def split: dreply.splits list.splits dvalue.splits)

lemma run_as_path_reply:
  assumes "send c w = (r, w')"
  shows "cbind (message_run_as send C_path c) (\<lambda>v. clift (path_data v)) w = (path_of_reply r, w')"
  using assms
  by (auto simp: cbind_def message_run_as_def message_run_def path_of_reply_def path_data_def get_arg_def
      split: dreply.splits list.splits dvalue.splits)

lemma call_load_unit_reply:
  assumes "CHR 0x00 \<notin> set ident" and "send (load_message ident) w = (r, w')"
  shows "call_load_unit send ident w = (path_of_reply r, w')"
  unfolding call_load_unit_def load_message_sent [OF assms(1)]
  using run_as_path_reply [of send, OF assms(2)] by (simp add: cbind_def)

lemma call_on_unit_reply:
  assumes "send (method_message path mth) w = (r, w')"
  shows "call_on_unit send path mth w = (bind (path_of_reply r) (\<lambda>_. Inr ()), w')"
  unfolding call_on_unit_def method_message_sent
  using assms
  by (auto simp: cbind_def message_run_as_def message_run_def path_of_reply_def get_arg_def
      split: dreply.splits list.splits dvalue.splits)

lemma bus_property:
  assumes "CHR 0x00 \<notin> set property"
  shows "unit_property (systemd_bus_of online reply) path property = property_of_reply (reply (property_message path property))"
  using call_unit_property_reply [of property "asks reply" path "()", OF assms]
  by (simp add: systemd_bus_of_def asks_def)

lemma bus_load:
  assumes "CHR 0x00 \<notin> set ident"
  shows "load_unit (systemd_bus_of online reply) ident = path_of_reply (reply (load_message ident))"
  using call_load_unit_reply [of ident "asks reply" "()", OF assms]
  by (simp add: systemd_bus_of_def asks_def)

text \<open>A row of the listing shows a unit: its escaped name and description are read, and the rest is what the
  properties of the object at \<open>path\<close> say.\<close>

definition row_shows :: "(dcall \<Rightarrow> dreply) \<Rightarrow> string \<Rightarrow> string \<Rightarrow> string \<Rightarrow> msg_service \<Rightarrow> bool" where
  "row_shows reply path name description row \<longleftrightarrow>
     unescape name = Inr (svc_id row) \<and> svc_display_name row = svc_id row \<and>
     unescape description = Inr (svc_description row) \<and> svc_type row = unit_type (svc_id row) \<and>
     (\<exists>e. property_of_reply (reply (property_message path ''UnitFileState'')) = Inr e \<and> svc_enabled row = unit_enabled e) \<and>
     (\<exists>a. property_of_reply (reply (property_message path ''ActiveState'')) = Inr a \<and> svc_state row = unit_state a)"

lemma unit_info_shows:
  "unit_info (systemd_bus_of online reply) path name description = Inr row \<Longrightarrow> row_shows reply path name description row"
  by (auto simp: unit_info_def row_shows_def bind_eq_Inr_iff bus_property)

section \<open>Properties\<close>

text \<open>(C32) The services of a machine with systemd, from the replies of the bus to the rows sent to the client:
  when systemd answers as it documents, there is one row for every unit it lists, in order, with the name
  and the description it lists and with the state that the unit's own object reports, and then one row for every
  unit file, templates and the files of listed units left out.  The tuple the units are read into has another
  shape than the one systemd sends, and holds the path of the unit all the same.\<close>

theorem systemd_rows:
  assumes "reply (itf_call systemd_manager ''ListUnits'') = Method_return [D_array s (map unit_struct us)]"
    and "reply (itf_call systemd_manager ''ListUnitFiles'') = Method_return [D_array s' (map file_struct fs)]"
    and "\<And>u. u \<in> set us \<Longrightarrow> CHR 0x00 \<notin> set (ue_path u)"
    and "systemd_services (systemd_bus_of True reply) = Inr listing"
  shows "\<exists>loaded unloaded. svcs_services listing = loaded @ unloaded \<and>
    list_all2 (\<lambda>u. row_shows reply (ue_path u) (ue_name u) (ue_description u)) us loaded \<and>
    list_all2 (\<lambda>f row. unescape (after_last (CHR ''/'') f) = Inr (svc_id row))
      (fresh_files {f. f \<noteq> [] \<and> (\<exists>u \<in> set us. property_of_reply (reply (property_message (ue_path u) ''FragmentPath'')) = Inr f)}
        (map fst fs)) unloaded"
proof -
  let ?bus = "systemd_bus_of True reply"
  let ?us = "map (\<lambda>u. (ue_name u, ue_description u, ue_path u)) us"
  let ?files = "{f. f \<noteq> [] \<and> (\<exists>u \<in> set us. property_of_reply (reply (property_message (ue_path u) ''FragmentPath'')) = Inr f)}"
  have units: "list_units ?bus = Inr ?us"
    using list_units_reply [of reply, OF assms(1)] assms(3) by (simp add: c_str_id)
  have "{f. f \<noteq> [] \<and> (\<exists>(i, d, path) \<in> set ?us. unit_property ?bus path ''FragmentPath'' = Inr f)} = ?files"
    by (simp add: bus_property)
  with systemd_services_spec [OF assms(4) units list_unit_files_reply [of reply, OF assms(2)]]
  obtain loaded unloaded where r: "svcs_services listing = loaded @ unloaded"
    "mapM (\<lambda>(i, d, path). unit_info ?bus path i d) ?us = Inr loaded"
    "mapM (file_info ?bus) (fresh_files ?files (map fst fs)) = Inr unloaded" by auto
  have "list_all2 (\<lambda>u. row_shows reply (ue_path u) (ue_name u) (ue_description u)) us loaded"
    using r(2) unfolding mapM_list_all2 list_all2_map1
    by (rule list_all2_mono) (simp add: unit_info_shows)
  moreover have "list_all2 (\<lambda>f row. unescape (after_last (CHR ''/'') f) = Inr (svc_id row))
      (fresh_files ?files (map fst fs)) unloaded"
    using r(3) unfolding mapM_list_all2
    by (rule list_all2_mono) (auto simp: file_info_def unit_info_def bind_eq_Inr_iff)
  ultimately show ?thesis using r(1) by blast
qed

text \<open>A machine with one service and one timer that is not loaded.\<close>

definition sample_unit :: unit_entry where
  "sample_unit = \<lparr>ue_name = ''a.service'', ue_description = ''A'', ue_load = ''loaded'', ue_active = ''active'',
     ue_sub = ''running'', ue_followed = [], ue_path = ''/u/a'', ue_job = 0, ue_job_type = [], ue_job_path = ''/''\<rparr>"

definition sample_replies :: "dcall \<Rightarrow> dreply" where
  "sample_replies c =
     (if call_method c = ''ListUnits'' then Method_return [D_array ''(ssssssouso)'' (map unit_struct [sample_unit])]
      else if call_method c = ''ListUnitFiles'' then
        Method_return [D_array ''(ss)'' (map file_struct [(''/lib/a.service'', ''static''), (''/lib/b.timer'', ''disabled'')])]
      else if call_method c = ''LoadUnit'' then Method_return [D_path ''/u/b'']
      else if call_args c ! 1 = D_string ''FragmentPath'' then Method_return [D_variant (D_string ''/lib/a.service'')]
      else if call_args c ! 1 = D_string ''ActiveState'' \<and> call_path c = ''/u/a''
        then Method_return [D_variant (D_string ''active'')]
      else Method_return [D_variant (D_string ''disabled'')])"

theorem systemd_rows_witness:
  "\<exists>listing loaded unloaded. systemd_services (systemd_bus_of True sample_replies) = Inr listing \<and>
     map svc_id (svcs_services listing) = [''a.service'', ''b.timer''] \<and> svcs_services listing = loaded @ unloaded \<and>
     list_all2 (\<lambda>u. row_shows sample_replies (ue_path u) (ue_name u) (ue_description u)) [sample_unit] loaded"
proof -
  let ?l = "\<lparr>svcs_services =
     [\<lparr>svc_id = ''a.service'', svc_state = Running, svc_enabled = False, svc_type = ''Service'',
        svc_display_name = ''a.service'', svc_description = ''A''\<rparr>,
      \<lparr>svc_id = ''b.timer'', svc_state = Stopped, svc_enabled = False, svc_type = ''Timer'',
        svc_display_name = ''b.timer'', svc_description = ''disabled''\<rparr>]\<rparr>"
  have u: "sample_replies (itf_call systemd_manager ''ListUnits'') =
      Method_return [D_array ''(ssssssouso)'' (map unit_struct [sample_unit])]"
    and f: "sample_replies (itf_call systemd_manager ''ListUnitFiles'') =
      Method_return [D_array ''(ss)'' (map file_struct [(''/lib/a.service'', ''static''), (''/lib/b.timer'', ''disabled'')])]"
    by (simp_all add: sample_replies_def itf_call_def new_message_def)
  have p: "sample_replies (property_message path property) =
      (if property = ''FragmentPath'' then Method_return [D_variant (D_string ''/lib/a.service'')]
       else if property = ''ActiveState'' \<and> path = ''/u/a'' then Method_return [D_variant (D_string ''active'')]
       else Method_return [D_variant (D_string ''disabled'')])" for path property
    by (simp add: sample_replies_def property_message_def)
  have b: "sample_replies (load_message ident) = Method_return [D_path ''/u/b'']" for ident
    by (simp add: sample_replies_def load_message_def itf_call_def new_message_def)
  have e: "unescape ''a.service'' = Inr ''a.service''" "unescape ''b.timer'' = Inr ''b.timer''"
    "unescape ''A'' = Inr ''A''" "unescape ''disabled'' = Inr ''disabled''"
    "unit_type ''a.service'' = ''Service''" "unit_type ''b.timer'' = ''Timer''" "c_str ''/u/a'' = ''/u/a''"
    "c_str ''/u/b'' = ''/u/b''" "after_last (CHR ''/'') ''/lib/b.timer'' = ''b.timer''" by code_simp+
  have l: "systemd_services (systemd_bus_of True sample_replies) = Inr ?l"
    by (simp add: systemd_services_def list_units_reply [of sample_replies, OF u]
        list_unit_files_reply [of sample_replies, OF f] loaded_step_def unloaded_step_def unit_info_def bus_property
        bus_load p b e property_of_reply_def path_of_reply_def catch_dbus_def sample_unit_def unit_state_def unit_enabled_def
        Let_def)
  have n: "x \<in> set [sample_unit] \<Longrightarrow> CHR 0x00 \<notin> set (ue_path x)" for x
    by (simp add: sample_unit_def)
  obtain loaded unloaded where "svcs_services ?l = loaded @ unloaded"
    "list_all2 (\<lambda>u. row_shows sample_replies (ue_path u) (ue_name u) (ue_description u)) [sample_unit] loaded"
    using systemd_rows [OF u f n l] by blast
  moreover have "map svc_id (svcs_services ?l) = [''a.service'', ''b.timer'']" by simp
  ultimately show ?thesis using l by (intro exI [of _ ?l] exI [of _ loaded] exI [of _ unloaded] conjI)
qed

text \<open>A bus that keeps the calls made.\<close>

definition logs :: "(dcall \<Rightarrow> dreply) \<Rightarrow> dcall list transport" where
  "logs reply c calls = (reply c, calls @ [c])"

definition unit_method :: "control_action \<Rightarrow> string option" where
  "unit_method a =
     (case a of Stop \<Rightarrow> Some ''Stop'' | Start \<Rightarrow> Some ''Start'' | Restart \<Rightarrow> Some ''Restart'' | _ \<Rightarrow> None)"

lemma catch_path_reply:
  "catch_dbus (bind (path_of_reply r) (\<lambda>_. Inr x)) =
     (case path_of_reply r of Inr _ \<Rightarrow> Inr x | Inl e \<Rightarrow> Inl (Throw Runtime_error))"
  by (auto simp: path_of_reply_def catch_dbus_def split: dreply.splits list.splits dvalue.splits)

lemma control_sends:
  assumes "unit_method (ctl_action data) = Some mth" and "CHR 0x00 \<notin> set (ctl_id data)"
    and "path_of_reply (reply (load_message (ctl_id data))) = Inr path"
  shows "control_systemd (unit_calls_of True (logs reply)) data calls =
    (case path_of_reply (reply (method_message path mth)) of
       Inr job \<Rightarrow> Inr (Inr ()) | Inl e \<Rightarrow> Inl (Throw Runtime_error),
     calls @ [load_message (ctl_id data), method_message path mth])"
proof -
  let ?send = "logs reply" and ?load = "load_message (ctl_id data)" and ?run = "method_message path mth"
  have load: "call_load_unit ?send (ctl_id data) calls = (Inr path, calls @ [?load])"
    using call_load_unit_reply [OF assms(2), of ?send calls "reply ?load" "calls @ [?load]"] assms(3)
    by (simp add: logs_def)
  have run: "call_on_unit ?send path mth (calls @ [?load]) =
      (bind (path_of_reply (reply ?run)) (\<lambda>_. Inr ()), calls @ [?load, ?run])"
    using call_on_unit_reply [of ?send path mth "calls @ [?load]" "reply ?run" "calls @ [?load, ?run]"]
    by (simp add: logs_def)
  have "control_systemd (unit_calls_of True ?send) data calls =
      (catch_dbus (bind (path_of_reply (reply ?run)) (\<lambda>_. Inr (Inr ()))), calls @ [?load, ?run])"
    using assms(1) load run
    by (cases "path_of_reply (reply ?run)")
      (auto simp: control_systemd_def unit_calls_of_def open_bus_def catch_dbus_cmd_def cbind_def
        succeed_def unit_method_def split: control_action.splits)
  then show ?thesis by (simp only: catch_path_reply)
qed

end
