(* ===== verification/Mapped_File.thy ===== *)
theory Mapped_File
  imports Server_Main Doubles
begin

text \<open>
  \<open>externals/ljh/source/memory_mapped_file.cpp\<close> on Linux: files and views of them, through which
  \<open>read_file\<close> of \<open>src/server/main.cpp\<close> reads every file of the server.  The calls of the system
  are an argument: \<open>stat\<close>, \<open>open\<close>, \<open>mmap\<close>, the page size, and the bytes at an address.
\<close>

section \<open>Files\<close>

type_synonym permissions = "32 word"

definition p_read :: permissions where "p_read = 0b0001"
definition p_write :: permissions where "p_write = 0b0010"
definition p_executable :: permissions where "p_executable = 0b0100"
definition p_copy_on_write :: permissions where "p_copy_on_write = 0b1000"

datatype io_error = Invalid_position | Invalid_file | Invalid_permissions

text \<open>The flags have their values on Linux.  None is the failure of a call, but for \<open>open\<close>, which gives -1.\<close>

record posix =
  px_stat :: "string \<Rightarrow> 64 word option"
  px_open :: "string \<Rightarrow> int \<Rightarrow> int"
  px_mmap :: "64 word \<Rightarrow> 32 word \<Rightarrow> 32 word \<Rightarrow> int \<Rightarrow> 64 word \<Rightarrow> 64 word option"
  px_page :: "64 word"
  px_memory :: "64 word \<Rightarrow> 64 word \<Rightarrow> string"

record mapped_file =
  mf_descriptor :: int
  mf_size :: "64 word"

definition no_file :: mapped_file where
  "no_file = \<lparr>mf_descriptor = - 1, mf_size = 0\<rparr>"

definition file_is_open :: "mapped_file \<Rightarrow> bool" where
  "file_is_open f \<longleftrightarrow> mf_descriptor f \<noteq> - 1"

text \<open>Permissions to write without reading, or to execute only.\<close>

definition refused :: "permissions \<Rightarrow> bool" where
  "refused p \<longleftrightarrow>
     and p (or p_read p_write) = p_write \<or>
     and p (or (or p_read p_write) p_executable) = p_executable"

definition open_mode :: "permissions \<Rightarrow> int" where
  "open_mode p =
     (if p = p_read then 0
      else if p = p_write then 1
      else if p = or p_read p_write then 2
      else if p = or p_read p_executable then 0
      else if p = or (or p_read p_write) p_executable then 2
      else 0)"

definition open_file :: "posix \<Rightarrow> string \<Rightarrow> permissions \<Rightarrow> io_error + mapped_file" where
  "open_file env filename p =
     (if refused p then Inl Invalid_permissions
      else
        (case px_stat env filename of
           None \<Rightarrow> Inl Invalid_file
         | Some st_size \<Rightarrow>
             (let fd = px_open env filename (open_mode p) in
              if fd = - 1 then Inl Invalid_file else Inr \<lparr>mf_descriptor = fd, mf_size = st_size\<rparr>)))"

text \<open>The calls that release what a file and a view hold; moving leaves an empty one behind, and an
  assignment forgets what was held.\<close>

datatype release = Close int | Msync "64 word" "64 word" | Munmap "64 word" "64 word"

definition file_destroy :: "mapped_file \<Rightarrow> release list" where
  "file_destroy f = (if \<not> file_is_open f then [] else [Close (mf_descriptor f)])"

definition file_move :: "mapped_file \<Rightarrow> mapped_file \<times> mapped_file" where
  "file_move other = (other, no_file)"

definition file_assign :: "mapped_file \<Rightarrow> mapped_file \<Rightarrow> mapped_file \<times> mapped_file" where
  "file_assign this other = (other, no_file)"

section \<open>Views\<close>

record view =
  vw_data :: "64 word option"
  vw_length :: "64 word"
  vw_offset :: "64 word"

definition prot_of :: "permissions \<Rightarrow> 32 word" where
  "prot_of p =
     or (or (or (if and p p_read = p_read then 1 else 0)
                (if and p p_write = p_write then 2 else 0))
            (if and p p_executable = p_executable then 4 else 0))
        (if and p p_copy_on_write = p_copy_on_write then 2 else 0)"

definition map_flags :: "permissions \<Rightarrow> 32 word" where
  "map_flags p = (if and p p_copy_on_write = p_copy_on_write then 2 else 1)"

text \<open>\<open>floor(start / page_size) * page_size\<close> is computed in doubles.\<close>

definition page_start :: "64 word \<Rightarrow> 64 word \<Rightarrow> 64 word outcome" where
  "page_start page start =
     (if page = 0 then Inl UB
      else
        bind (double_to_int 64 0
          (Some (double_of (double_of (of_nat (unat (start div page))) * double_of (of_nat (unat page)))))) (\<lambda>n.
        Inr (of_int n)))"

definition view_file ::
  "posix \<Rightarrow> mapped_file \<Rightarrow> permissions \<Rightarrow> 64 word \<Rightarrow> 64 word \<Rightarrow> (io_error + view) outcome" where
  "view_file env f p start len =
     (if \<not> file_is_open f then Inr (Inl Invalid_file)
      else if mf_size f < start + len then Inr (Inl Invalid_position)
      else if refused p then Inr (Inl Invalid_permissions)
      else if and p (or p_write p_copy_on_write) = or p_write p_copy_on_write then Inr (Inl Invalid_permissions)
      else
        bind (page_start (px_page env) start) (\<lambda>start'.
        let offset = start mod px_page env;
            len' = len + offset
        in case px_mmap env len' (prot_of p) (map_flags p) (mf_descriptor f) start' of
             None \<Rightarrow> Inr (Inl Invalid_file)
           | Some a \<Rightarrow> Inr (Inr \<lparr>vw_data = Some a, vw_length = len', vw_offset = offset\<rparr>)))"

text \<open>\<open>as<T>\<close> for a type of \<open>size\<close> bytes: the address, or the null pointer.\<close>

definition view_as :: "64 word \<Rightarrow> view \<Rightarrow> 64 word option" where
  "view_as sz v =
     (if vw_length v < sz then None
      else Some ((case vw_data v of None \<Rightarrow> 0 | Some a \<Rightarrow> a) + vw_offset v))"

definition no_view :: view where
  "no_view = \<lparr>vw_data = None, vw_length = 0, vw_offset = 0\<rparr>"

definition view_destroy :: "view \<Rightarrow> release list" where
  "view_destroy v = (case vw_data v of None \<Rightarrow> [] | Some a \<Rightarrow> [Msync a (vw_length v), Munmap a (vw_length v)])"

text \<open>The offset is not moved: it is zero in a new view, and stays in one that is assigned to.\<close>

definition view_move :: "view \<Rightarrow> view \<times> view" where
  "view_move other =
     (\<lparr>vw_data = vw_data other, vw_length = vw_length other, vw_offset = 0\<rparr>,
      other\<lparr>vw_data := None, vw_length := 0\<rparr>)"

definition view_assign :: "view \<Rightarrow> view \<Rightarrow> view \<times> view" where
  "view_assign this other =
     (this\<lparr>vw_data := vw_data other, vw_length := vw_length other\<rparr>,
      other\<lparr>vw_data := None, vw_length := 0\<rparr>)"

section \<open>read_file\<close>

text \<open>The first half of \<open>read_file\<close>: the bytes of the view, None for the exception that is caught.  A
  string of no characters may be made from a null pointer.\<close>

definition map_whole :: "posix \<Rightarrow> string \<Rightarrow> string option outcome" where
  "map_whole env path =
     (case open_file env path p_read of
        Inl e \<Rightarrow> Inl (Throw System_error)
      | Inr f \<Rightarrow>
          bind (view_file env f p_read 0 (mf_size f)) (\<lambda>r.
          case r of
            Inl Invalid_file \<Rightarrow> Inr None
          | Inl _ \<Rightarrow> Inl (Throw System_error)
          | Inr v \<Rightarrow>
              (case view_as 1 v of
                 None \<Rightarrow> (if mf_size f = 0 then Inr (Some []) else Inl (Throw System_error))
               | Some a \<Rightarrow> Inr (Some (px_memory env a (mf_size f))))))"

text \<open>\<open>stream\<close> is what \<open>std::ifstream\<close> reads of a path, None when it does not open.\<close>

definition read_path :: "posix \<Rightarrow> (string \<Rightarrow> string option) \<Rightarrow> string \<Rightarrow> string outcome" where
  "read_path env stream path = read_file (map_whole env path) (stream path)"

section \<open>Pages\<close>

lemma unat_64: "unat w < 2 ^ 64" for w :: "64 word"
  using unsigned_less [of w, where ?'a = nat] by simp

lemma div_page_small:
  fixes page start :: "64 word"
  assumes "page = 2 ^ k" and "12 \<le> k" and "k < 64"
  shows "unat (start div page) < 2 ^ 52" and "unat page = 2 ^ k"
proof -
  have "(2 :: nat) ^ k < 2 ^ 64" using assms(3) by (rule power_strict_increasing) simp
  moreover have "page = of_nat (2 ^ k)" by (simp add: assms(1))
  moreover have "unat (of_nat n :: 64 word) = n" if "n < 2 ^ 64" for n using that by (simp add: unat_of_nat)
  ultimately show p: "unat page = 2 ^ k" by metis
  have "unat start < 2 ^ 64" using unat_64 [of start] by simp
  then have "unat start < 2 ^ 52 * 2 ^ 12" by simp
  also have "\<dots> \<le> 2 ^ 52 * 2 ^ k" using assms(2) by (intro mult_left_mono power_increasing) simp_all
  finally show "unat (start div page) < 2 ^ 52" by (simp add: unat_div p less_mult_imp_div_less)
qed

text \<open>The doubles are exact for every page size in use: the start is rounded down to a page.\<close>

lemma page_start_exact:
  assumes "page = 2 ^ k" and "12 \<le> k" and "k < 64"
  shows "page_start page start = Inr (start - start mod page)"
proof -
  let ?n = "unat (start div page)"
  have s: "?n < 2 ^ 52" "unat page = 2 ^ k" by (rule div_page_small [OF assms])+
  have n: "?n < 2 ^ 53" using s(1) by simp
  have z: "page \<noteq> 0" using s(2) by (metis unat_0 power_not_zero zero_neq_numeral)
  have u: "unat page < 2 ^ 64" using unat_64 [of page] by simp
  have e: "double_of (double_of (of_nat ?n) * double_of (of_nat (unat page))) = of_nat (?n * 2 ^ k)"
    unfolding s(2) by (rule double_product [OF n])
  have b: "?n * 2 ^ k \<le> unat start" by (simp add: unat_div s(2) [symmetric])
  then have l: "?n * 2 ^ k < 2 ^ 64" using unat_64 [of start] by simp
  have "to_zero (of_nat (?n * 2 ^ k)) = int (?n * 2 ^ k)" unfolding to_zero_def by (simp del: of_nat_mult)
  moreover have "int (?n * 2 ^ k) < 2 ^ 64" using l by (metis of_nat_less_iff of_nat_numeral of_nat_power)
  ultimately have "page_start page start = Inr (of_int (int (?n * 2 ^ k)))"
    unfolding page_start_def e using z by (simp add: double_to_int_def del: of_nat_mult)
  also have "of_int (int (?n * 2 ^ k)) = start div page * page"
    by (simp add: s(2) [symmetric])
  finally show ?thesis by (simp add: minus_mod_eq_div_mult)
qed

text \<open>The parts of a position: the start of its page, and the place in it.\<close>

lemma page_parts:
  fixes page start base off :: "64 word"
  assumes "page = 2 ^ k" and "12 \<le> k" and "k < 64"
  shows "base mod page = 0 \<and> off < page \<and> base + off = start \<longleftrightarrow>
    base = start - start mod page \<and> off = start mod page"
proof
  have p: "unat page = 2 ^ k" by (rule div_page_small(2) [OF assms])
  have d: "(2 :: nat) ^ 64 = 2 ^ (64 - k) * 2 ^ k" using assms(3) by (simp flip: power_add)
  assume h: "base mod page = 0 \<and> off < page \<and> base + off = start"
  then have m: "unat base mod 2 ^ k = 0" by (metis unat_mod unat_0 p)
  have o: "unat off < 2 ^ k" using h p by (simp add: word_less_nat_alt)
  have "unat base div 2 ^ k < 2 ^ (64 - k)"
    using unat_64 [of base] by (simp only: d less_mult_imp_div_less)
  then have "unat base div 2 ^ k + 1 \<le> 2 ^ (64 - k)" by simp
  then have "(unat base div 2 ^ k + 1) * 2 ^ k \<le> 2 ^ (64 - k) * 2 ^ k" by (rule mult_le_mono1)
  moreover have "unat base = unat base div 2 ^ k * 2 ^ k" using m by (metis add.right_neutral div_mult_mod_eq)
  ultimately have "unat base + unat off < 2 ^ 64" using o unfolding d by (simp add: add_mult_distrib)
  moreover have "unat (base + off) = (unat base + unat off) mod 2 ^ 64" by (simp add: unat_word_ariths(1))
  ultimately have "unat start = unat base + unat off" using h by simp
  then have "unat start mod 2 ^ k = unat off" using m o by (simp add: mod_add_eq [symmetric])
  then have "start mod page = off" by (metis unat_mod p word_unat_eq_iff)
  moreover have "base = start - off" using h by (metis add_diff_cancel_right')
  ultimately show "base = start - start mod page \<and> off = start mod page" by simp
next
  have p: "unat page = 2 ^ k" by (rule div_page_small(2) [OF assms])
  have pos: "0 < page" using p by (simp add: word_less_nat_alt)
  have le: "start mod page \<le> start" by (simp add: word_le_nat_alt unat_mod)
  have "unat ((start - start mod page) mod page) = (unat start - unat start mod 2 ^ k) mod 2 ^ k"
    by (simp add: unat_mod unat_sub [OF le] p)
  also have "\<dots> = 0" by (simp add: minus_mod_eq_div_mult)
  finally have "(start - start mod page) mod page = 0" by (simp add: unat_eq_zero)
  moreover assume "base = start - start mod page \<and> off = start mod page"
  ultimately show "base mod page = 0 \<and> off < page \<and> base + off = start"
    using word_mod_less_divisor [OF pos] by simp
qed

text \<open>A moved view forgets where in its page it starts.\<close>

lemma moved_view_as:
  assumes "vw_data v = Some a" and "sz \<le> vw_length v"
  shows "view_as sz v = Some (a + vw_offset v) \<and> view_as sz (fst (view_move v)) = Some a"
  using assms by (simp add: view_as_def view_move_def)

text \<open>An assignment forgets the descriptor, and what a view that is assigned to had mapped.\<close>

lemma assigned_not_released:
  "file_destroy (fst (file_assign this other)) @ file_destroy (snd (file_assign this other)) = file_destroy other"
  "view_destroy (fst (view_assign v u)) @ view_destroy (snd (view_assign v u)) = view_destroy u"
  by (simp_all add: file_assign_def file_destroy_def no_file_def file_is_open_def view_assign_def view_destroy_def
      split: option.splits)

lemma view_file_read:
  assumes "px_page env = 2 ^ k" and "12 \<le> k" and "k < 64" and "file_is_open f"
  shows "view_file env f p_read start len =
    (if mf_size f < start + len then Inr (Inl Invalid_position)
     else
       (case px_mmap env (len + start mod px_page env) 1 1 (mf_descriptor f) (start - start mod px_page env) of
          None \<Rightarrow> Inr (Inl Invalid_file)
        | Some a \<Rightarrow>
            Inr (Inr \<lparr>vw_data = Some a, vw_length = len + start mod px_page env, vw_offset = start mod px_page env\<rparr>)))"
  using assms(4) page_start_exact [OF assms(1-3), of start]
  by (simp add: view_file_def refused_def p_read_def p_write_def p_executable_def p_copy_on_write_def prot_of_def
      map_flags_def Let_def)

section \<open>Properties\<close>

text \<open>(C36) A view shows the part of the file it was asked for: for a page size that is a power of two, a view
  is made exactly when the sum of start and length, which wraps around at 64 bits, is not behind the end and the
  system maps the pages around it; the mapping starts at a page boundary of the file, holds the part asked for, and \<open>as\<close>
  gives the address of its first byte.  The length kept is that of the mapping, so a type that is longer than the
  part by up to a page less one byte is still accepted.\<close>

theorem view_window:
  assumes "px_page env = 2 ^ k" and "12 \<le> k" and "k < 64" and "file_is_open f"
  shows "view_file env f p_read start len = Inr (Inr v) \<longleftrightarrow>
    (\<exists>a base. start + len \<le> mf_size f \<and> base mod px_page env = 0 \<and> vw_offset v < px_page env \<and>
       base + vw_offset v = start \<and> vw_length v = len + vw_offset v \<and> vw_data v = Some a \<and>
       px_mmap env (vw_length v) 1 1 (mf_descriptor f) base = Some a \<and>
       (\<forall>sz. view_as sz v = (if sz \<le> vw_length v then Some (a + vw_offset v) else None)))"
proof -
  let ?page = "px_page env" and ?off = "start mod px_page env"
  let ?base = "start - ?off"
  note parts = page_parts [OF assms(1-3)]
  have made: "view_file env f p_read start len = Inr (Inr v) \<longleftrightarrow>
    start + len \<le> mf_size f \<and> (\<exists>a. px_mmap env (len + ?off) 1 1 (mf_descriptor f) ?base = Some a \<and>
       v = \<lparr>vw_data = Some a, vw_length = len + ?off, vw_offset = ?off\<rparr>)"
    unfolding view_file_read [OF assms] by (auto simp: not_less split: option.splits)
  show ?thesis
  proof
    assume "view_file env f p_read start len = Inr (Inr v)"
    then obtain a where a: "start + len \<le> mf_size f" "px_mmap env (len + ?off) 1 1 (mf_descriptor f) ?base = Some a"
      "v = \<lparr>vw_data = Some a, vw_length = len + ?off, vw_offset = ?off\<rparr>" unfolding made by blast
    moreover have "?base mod ?page = 0 \<and> ?off < ?page \<and> ?base + ?off = start" unfolding parts by simp
    ultimately show "\<exists>a base. start + len \<le> mf_size f \<and> base mod ?page = 0 \<and> vw_offset v < ?page \<and>
       base + vw_offset v = start \<and> vw_length v = len + vw_offset v \<and> vw_data v = Some a \<and>
       px_mmap env (vw_length v) 1 1 (mf_descriptor f) base = Some a \<and>
       (\<forall>sz. view_as sz v = (if sz \<le> vw_length v then Some (a + vw_offset v) else None))"
      by (intro exI [of _ a] exI [of _ ?base]) (simp add: view_as_def not_le)
  next
    assume "\<exists>a base. start + len \<le> mf_size f \<and> base mod ?page = 0 \<and> vw_offset v < ?page \<and>
       base + vw_offset v = start \<and> vw_length v = len + vw_offset v \<and> vw_data v = Some a \<and>
       px_mmap env (vw_length v) 1 1 (mf_descriptor f) base = Some a \<and>
       (\<forall>sz. view_as sz v = (if sz \<le> vw_length v then Some (a + vw_offset v) else None))"
    then obtain a base where r: "start + len \<le> mf_size f"
      "base mod ?page = 0 \<and> vw_offset v < ?page \<and> base + vw_offset v = start"
      "vw_length v = len + vw_offset v" "vw_data v = Some a"
      "px_mmap env (vw_length v) 1 1 (mf_descriptor f) base = Some a" by (elim exE conjE) (rule that, simp_all)
    from r(2) have "base = ?base \<and> vw_offset v = ?off" unfolding parts .
    with r show "view_file env f p_read start len = Inr (Inr v)"
      unfolding made by (intro conjI exI [of _ a]) simp_all
  qed
qed

text \<open>A system with pages of 4096 bytes that maps every file but the empty one at one address, and on which the
  bytes from there on are those of the path it holds.\<close>

definition sample_posix :: "string option \<Rightarrow> 64 word \<Rightarrow> posix" where
  "sample_posix bytes sz =
     \<lparr>px_stat = \<lambda>p. Some sz, px_open = \<lambda>p m. 3,
      px_mmap = \<lambda>l prot flags fd start. if bytes = None \<or> l = 0 then None else Some 0x10000,
      px_page = 4096, px_memory = \<lambda>a l. case bytes of None \<Rightarrow> [] | Some s \<Rightarrow> take (unat l) s\<rparr>"

lemma sample_page: "px_page (sample_posix bytes sz) = 2 ^ 12"
  by (simp add: sample_posix_def)

theorem view_window_witness:
  "view_file (sample_posix (Some []) 10000) \<lparr>mf_descriptor = 3, mf_size = 10000\<rparr> p_read 5000 100 =
     Inr (Inr \<lparr>vw_data = Some 0x10000, vw_length = 1004, vw_offset = 904\<rparr>)"
proof -
  let ?v = "\<lparr>vw_data = Some 0x10000, vw_length = 1004, vw_offset = 904\<rparr>"
  have o: "file_is_open \<lparr>mf_descriptor = 3, mf_size = 10000\<rparr>" by (simp add: file_is_open_def)
  have "(5000 :: 64 word) + 100 \<le> 10000 \<and> (4096 :: 64 word) mod 4096 = 0 \<and> (904 :: 64 word) < 4096"
    by (simp add: word_le_nat_alt word_less_nat_alt)
  then show ?thesis
    by (subst view_window [OF sample_page _ _ o]) (auto simp: sample_posix_def view_as_def intro!: exI [of _ 4096])
qed

lemma map_whole_cases:
  assumes "px_page env = 2 ^ k" and "12 \<le> k" and "k < 64" and "px_stat env path = Some n"
    and "px_open env path 0 = fd" and "fd \<noteq> - 1"
  shows "map_whole env path =
    (case px_mmap env n 1 1 fd 0 of
       None \<Rightarrow> Inr None
     | Some a \<Rightarrow> Inr (Some (if n = 0 then [] else px_memory env a n)))"
proof -
  let ?f = "\<lparr>mf_descriptor = fd, mf_size = n\<rparr>"
  have f: "open_file env path p_read = Inr ?f"
    using assms(4-6) by (simp add: open_file_def refused_def open_mode_def p_read_def p_write_def p_executable_def)
  have o: "file_is_open ?f" using assms(6) by (simp add: file_is_open_def)
  have "1 \<le> n \<longleftrightarrow> n \<noteq> 0" by (simp add: word_le_nat_alt unat_gt_0 Suc_le_eq)
  then show ?thesis
    using view_file_read [OF assms(1-3) o, of 0 n]
    by (simp add: map_whole_def f view_as_def not_less split: option.splits)
qed

text \<open>(C31) What \<open>read_file\<close> returns: of a file the system maps, its bytes; of a file the kernel makes up, which
  cannot be mapped and reports a size of its own, the text up to the end of its line; and a file that is empty
  is read as empty either way.\<close>

theorem read_path_text:
  assumes "px_page env = 2 ^ k" and "12 \<le> k" and "k < 64" and "px_stat env path = Some n"
    and "px_open env path 0 = fd" and "fd \<noteq> - 1"
  shows "(\<forall>a. px_mmap env n 1 1 fd 0 = Some a \<longrightarrow> n \<noteq> 0 \<longrightarrow> read_path env stream path = Inr (px_memory env a n)) \<and>
    (\<forall>text j. px_mmap env n 1 1 fd 0 = None \<longrightarrow> CHR 0x00 \<notin> set text \<longrightarrow> 0 < j \<longrightarrow>
       stream path = Some ((text @ [CHR 0x0A]) @ replicate j (CHR 0x00)) \<longrightarrow> read_path env stream path = Inr text) \<and>
    (n = 0 \<longrightarrow> stream path = Some [] \<longrightarrow> read_path env stream path = Inr [])"
proof -
  have "strip_contents ((text @ [CHR 0x0A]) @ replicate j (CHR 0x00)) = text" if "CHR 0x00 \<notin> set text" "0 < j" for "text" j
    using strip_contents_pseudo [OF that] by (rule conjunct1)
  moreover have "strip_contents [] = []" by (simp add: strip_contents_def)
  ultimately show ?thesis
    using map_whole_cases [OF assms] by (auto simp: read_path_def read_file_def split: option.splits)
qed

theorem read_path_text_witness:
  "read_path (sample_posix (Some ''password=cat'') 12) (\<lambda>p. None) ''/etc/bakaneko-server.ini'' = Inr ''password=cat'' \<and>
   read_path (sample_posix None 4096) (\<lambda>p. Some (''up'' @ CHR 0x0A # replicate 4093 (CHR 0x00))) ''/sys/class/net/eth0/operstate'' =
     Inr ''up''"
proof -
  have a: "px_stat (sample_posix b sz) p = Some sz" "px_open (sample_posix b sz) p 0 = 3" for b sz p
    by (simp_all add: sample_posix_def)
  have m: "px_mmap (sample_posix (Some ''password=cat'') 12) 12 1 1 3 0 = Some 0x10000"
    "px_mmap (sample_posix None 4096) 4096 1 1 3 0 = None"
    "px_memory (sample_posix (Some ''password=cat'') 12) 0x10000 12 = ''password=cat''"
    by (simp_all add: sample_posix_def)
  have t: "(12 :: nat) \<le> 12" "(12 :: nat) < 64" "(3 :: int) \<noteq> - 1" by simp_all
  note r = read_path_text [OF sample_page t(1,2) a t(3)]
  have "read_path (sample_posix (Some ''password=cat'') 12) (\<lambda>p. None) ''/etc/bakaneko-server.ini'' = Inr ''password=cat''"
    using r [of "Some ''password=cat''" 12 "\<lambda>p. None" "''/etc/bakaneko-server.ini''"] m(1,3) by simp
  moreover have "read_path (sample_posix None 4096) (\<lambda>p. Some (''up'' @ CHR 0x0A # replicate 4093 (CHR 0x00))) ''/sys/class/net/eth0/operstate'' =
     Inr ''up''"
  proof -
    have s: "Some (''up'' @ CHR 0x0A # replicate 4093 (CHR 0x00)) = Some ((''up'' @ [CHR 0x0A]) @ replicate 4093 (CHR 0x00))"
      by simp
    have "CHR 0x00 \<notin> set ''up''" "(0 :: nat) < 4093" by simp_all
    then show ?thesis
      using r [of None 4096 "\<lambda>p. Some (''up'' @ CHR 0x0A # replicate 4093 (CHR 0x00))" "''/sys/class/net/eth0/operstate''"] m(2) s
      by blast
  qed
  ultimately show ?thesis by blast
qed

end
