(* ===== verification/Mapped_File_Windows.thy ===== *)
theory Mapped_File_Windows
  imports Mapped_File
begin

text \<open>
  The Windows half of \<open>externals/ljh/source/memory_mapped_file.cpp\<close>: a file there has two handles, of the
  file and of its mapping.  The views are those of \<open>Mapped_File\<close>; handles and addresses are 64-bit numbers.
\<close>

section \<open>Files\<close>

text \<open>The failures of the calls are what Windows documents: \<open>CreateFileW\<close> gives the invalid handle,
  \<open>CreateFileMappingW\<close> and \<open>MapViewOfFile\<close> give the null pointer.\<close>

record win_files =
  wf_create_file :: "string \<Rightarrow> 32 word \<Rightarrow> 64 word"
  wf_create_mapping :: "64 word \<Rightarrow> 32 word \<Rightarrow> 64 word"
  wf_size :: "64 word \<Rightarrow> 64 word"
  wf_map :: "64 word \<Rightarrow> 32 word \<Rightarrow> 32 word \<Rightarrow> 32 word \<Rightarrow> 64 word \<Rightarrow> 64 word"
  wf_granularity :: "32 word"

record win_file =
  wfl_descriptor :: "64 word"
  wfl_handle :: "64 word"
  wfl_size :: "64 word"

definition invalid_handle :: "64 word" where
  "invalid_handle = - 1"

definition win_no_file :: win_file where
  "win_no_file = \<lparr>wfl_descriptor = invalid_handle, wfl_handle = invalid_handle, wfl_size = 0\<rparr>"

definition win_is_open :: "win_file \<Rightarrow> bool" where
  "win_is_open f \<longleftrightarrow> wfl_descriptor f \<noteq> invalid_handle"

definition generic_access :: "permissions \<Rightarrow> 32 word" where
  "generic_access p =
     or (or (if and p p_read = p_read then 0x80000000 else 0)
            (if and p p_write = p_write then 0x40000000 else 0))
        (if and p p_executable = p_executable then 0x20000000 else 0)"

definition page_protection :: "permissions \<Rightarrow> 32 word" where
  "page_protection p =
     (if p = p_read then 0x02
      else if p = p_executable then 0x10
      else if p = or p_read p_write then 0x04
      else if p = or p_read p_executable then 0x20
      else if p = or (or p_read p_write) p_executable then 0x40
      else 0)"

definition win_open_file :: "win_files \<Rightarrow> string \<Rightarrow> permissions \<Rightarrow> io_error + win_file" where
  "win_open_file env filename p =
     (if refused p then Inl Invalid_permissions
      else
        (let h = wf_create_file env filename (generic_access p)
         in if h = invalid_handle then Inl Invalid_file
            else
              (let d = wf_create_mapping env h (page_protection p)
               in if d = invalid_handle then Inl Invalid_file
                  else Inr \<lparr>wfl_descriptor = d, wfl_handle = h, wfl_size = wf_size env h\<rparr>)))"

text \<open>The handles that the destructor closes, in order; moves and assignments are as on Linux.\<close>

definition win_file_destroy :: "win_file \<Rightarrow> 64 word list" where
  "win_file_destroy f = (if \<not> win_is_open f then [] else [wfl_descriptor f, wfl_handle f])"

definition win_file_move :: "win_file \<Rightarrow> win_file \<times> win_file" where
  "win_file_move other = (other, win_no_file)"

definition win_file_assign :: "win_file \<Rightarrow> win_file \<Rightarrow> win_file \<times> win_file" where
  "win_file_assign this other = (other, win_no_file)"

section \<open>Views\<close>

definition map_access :: "permissions \<Rightarrow> 32 word" where
  "map_access p =
     or (if p = p_read then 0x04
         else if p = or p_read p_write then 0x02
         else if p = or p_read p_executable then 0x24
         else if p = or (or p_read p_write) p_executable then 0x22
         else 0)
        (if and p p_copy_on_write = p_copy_on_write then 0x01 else 0)"

definition win_view_file ::
  "win_files \<Rightarrow> win_file \<Rightarrow> permissions \<Rightarrow> 64 word \<Rightarrow> 64 word \<Rightarrow> (io_error + view) outcome" where
  "win_view_file env f p start len =
     (if \<not> win_is_open f then Inr (Inl Invalid_file)
      else if wfl_size f < start + len then Inr (Inl Invalid_position)
      else if refused p then Inr (Inl Invalid_permissions)
      else if and p (or p_write p_copy_on_write) = or p_write p_copy_on_write then Inr (Inl Invalid_permissions)
      else
        (let granularity = ucast (wf_granularity env) :: 64 word
         in bind (page_start granularity start) (\<lambda>start'.
            let offset = start mod granularity;
                len' = len + offset;
                a = wf_map env (wfl_descriptor f) (map_access p) (ucast (drop_bit 32 start')) (ucast start') len'
            in if a = 0 then Inr (Inl Invalid_file)
               else Inr (Inr \<lparr>vw_data = Some a, vw_length = len' - offset, vw_offset = offset\<rparr>))))"

section \<open>Lemmas\<close>

text \<open>A view has the length that was asked for, where the view of Linux has that of its mapping, and \<open>as\<close> gives
  the first byte of the part.\<close>

lemma win_view_read:
  assumes "wf_granularity env = 2 ^ k" and "12 \<le> k" and "k < 32" and "win_is_open f"
  defines "g \<equiv> (2 :: 64 word) ^ k"
  shows "win_view_file env f p_read start len =
    (if wfl_size f < start + len then Inr (Inl Invalid_position)
     else
       (let base = start - start mod g;
            a = wf_map env (wfl_descriptor f) 0x04 (ucast (drop_bit 32 base)) (ucast base) (len + start mod g)
        in if a = 0 then Inr (Inl Invalid_file)
           else Inr (Inr \<lparr>vw_data = Some a, vw_length = len, vw_offset = start mod g\<rparr>)))"
proof -
  have "(ucast (2 ^ k :: 32 word) :: 64 word) = 2 ^ k"
    using assms(3) by (intro bit_word_eqI) (auto simp: bit_simps)
  then have "(ucast (wf_granularity env) :: 64 word) = g" by (simp add: assms(1) g_def)
  moreover have "page_start g start = Inr (start - start mod g)"
    unfolding g_def by (rule page_start_exact [OF refl assms(2)]) (use assms(3) in simp)
  ultimately show ?thesis
    using assms(4)
    by (simp add: win_view_file_def refused_def p_read_def p_write_def p_executable_def p_copy_on_write_def
        map_access_def Let_def)
qed

text \<open>A mapping that could not be made is not noticed: the file is open, with the null handle, and only a view
  of it fails.\<close>

lemma failed_mapping_open:
  assumes "\<not> refused p" and "wf_create_file env filename (generic_access p) = h" and "h \<noteq> invalid_handle"
    and "wf_create_mapping env h (page_protection p) = 0"
  shows "win_open_file env filename p = Inr \<lparr>wfl_descriptor = 0, wfl_handle = h, wfl_size = wf_size env h\<rparr>"
  using assms by (simp add: win_open_file_def invalid_handle_def)

end
