(* ===== verification/Windows_Host.thy ===== *)
theory Windows_Host
  imports Host_Info Version
begin

text \<open>
  The Windows branches of \<open>src/server/system.cpp\<close> and \<open>network.cpp\<close>, with the helper
  \<open>Win32Run\<close> of \<open>src/common/windows.hpp\<close> they get their data through.  What the functions of
  Windows return is an argument: lists of structures for their linked lists, texts for addresses and names.
\<close>

section \<open>windows.hpp\<close>

text \<open>A function that is called twice: without a buffer, to learn the size, and with a buffer of that size,
  which it fills, or leaves as it is when it fails.  A buffer of \<open>malloc\<close> that was not filled is read all
  the same.\<close>

record 'a sized_call =
  szc_size :: nat
  szc_fill :: "nat \<Rightarrow> 'a option"

definition win32_run_data :: "'a sized_call \<Rightarrow> 'a outcome" where
  "win32_run_data f = (case szc_fill f (szc_size f) of None \<Rightarrow> Inl UB | Some data \<Rightarrow> Inr data)"

text \<open>For text the buffer is a string of NULs of that size, and its last character is dropped.\<close>

definition win32_run_string :: "string sized_call \<Rightarrow> string outcome" where
  "win32_run_string f =
     (let sz = szc_size f;
          data = (case szc_fill f sz of
                    None \<Rightarrow> replicate sz (CHR 0x00)
                  | Some written \<Rightarrow> take sz (written @ replicate (sz - length written) (CHR 0x00)))
      in substr data 0 (size_sub (length data) 1))"

section \<open>Info::System\<close>

record win_address =
  wa_family :: family
  wa_text :: string

record win_card =
  wcd_unicast :: "win_address list"
  wcd_physical :: "8 word list"

definition first_unicast :: "family \<Rightarrow> win_card \<Rightarrow> win_address option" where
  "first_unicast fam nic = find (\<lambda>a. wa_family a = fam) (wcd_unicast nic)"

text \<open>The loops with their \<open>goto\<close>: the first card with an address of version 4, or else of version 6.  An
  array of fewer than six bytes would be read past its end.\<close>

definition win_mac :: "8 word list \<Rightarrow> string outcome" where
  "win_mac bs = (if length bs < 6 then Inl UB else Inr (mac_text bs))"

fun win_addresses :: "win_card list \<Rightarrow> (string \<times> string) outcome" where
  "win_addresses [] = Inr ([], [])"
| "win_addresses (nic # nics) =
     (case first_unicast AF_INET nic of
        Some a \<Rightarrow> bind (win_mac (wcd_physical nic)) (\<lambda>mac. Inr (wa_text a, mac))
      | None \<Rightarrow>
          (case first_unicast AF_INET6 nic of
             Some a \<Rightarrow> bind (win_mac (wcd_physical nic)) (\<lambda>mac. Inr (wa_text a, mac))
           | None \<Rightarrow> win_addresses nics))"

text \<open>\<open>enclosures\<close> are the chassis types of the objects WMI has of the class; \<open>architecture\<close> is
  None when the variable is not set.  The names of the system come from \<open>ljh::system_info\<close>.\<close>

record win_machine =
  wm_enclosures :: "int list list"
  wm_cards :: "win_card list sized_call"
  wm_computer_name :: "string sized_call"
  wm_os_name :: "string outcome"
  wm_os_version :: "version outcome"
  wm_architecture :: "string option"

definition info_system_windows :: "win_machine \<Rightarrow> msg_system expected outcome" where
  "info_system_windows m =
     bind (vec_get (wm_enclosures m) 0) (\<lambda>enclosure.
     bind (vec_get enclosure 0) (\<lambda>chassis_type.
     bind (win32_run_data (wm_cards m)) (\<lambda>nics.
     bind (win_addresses nics) (\<lambda>(ip, mac).
     bind (win32_run_string (wm_computer_name m)) (\<lambda>hostname.
     bind (wm_os_name m) (\<lambda>os.
     bind (wm_os_version m) (\<lambda>v.
     case wm_architecture m of
       None \<Rightarrow> Inl UB
     | Some arch \<Rightarrow>
         Inr (Inr \<lparr>sys_hostname = hostname, sys_mac_address = mac, sys_ip_address = ip,
           sys_operating_system = os, sys_kernel = ''NT '' @ version_string v, sys_architecture = arch,
           sys_vm_platform = [], sys_icon = chassis_type_as_system_icon chassis_type\<rparr>))))))))"

section \<open>Info::Adapters\<close>

datatype medium = Unspecified | Medium_802_3 | Wireless_lan | Native_802_11 | Other_medium

text \<open>An entry of \<open>GetAdaptersInfo\<close> with the row \<open>GetIfEntry2\<close> fills for its index; the
  address has room for eight bytes.\<close>

record win_adapter =
  wad_address :: "8 word list"
  wad_ip :: string
  wad_medium :: medium
  wad_alias :: "string outcome"
  wad_up :: bool
  wad_in :: "64 word"
  wad_out :: "64 word"
  wad_mtu :: "32 word"
  wad_speed :: "64 word"
  wad_time :: "64 word"

definition win_adapter_mac :: "8 word list \<Rightarrow> string outcome" where
  "win_adapter_mac bs = (if length bs < 8 then Inl UB else Inr (join (CHR '':'') (map hex_upper (take 8 bs))))"

definition win_adapter_step :: "msg_adapter list \<Rightarrow> win_adapter \<Rightarrow> msg_adapter list outcome" where
  "win_adapter_step adapters a =
     (if wad_medium a \<noteq> Native_802_11 \<and> wad_medium a \<noteq> Wireless_lan \<and> wad_medium a \<noteq> Medium_802_3 \<and>
         wad_medium a \<noteq> Unspecified then Inr adapters
      else
        bind (wad_alias a) (\<lambda>name.
        bind (win_adapter_mac (wad_address a)) (\<lambda>mac.
        Inr (adapters @
          [\<lparr>ad_name = name, ad_state = (if wad_up a then Up else Down), ad_link_speed = wad_speed a,
            ad_mtu = ucast (wad_mtu a), ad_mac_address = mac, ad_ip_address = (if wad_up a then wad_ip a else []),
            ad_bytes_rx = wad_in a, ad_bytes_tx = wad_out a, ad_time = wad_time a\<rparr>]))))"

definition info_adapters_windows :: "win_adapter list sized_call \<Rightarrow> msg_adapters expected outcome" where
  "info_adapters_windows f =
     bind (win32_run_data f) (\<lambda>infos.
     bind (foldM win_adapter_step [] infos) (\<lambda>adapters.
     Inr (Inr \<lparr>ads_adapters = adapters\<rparr>)))"

section \<open>Lemmas\<close>

text \<open>A name comes back as it was written when the size counts the NUL behind it; when the second call fails
  it is a text of NULs.\<close>

lemma win32_run_string_name:
  assumes "szc_size f = Suc (length name)" and "length name < 2 ^ 63"
    and "szc_fill f (Suc (length name)) = Some (name @ CHR 0x00 # rest)"
  shows "win32_run_string f = Inr name"
  using assms by (simp add: win32_run_string_def size_sub_le substr_def)

lemma win32_run_string_failed:
  assumes "szc_size f = Suc n" and "n < 2 ^ 63" and "szc_fill f (Suc n) = None"
  shows "win32_run_string f = Inr (replicate n (CHR 0x00))"
  using assms
  by (simp add: win32_run_string_def size_sub_le substr_def take_replicate del: replicate_Suc)

text \<open>The loopback card of Windows has an address, and is not passed over.\<close>

lemma loopback_reported:
  assumes "first_unicast AF_INET nic = Some a" and "wa_text a = ''127.0.0.1''" and "length (wcd_physical nic) = 8"
  shows "win_addresses (nic # nics) = Inr (''127.0.0.1'', mac_text (wcd_physical nic))"
  using assms by (simp add: win_mac_def)

text \<open>The address of a card is written with two bytes that do not belong to it.\<close>

lemma win_adapter_mac_eight:
  assumes "length bs = 6"
  shows "win_adapter_mac (bs @ [0, 0]) = Inr (mac_text bs @ '':00:00'')"
proof -
  obtain a b c d e f where "bs = [a, b, c, d, e, f]"
    using assms by (auto simp: numeral_eq_Suc length_Suc_conv)
  then show ?thesis by (simp add: win_adapter_mac_def mac_text_def hex_upper_def)
qed

definition listed_medium :: "win_adapter \<Rightarrow> bool" where
  "listed_medium a \<longleftrightarrow> wad_medium a \<in> {Native_802_11, Wireless_lan, Medium_802_3, Unspecified}"

lemma win_adapters_listed:
  assumes "info_adapters_windows f = Inr (Inr m)"
  shows "\<exists>infos. win32_run_data f = Inr infos \<and>
    list_all2 (\<lambda>a d. wad_alias a = Inr (ad_name d) \<and> win_adapter_mac (wad_address a) = Inr (ad_mac_address d) \<and>
       ad_bytes_rx d = wad_in a \<and> ad_bytes_tx d = wad_out a \<and> (ad_ip_address d \<noteq> [] \<longrightarrow> ad_state d = Up))
      (filter listed_medium infos) (ads_adapters m)"
proof -
  let ?R = "\<lambda>a d. wad_alias a = Inr (ad_name d) \<and> win_adapter_mac (wad_address a) = Inr (ad_mac_address d) \<and>
       ad_bytes_rx d = wad_in a \<and> ad_bytes_tx d = wad_out a \<and> (ad_ip_address d \<noteq> [] \<longrightarrow> ad_state d = Up)"
  have step: "foldM win_adapter_step before infos = Inr after \<Longrightarrow>
      \<exists>ds. after = before @ ds \<and> list_all2 ?R (filter listed_medium infos) ds" for infos before after
  proof (induction infos arbitrary: before)
    case Nil
    then show ?case by simp
  next
    case (Cons a infos)
    show ?case
    proof (cases "listed_medium a")
      case False
      with Cons show ?thesis by (simp add: win_adapter_step_def listed_medium_def)
    next
      case True
      with Cons.prems have "\<exists>d. win_adapter_step before a = Inr (before @ [d]) \<and> ?R a d"
        by (auto simp: win_adapter_step_def listed_medium_def outcome_simps split: if_splits)
      then obtain d where d: "win_adapter_step before a = Inr (before @ [d])" "?R a d" by blast
      with Cons.prems have "foldM win_adapter_step (before @ [d]) infos = Inr after" by simp
      from Cons.IH [OF this] d(2) True show ?thesis by auto
    qed
  qed
  from assms obtain infos where "win32_run_data f = Inr infos" "foldM win_adapter_step [] infos = Inr (ads_adapters m)"
    by (auto simp: info_adapters_windows_def outcome_simps)
  with step show ?thesis by fastforce
qed

end
