(* ===== verification/Expected.thy ===== *)
theory Expected
  imports Rest
begin

text \<open>
  \<open>externals/ljh/include/ljh/expected.hpp\<close>: a flag and a union, in which at most one object lives.
  The other theories have the sum type in its place; here the two are compared.  What can be done with a
  member of the union depends on its type: a trivial assignment starts the life of an object, the assignment of
  a class needs one that lives already.  The front end's branch on a result (\<open>src/server/rest.cpp\<close>)
  is written again over the union.
\<close>

section \<open>The union\<close>

datatype ('v, 'e) held = Dead | Val 'v | Unex 'e

record ('v, 'e) storage =
  has_val :: bool
  held :: "('v, 'e) held"

text \<open>Of the two types: whether assignment and destruction are trivial, and what moving from an object
  leaves of it.\<close>

record ('v, 'e) traits =
  trivial_val :: bool
  trivial_err :: bool
  husk_val :: "'v \<Rightarrow> 'v"
  husk_err :: "'e \<Rightarrow> 'e"

definition get_val :: "('v, 'e) held \<Rightarrow> 'v outcome" where
  "get_val u = (case u of Val v \<Rightarrow> Inr v | _ \<Rightarrow> Inl UB)"

definition get_err :: "('v, 'e) held \<Rightarrow> 'e outcome" where
  "get_err u = (case u of Unex e \<Rightarrow> Inr e | _ \<Rightarrow> Inl UB)"

definition set_val :: "('v, 'e) traits \<Rightarrow> ('v, 'e) held \<Rightarrow> 'v \<Rightarrow> ('v, 'e) held outcome" where
  "set_val t u v = (case u of Val _ \<Rightarrow> Inr (Val v) | _ \<Rightarrow> (if trivial_val t then Inr (Val v) else Inl UB))"

definition set_err :: "('v, 'e) traits \<Rightarrow> ('v, 'e) held \<Rightarrow> 'e \<Rightarrow> ('v, 'e) held outcome" where
  "set_err t u e = (case u of Unex _ \<Rightarrow> Inr (Unex e) | _ \<Rightarrow> (if trivial_err t then Inr (Unex e) else Inl UB))"

definition end_val :: "('v, 'e) traits \<Rightarrow> ('v, 'e) held \<Rightarrow> ('v, 'e) held outcome" where
  "end_val t u = (case u of Val _ \<Rightarrow> Inr Dead | _ \<Rightarrow> (if trivial_val t then Inr u else Inl UB))"

definition end_err :: "('v, 'e) traits \<Rightarrow> ('v, 'e) held \<Rightarrow> ('v, 'e) held outcome" where
  "end_err t u = (case u of Unex _ \<Rightarrow> Inr Dead | _ \<Rightarrow> (if trivial_err t then Inr u else Inl UB))"

section \<open>expected_storage\<close>

definition storage_default :: "'v \<Rightarrow> ('v, 'e) storage" where
  "storage_default v = \<lparr>has_val = True, held = Val v\<rparr>"

definition storage_of_value :: "'v \<Rightarrow> ('v, 'e) storage" where
  "storage_of_value v = \<lparr>has_val = True, held = Val v\<rparr>"

definition storage_of_unexpected :: "'e \<Rightarrow> ('v, 'e) storage" where
  "storage_of_unexpected e = \<lparr>has_val = False, held = Unex e\<rparr>"

text \<open>Copying assigns to a member of a union that holds nothing yet.\<close>

definition storage_copy :: "('v, 'e) traits \<Rightarrow> ('v, 'e) storage \<Rightarrow> ('v, 'e) storage outcome" where
  "storage_copy t rhs =
     (if has_val rhs
      then bind (get_val (held rhs)) (\<lambda>v. bind (set_val t Dead v) (\<lambda>u. Inr \<lparr>has_val = True, held = u\<rparr>))
      else bind (get_err (held rhs)) (\<lambda>e. bind (set_err t Dead e) (\<lambda>u. Inr \<lparr>has_val = False, held = u\<rparr>)))"

text \<open>Moving destroys the object moved from, and the flag still says that there is one.  The result has the
  new storage first.\<close>

definition storage_move ::
  "('v, 'e) traits \<Rightarrow> ('v, 'e) storage \<Rightarrow> (('v, 'e) storage \<times> ('v, 'e) storage) outcome" where
  "storage_move t rhs =
     (if has_val rhs
      then
        bind (get_val (held rhs)) (\<lambda>v. bind (set_val t Dead v) (\<lambda>u.
        bind (end_val t (Val (husk_val t v))) (\<lambda>u'. Inr (\<lparr>has_val = True, held = u\<rparr>, rhs\<lparr>held := u'\<rparr>))))
      else
        bind (get_err (held rhs)) (\<lambda>e. bind (set_err t Dead e) (\<lambda>u.
        bind (end_err t (Unex (husk_err t e))) (\<lambda>u'. Inr (\<lparr>has_val = False, held = u\<rparr>, rhs\<lparr>held := u'\<rparr>)))))"

definition storage_destroy :: "('v, 'e) traits \<Rightarrow> ('v, 'e) storage \<Rightarrow> ('v, 'e) held outcome" where
  "storage_destroy t s = (if has_val s then end_val t (held s) else end_err t (held s))"

text \<open>The assignments, between two objects: what was held is destroyed, and then assigned to.\<close>

definition storage_copy_assign ::
  "('v, 'e) traits \<Rightarrow> ('v, 'e) storage \<Rightarrow> ('v, 'e) storage \<Rightarrow> ('v, 'e) storage outcome" where
  "storage_copy_assign t this rhs =
     bind (storage_destroy t this) (\<lambda>u.
     if has_val rhs
     then bind (get_val (held rhs)) (\<lambda>v. bind (set_val t u v) (\<lambda>u'. Inr \<lparr>has_val = True, held = u'\<rparr>))
     else bind (get_err (held rhs)) (\<lambda>e. bind (set_err t u e) (\<lambda>u'. Inr \<lparr>has_val = False, held = u'\<rparr>)))"

definition storage_move_assign ::
  "('v, 'e) traits \<Rightarrow> ('v, 'e) storage \<Rightarrow> ('v, 'e) storage \<Rightarrow> (('v, 'e) storage \<times> ('v, 'e) storage) outcome" where
  "storage_move_assign t this rhs =
     bind (storage_destroy t this) (\<lambda>u.
     if has_val rhs
     then
       bind (get_val (held rhs)) (\<lambda>v. bind (set_val t u v) (\<lambda>u'.
       Inr (\<lparr>has_val = True, held = u'\<rparr>, rhs\<lparr>held := Val (husk_val t v)\<rparr>)))
     else
       bind (get_err (held rhs)) (\<lambda>e. bind (set_err t u e) (\<lambda>u'.
       Inr (\<lparr>has_val = False, held = u'\<rparr>, rhs\<lparr>held := Unex (husk_err t e)\<rparr>))))"

section \<open>expected\<close>

definition assign_value ::
  "('v, 'e) traits \<Rightarrow> ('v, 'e) storage \<Rightarrow> 'v \<Rightarrow> ('v, 'e) storage outcome" where
  "assign_value t s v =
     bind (if has_val s then Inr (held s) else end_err t (held s)) (\<lambda>u.
     bind (set_val t u v) (\<lambda>u'. Inr \<lparr>has_val = True, held = u'\<rparr>))"

definition assign_unexpected ::
  "('v, 'e) traits \<Rightarrow> ('v, 'e) storage \<Rightarrow> 'e \<Rightarrow> ('v, 'e) storage outcome" where
  "assign_unexpected t s e =
     bind (if has_val s then end_val t (held s) else Inr (held s)) (\<lambda>u.
     bind (set_err t u e) (\<lambda>u'. Inr \<lparr>has_val = False, held = u'\<rparr>))"

text \<open>\<open>emplace\<close> for a type whose construction may throw and whose move may not, and for one whose move
  may throw as well: there the error is kept, and put back when the construction throws.  The storage that is left
  is returned next to the fault.\<close>

definition emplace_nothrow_move ::
  "('v, 'e) traits \<Rightarrow> ('v, 'e) storage \<Rightarrow> 'v outcome \<Rightarrow> ('v, 'e) storage outcome" where
  "emplace_nothrow_move t s made = bind made (assign_value t s)"

definition emplace_rollback ::
  "('v, 'e) traits \<Rightarrow> ('v, 'e) storage \<Rightarrow> 'v outcome \<Rightarrow> unit outcome \<times> ('v, 'e) storage" where
  "emplace_rollback t s made =
     (if has_val s
      then
        (case bind made (set_val t (held s)) of
           Inl f \<Rightarrow> (Inl f, s)
         | Inr u \<Rightarrow> (Inr (), \<lparr>has_val = True, held = u\<rparr>))
      else
        (case bind (get_err (held s)) (\<lambda>e. bind (end_err t (Unex (husk_err t e))) (\<lambda>u. Inr (e, u))) of
           Inl f \<Rightarrow> (Inl f, s)
         | Inr (e, u) \<Rightarrow>
             (case bind made (set_val t u) of
                Inr u' \<Rightarrow> (Inr (), \<lparr>has_val = True, held = u'\<rparr>)
              | Inl UB \<Rightarrow> (Inl UB, \<lparr>has_val = False, held = u\<rparr>)
              | Inl (Throw x) \<Rightarrow>
                  (case set_err t u e of
                     Inl f \<Rightarrow> (Inl f, \<lparr>has_val = False, held = u\<rparr>)
                   | Inr u' \<Rightarrow> (Inl (Throw x), \<lparr>has_val = False, held = u'\<rparr>)))))"

definition error_of :: "('v, 'e) storage \<Rightarrow> 'e outcome" where
  "error_of s = get_err (held s)"

text \<open>\<open>value\<close>, \<open>operator*\<close> and \<open>operator->\<close>: \<open>bad_expected_access\<close> carries the error.\<close>

definition value_of :: "('v, 'e) storage \<Rightarrow> 'v outcome" where
  "value_of s = (if \<not> has_val s then bind (error_of s) (\<lambda>e. Inl (Throw Std_exception)) else get_val (held s))"

definition expected_value_or :: "('v, 'e) storage \<Rightarrow> 'v \<Rightarrow> 'v outcome" where
  "expected_value_or s u = (if has_val s then get_val (held s) else Inr u)"

definition expected_eq :: "('v, 'e) storage \<Rightarrow> ('v, 'e) storage \<Rightarrow> bool outcome" where
  "expected_eq lhs rhs =
     (if has_val lhs \<noteq> has_val rhs then Inr False
      else if has_val lhs then bind (get_val (held lhs)) (\<lambda>v. bind (get_val (held rhs)) (\<lambda>w. Inr (v = w)))
      else bind (get_err (held lhs)) (\<lambda>d. bind (get_err (held rhs)) (\<lambda>e. Inr (d = e))))"

definition expected_eq_value :: "('v, 'e) storage \<Rightarrow> 'v \<Rightarrow> bool outcome" where
  "expected_eq_value lhs v = (if \<not> has_val lhs then Inr False else bind (get_val (held lhs)) (\<lambda>w. Inr (w = v)))"

text \<open>The comparison with an \<open>unexpected\<close> looks at the value, for the two types being one.\<close>

definition expected_eq_unexpected :: "('a, 'a) storage \<Rightarrow> 'a \<Rightarrow> bool outcome" where
  "expected_eq_unexpected lhs e = (if has_val lhs then Inr False else bind (get_val (held lhs)) (\<lambda>w. Inr (w = e)))"

section \<open>The front end\<close>

definition respond ::
  "string \<Rightarrow> ('m \<Rightarrow> string outcome) option \<Rightarrow> request \<Rightarrow> ('m, errors) storage \<Rightarrow> response option outcome" where
  "respond version dump req message_res =
     (if has_val message_res
      then
        (case dump of
           None \<Rightarrow> Inr (Some (void_response version req))
         | Some d \<Rightarrow>
             (if req_header req Content_type = Some ''application/json''
              then bind (value_of message_res) (\<lambda>m. bind (d m) (\<lambda>body. Inr (Some (json_response version body req))))
              else Inr (Some (empty_response version 415 req))))
      else
        bind (error_of message_res) (\<lambda>e. if e = NotImplemented then Inr (Some (empty_response version 501 req)) else
        bind (error_of message_res) (\<lambda>e. if e = Failed then Inr (Some (empty_response version 500 req)) else
        bind (error_of message_res) (\<lambda>e. if e = NeedsPassword then Inr (Some (unauthorized_response version req))
          else Inr None))))"

section \<open>Lemmas\<close>

text \<open>The storage of a result, as \<open>return\<close> makes it.\<close>

definition storage_of :: "'e + 'v \<Rightarrow> ('v, 'e) storage" where
  "storage_of r = (case r of Inl e \<Rightarrow> storage_of_unexpected e | Inr v \<Rightarrow> storage_of_value v)"

named_theorems slot_defs \<open>what can be done with the members of the union\<close>

lemmas [slot_defs] = get_val_def get_err_def set_val_def set_err_def end_val_def end_err_def

lemma storage_of_simps [simp]:
  "has_val (storage_of r) = (case r of Inl _ \<Rightarrow> False | Inr _ \<Rightarrow> True)"
  "held (storage_of r) = (case r of Inl e \<Rightarrow> Unex e | Inr v \<Rightarrow> Val v)"
  by (simp_all add: storage_of_def storage_of_unexpected_def storage_of_value_def split: sum.split)

lemma storage_of_eq: "storage_of r = \<lparr>has_val = (case r of Inl _ \<Rightarrow> False | Inr _ \<Rightarrow> True),
  held = (case r of Inl e \<Rightarrow> Unex e | Inr v \<Rightarrow> Val v)\<rparr>"
  by (simp add: storage_of_def storage_of_unexpected_def storage_of_value_def split: sum.split)

text \<open>The type of what a result holds.\<close>

definition trivial :: "('v, 'e) traits \<Rightarrow> 'e + 'v \<Rightarrow> bool" where
  "trivial t r = (case r of Inl _ \<Rightarrow> trivial_err t | Inr _ \<Rightarrow> trivial_val t)"

lemma observe_storage:
  "value_of (storage_of r) = (case r of Inl _ \<Rightarrow> Inl (Throw Std_exception) | Inr v \<Rightarrow> Inr v)"
  "error_of (storage_of r) = (case r of Inl e \<Rightarrow> Inr e | Inr _ \<Rightarrow> Inl UB)"
  "expected_value_or (storage_of r) u = Inr (case r of Inl _ \<Rightarrow> u | Inr v \<Rightarrow> v)"
  "expected_eq (storage_of r) (storage_of r') = Inr (r = r')"
  "expected_eq_value (storage_of r) u = Inr (r = Inr u)"
  "storage_destroy t (storage_of r) = Inr Dead"
  by (auto simp: value_of_def error_of_def expected_value_or_def expected_eq_def expected_eq_value_def storage_destroy_def
      slot_defs split: sum.split)

lemma copy_storage:
  "storage_copy t (storage_of r) = (if trivial t r then Inr (storage_of r) else Inl UB)"
  "storage_copy_assign t (storage_of r') (storage_of r) = (if trivial t r then Inr (storage_of r) else Inl UB)"
  by (simp_all add: storage_copy_def storage_copy_assign_def storage_destroy_def trivial_def slot_defs storage_of_eq
      split: sum.split)

lemma move_storage:
  "storage_move t (storage_of r) =
     (if trivial t r then Inr (storage_of r, (storage_of r)\<lparr>held := Dead\<rparr>) else Inl UB)"
  "storage_move_assign t (storage_of r') (storage_of r) =
     (if trivial t r then Inr (storage_of r, storage_of (case r of Inl e \<Rightarrow> Inl (husk_err t e) | Inr v \<Rightarrow> Inr (husk_val t v)))
      else Inl UB)"
  by (simp_all add: storage_move_def storage_move_assign_def storage_destroy_def trivial_def slot_defs storage_of_eq
      split: sum.split)

lemma assign_storage:
  "assign_value t (storage_of r) v =
     (case r of Inl _ \<Rightarrow> (if trivial_val t then Inr (storage_of (Inr v)) else Inl UB) | Inr _ \<Rightarrow> Inr (storage_of (Inr v)))"
  "assign_unexpected t (storage_of r) e =
     (case r of Inr _ \<Rightarrow> (if trivial_err t then Inr (storage_of (Inl e)) else Inl UB) | Inl _ \<Rightarrow> Inr (storage_of (Inl e)))"
  by (simp_all add: assign_value_def assign_unexpected_def slot_defs storage_of_eq split: sum.split)

text \<open>A construction that throws leaves the error of the result in place, if that is trivial.\<close>

lemma emplace_rolls_back:
  "emplace_rollback t (storage_of r) (Inl (Throw x)) =
     (if trivial_err t \<or> (\<exists>v. r = Inr v) then (Inl (Throw x), storage_of r)
      else (Inl UB, (storage_of r)\<lparr>held := Dead\<rparr>))"
  by (auto simp: emplace_rollback_def slot_defs storage_of_eq split: sum.split)

lemma eq_unexpected_undefined: "expected_eq_unexpected (storage_of (Inl e)) d = Inl UB"
  by (simp add: expected_eq_unexpected_def slot_defs)

section \<open>Properties\<close>

text \<open>(C28) The sum type stands for \<open>expected\<close> rightly, as long as a result is not copied or moved: for
  messages of any type the front end sends for the storage of a result what the model says for the result, and the
  destructor finds the object it expects; but a copy or a move of a result, or an assignment to it, is defined only
  for what is held being of a trivial type, and no message is.\<close>

theorem expected_is_sum:
  "respond version dump req (storage_of r) =
     (case r of Inr m \<Rightarrow> reply_value version dump req m | Inl e \<Rightarrow> Inr (reply_error version req e)) \<and>
   storage_destroy t (storage_of r) = Inr Dead \<and>
   storage_copy t (storage_of r) = (if trivial t r then Inr (storage_of r) else Inl UB) \<and>
   storage_copy_assign t (storage_of r') (storage_of r) = (if trivial t r then Inr (storage_of r) else Inl UB) \<and>
   bind (storage_move t (storage_of r)) (\<lambda>(s, s'). bind (storage_destroy t s') (\<lambda>u. Inr s)) =
     (if trivial t r then Inr (storage_of r) else Inl UB)"
proof -
  have "respond version dump req (storage_of r) =
     (case r of Inr m \<Rightarrow> reply_value version dump req m | Inl e \<Rightarrow> Inr (reply_error version req e))"
  proof (cases r)
    case (Inl e)
    then show ?thesis by (cases e) (simp_all add: respond_def observe_storage reply_error_def)
  next
    case (Inr m)
    then show ?thesis by (simp add: respond_def observe_storage reply_value_def split: option.split)
  qed
  moreover have "bind (storage_move t (storage_of r)) (\<lambda>(s, s'). bind (storage_destroy t s') (\<lambda>u. Inr s)) =
     (if trivial t r then Inr (storage_of r) else Inl UB)"
    by (simp add: move_storage storage_destroy_def slot_defs trivial_def split: sum.split)
  ultimately show ?thesis by (simp add: observe_storage copy_storage)
qed

end
