(* ===== verification/Spec2Isabelle.thy ===== *)
theory Spec2Isabelle
  imports Base64 Ini Auth Rest Services Host_Info Drives_Info Server_Main Protocol Terminal Linux_Term
    Models Service_Model Client_Server Remote Managers Version Windows_Service Json_Messages Systemd_Bus
    Mapped_File_Windows Windows_Host Expected
begin

text \<open>
  Bakaneko manages machines over a network.  A daemon (\<open>src/server\<close>) runs on every machine
  and answers HTTP requests with JSON; a Qt client (\<open>src/client\<close>) keeps a list of such machines,
  refreshes what it shows of them, and sends them commands.  Both share the messages
  (\<open>src/protobuf\<close>), two headers (\<open>src/common\<close>) and the helper library ljh
  (\<open>externals/ljh\<close>).

  \<^bold>\<open>Conventions.\<close>  \<open>Prelude\<close> has the result type \<open>outcome\<close>: a C++ call
  returns \<open>Inr\<close>, or \<open>Inl\<close> with the class of the exception it throws or with \<open>UB\<close>
  where the language leaves the step undefined.  Operations of the server that reach the machine are functions
  of a world of any type, \<open>'w call\<close>; what they ask of it (the output of a command, a D-Bus property)
  is an argument.  Machine integers are words, strings are lists of 8-bit characters, vectors are lists with
  checked access.  Structures are records and enumerations are datatypes with the names of the source.

  \<^bold>\<open>The server.\<close>
  \<^item> \<open>Ljh_Strings\<close> (\<open>string_utils.hpp\<close>, \<open>get_index.hpp\<close>), \<open>Cxx_Numbers\<close>
    (\<open>std::stoi\<close>, \<open>std::stoull\<close>, \<open>std::to_string\<close> as the program calls them) and
    \<open>Version\<close> (\<open>version.hpp\<close>): the helpers.  The three versions of \<open>split\<close> are
    compared with the one list of separator-free pieces that joins to the string; a version that is printed is
    read back, and \<open>three_way\<close> is the order of the class \<open>linorder\<close> instantiated there.
  \<^item> \<open>Base64\<close> (\<open>base64.hpp\<close>): equivalence with the encoding of RFC 4648 over numbers, and the
    exact condition under which the decoder inverts the encoder.
  \<^item> \<open>Ini\<close> (\<open>ini.hpp\<close>): the configuration file, its search by name as a locale interpreted
    on sections and items; which files load, and what a loaded file answers.
  \<^item> \<open>Auth\<close> (\<open>info.cpp\<close>): who is let in, in terms of the two above.
  \<^item> \<open>Protocol\<close> (\<open>src/protobuf\<close>): the messages with their conversions to and from JSON, as
    interpretations of a locale of codecs.
  \<^item> \<open>Rest\<close> (\<open>rest.cpp\<close>): the dispatch, the composition of a response on every branch, and the
    connection as a state machine.  \<open>Expected\<close> (\<open>expected.hpp\<close>) has the results as the library
    stores them, and compares them with the sum type used everywhere else.
  \<^item> \<open>Services\<close> (\<open>services.cpp\<close>), \<open>Host_Info\<close> (\<open>system.cpp\<close>,
    \<open>network.cpp\<close>, \<open>updates.cpp\<close>), \<open>Drives_Info\<close> (\<open>drives.cpp\<close>): the
    operations behind the paths.  \<open>Windows_Host\<close> has the Windows branches of \<open>system.cpp\<close> and
    \<open>network.cpp\<close>, with the helper of \<open>windows.hpp\<close> for calls that size their buffer first.
  \<^item> \<open>Dbus\<close> (\<open>unix/dbus.hpp\<close>, \<open>dbus.cpp\<close>): the signatures of the types, the items of a
    message written and read back, calls, properties, connections and errors.  \<open>Systemd_Bus\<close> has the calls
    \<open>services.cpp\<close> makes through it, and refines the rows of \<open>Services\<close> to the documented replies
    of systemd.
  \<^item> \<open>Mapped_File\<close> (\<open>memory_mapped_file.cpp\<close>): files and views on Linux, and \<open>read_file\<close>
    over them, with \<open>Mapped_File_Windows\<close> for the other half; \<open>Doubles\<close> has the floating-point arithmetic that it, the rates of \<open>Models\<close> and the
    numbers of \<open>Protocol\<close> use.
  \<^item> \<open>Server_Main\<close> (\<open>main.cpp\<close>) and \<open>Windows_Service\<close>
    (\<open>windows_service.cpp\<close>): the program, and its life as a service of Windows, a step relation over
    the service thread, the control handler and the thread that waits for the stop event.

  \<^bold>\<open>The text of the messages.\<close>  The program leaves it to a vendored library
  (\<open>externals/nlohmann_json\<close>), which is modelled as far as the program calls it.
  \<^item> \<open>Json\<close>: the values, with the order of the members of an object as an invariant, and
    \<open>Utf8\<close>: well-formed byte sequences and the automaton of the serializer that recognises them.
  \<^item> \<open>Json_Escape\<close>, \<open>Json_Dump\<close> (\<open>serializer.hpp\<close>): strings, through a buffer of
    512 bytes that is never overrun, numbers, and values; a value is written exactly when its strings are UTF-8.
  \<^item> \<open>Json_Scan\<close> (\<open>lexer.hpp\<close>), \<open>Json_Parse\<close> (\<open>parser.hpp\<close>,
    \<open>json_sax.hpp\<close>): the scanner and the loop of the parser with its two stacks. Every text gives a value
    that satisfies the invariants or one of two errors, and parsing undoes \<open>dump\<close>.
  \<^item> \<open>Json_Messages\<close>: the messages of \<open>Protocol\<close> are such values.

  \<^bold>\<open>The client.\<close>
  \<^item> \<open>Tables\<close>, \<open>Models\<close>, \<open>Service_Model\<close> (\<open>src/client/models\<close> and the loops of the
    handlers in \<open>objects/server.cpp\<close>): the rows shown.  The contract of a handler, that the rows are
    those of the message, is proved once in the locale \<open>keyed_table\<close> and interpreted for adapters,
    drives and services.
  \<^item> \<open>Client_Server\<close> (\<open>objects/server.cpp\<close>): the object kept for a server.  A refresh starts
    requests in a thread pool, whose answers are queued for the thread of the object; \<open>client_step\<close>
    interleaves the timer, the answers in any order and the deliveries.  A latch counts what is under way, and
    the theorems tell exactly what it holds at every moment and when a refresh can start again.
  \<^item> \<open>Managers\<close> (\<open>src/client/managers\<close>, \<open>serverlistmodel.cpp\<close>, \<open>termlist.cpp\<close>):
    the list of servers and its copy in the settings, the settings, the choice of a terminal.
  \<^item> \<open>Terminal\<close>, \<open>Linux_Term\<close> (\<open>src/client/term\<close>): the two terminals, and the page a text
    of plain lines stands for as their common specification, in the locale \<open>plain_terminal\<close>.
  \<^item> \<open>Remote\<close> (\<open>objects/server.cpp\<close>, \<open>pty.cpp\<close>, \<open>screen.cpp\<close>): the packet
    that wakes a machine, the SSH session of a terminal, the screen.

  This theory joins the two programs, down to the bytes of the bodies: what the server writes the client reads,
  unless a string is not UTF-8, when the whole answer is an error; the network cards of a machine are the rows
  the client shows after a refresh; the request of the client to control a service does on the server what it
  says, and only with the password, down to the messages on the bus; every other request is answered too, though a body with an unknown action is undefined before the password is
  looked at; and the client cannot add a server, because it asks for the message of an earlier protocol.

  \<^bold>\<open>Loops.\<close>  Loops over data are structural recursion or folds.  \<open>unescape\<close>, \<open>split\<close> and
  the like carry a measure on the rest of the text, as the scanner of JSON does; the loop of its parser takes a
  token in every turn; \<open>to_emun_loop\<close> ends because the \<open>int\<close> it
  counts in overflows; \<open>pty_read\<close> may run for ever and is a \<open>partial_function\<close>, with the
  exact condition of its return proved.  No definition takes fuel.

  \<^bold>\<open>Assumptions.\<close>  A character is a signed 8-bit integer as on x86.  A handler, the end of a
  request and a call of \<open>update_info\<close> are each one step of \<open>client_step\<close>; the locks and the
  order of the flags inside a step are not modelled.  Doubles are rationals rounded to 53 bits; a
  division by zero gives no number, and converting it is undefined.  The decimal point of the locale,
  \<open>strtod\<close> and the digits of a floating-point number, which no message has, the transport of D-Bus,
  libssh, the sockets, the system calls on files, \<open>QSettings\<close> and the metrics of fonts are arguments, with
  what is relied on as hypotheses of the theorems.

  \<^bold>\<open>Not modelled.\<close>  The Windows branches of \<open>drives.cpp\<close> and \<open>updates.cpp\<close>, which do
  not compile: they call setters the messages no longer have; the maps and fixed arrays of the wrapper of D-Bus,
  which the program does not send; \<open>swap\<close> and the conversions between types of \<open>expected\<close>, which do
  not compile when they are used; the set-up of Qt in \<open>client/main.cpp\<close> and the QML files; the other headers of
  ljh, which are compile-time traits and wrappers of system calls; of the JSON library the indentation, the
  comments, the callbacks, the positions in error messages and the binary formats, which the program does not use;
  the vendored library for logging.
\<close>

section \<open>Messages between client and server\<close>

definition json_of_payload :: "payload \<Rightarrow> json" where
  "json_of_payload p =
     (case p of
        P_info m \<Rightarrow> json_of_system m
      | P_drives m \<Rightarrow> json_of_drives m
      | P_updates m \<Rightarrow> json_of_updates m
      | P_adapters m \<Rightarrow> json_of_adapters m
      | P_service m \<Rightarrow> json_of_serviceinfo m
      | P_services m \<Rightarrow> json_of_services m)"

text \<open>How the two programs use the JSON library: the server writes its replies with \<open>dump\<close> and
  parses the bodies of its requests.\<close>

definition uses_json :: "(rat \<Rightarrow> string) \<Rightarrow> lex_env \<Rightarrow> (json, payload, 's, 'c) codec \<Rightarrow> bool" where
  "uses_json f env cd \<longleftrightarrow> json_parse cd = parse env \<and> dump_reply cd = (\<lambda>p. dump f (json_of_payload p))"

lemma payload_message: "json_message (json_of_payload p)"
  by (cases p) (simp_all add: json_of_payload_def)

lemma payload_read_back:
  assumes "read body = Inr (json_of_payload p)"
  shows "decode_payload read (kind_of p) body = Inr p"
  using assms
  by (cases p)
    (simp_all add: decode_payload_def json_of_payload_def kind_of_def js_system.get_put js_drives.get_put
      js_updates.get_put js_adapters.get_put js_serviceinfo.get_put js_services.get_put)

text \<open>(C12) A refresh shows what the server sent: the answer to a request whose operation returned a
  message has a body that the client decodes, for the request of that message, to the same message; unless a
  string of it, anywhere, is not UTF-8, when the answer to the whole request is the status 500.\<close>

theorem client_reads_server:
  assumes "call req w = (Inr (Inr p), w')" and "req_header req Content_type = Some ''application/json''"
    and "uses_json f env cd"
  shows "\<exists>res. run version (Some (dump_reply cd)) call req w = (Inr (Some res), w') \<and>
    (if json_utf8 (json_of_payload p)
     then res_status res = 200 \<and> decode_payload (json_parse cd) (kind_of p) (res_body res) = Inr p
     else res_status res = 500)"
proof (cases "json_utf8 (json_of_payload p)")
  case True
  then have t: "dump f (json_of_payload p) = Inr (json_text f (json_of_payload p))"
    "parse env (json_text f (json_of_payload p)) = Inr (json_of_payload p)"
    using message_text [OF payload_message, of p f env] by simp_all
  show ?thesis
    using assms t(1) True payload_read_back [of "parse env" "json_text f (json_of_payload p)" p] t(2)
    by (simp add: run_def reply_value_def catch_exception_def uses_json_def json_response_def)
next
  case False
  then have "dump f (json_of_payload p) = Inl (Throw Json_type_error)"
    using message_text [OF payload_message, of p f env] by simp
  then show ?thesis
    using assms False by (simp add: run_def reply_value_def catch_exception_def uses_json_def empty_response_def)
qed

lemma codec_total:
  assumes "uses_json f env cd"
  shows "json_parse cd s \<noteq> Inl UB" and "dump_reply cd m \<noteq> Inl UB"
proof -
  show "json_parse cd s \<noteq> Inl UB" using parse_total [of env s] assms by (simp add: uses_json_def)
  show "dump_reply cd m \<noteq> Inl UB"
    using message_text [OF payload_message, of m f env] assms by (auto simp: uses_json_def split: if_splits)
qed


definition c_locale :: lex_env where
  "c_locale = \<lparr>decimal_point = CHR ''.'', strtod = \<lambda>s. None\<rparr>"

definition json_codec_of :: "('c \<Rightarrow> json \<Rightarrow> 'c outcome) \<Rightarrow> 'c \<Rightarrow> (json, payload, unit, 'c) codec" where
  "json_codec_of get dflt =
     \<lparr>json_parse = parse c_locale, dump_reply = (\<lambda>p. dump (\<lambda>q. []) (json_of_payload p)), services_from = \<lambda>j. Inr (),
      services_default = (), control_from = get dflt, control_default = dflt\<rparr>"

lemma json_codec_of_uses [simp]: "uses_json (\<lambda>q. []) c_locale (json_codec_of get dflt)"
  by (simp add: uses_json_def json_codec_of_def)

text \<open>Operations without an implementation.\<close>

definition idle_api :: "(nat, payload, msg_servicesrequest, msg_control) api" where
  "idle_api =
     (let none = (\<lambda>w. (Inr (Inl NotImplemented), w)); refuse = (\<lambda>w. (Inr (Inl NotImplemented), w)) in
      \<lparr>info_drives = \<lambda>f. none, info_system = \<lambda>f. none, info_updates = \<lambda>f. none, info_adapters = \<lambda>f. none,
       info_service = \<lambda>f. none, info_services = \<lambda>f q. none,
       control_shutdown = \<lambda>f. refuse, control_reboot = \<lambda>f. refuse, control_service = \<lambda>f q. refuse\<rparr>)"

definition program_codec :: "(json, payload, msg_servicesrequest, msg_control) codec" where
  "program_codec =
     \<lparr>json_parse = parse c_locale, dump_reply = (\<lambda>p. dump (\<lambda>q. []) (json_of_payload p)),
      services_from = get_servicesrequest, services_default = \<lparr>sr_type = []\<rparr>,
      control_from = get_control, control_default = \<lparr>ctl_id = [], ctl_action = Stop\<rparr>\<rparr>"


theorem client_reads_server_witness:
  "\<exists>res. run ''1'' (Some (dump_reply (json_codec_of (\<lambda>c j. Inr c) ())))
       (\<lambda>r w. (Inr (Inr (P_info (no_info\<lparr>sys_hostname := [CHR 0xE9]\<rparr>))), w)) (sample_request Get ''/system'') (0 :: nat) =
     (Inr (Some res), 0) \<and> res_status res = 500"
proof -
  have "\<not> json_utf8 (json_of_payload (P_info (no_info\<lparr>sys_hostname := [CHR 0xE9]\<rparr>)))"
    by (simp add: json_of_payload_def system_utf8 utf8_def follow_ranges_def byte_of_def)
  then show ?thesis
    using client_reads_server [of "\<lambda>r w. (Inr (Inr (P_info (no_info\<lparr>sys_hostname := [CHR 0xE9]\<rparr>))), w)" "sample_request Get ''/system''"
      "0 :: nat" _ 0 "\<lambda>q. []" c_locale "json_codec_of (\<lambda>c j. Inr c) ()" "''1''"]
    by (simp add: sample_request_def)
qed

section \<open>The adapters of a machine\<close>

text \<open>A server on Linux whose operation behind \<open>GET /network/adapters\<close> reads the machine
  \<open>net_env\<close>.\<close>

definition serves_adapters ::
  "(rat \<Rightarrow> string) \<Rightarrow> (json, payload, 's, 'c) codec \<Rightarrow> (net_env, payload, 's, 'c) api \<Rightarrow> bool" where
  "serves_adapters f cd ops \<longleftrightarrow>
     dump_reply cd = (\<lambda>p. dump f (json_of_payload p)) \<and>
     info_adapters ops = (\<lambda>flds env. (bind (info_adapters_linux env) (\<lambda>r. Inr (map_sum (\<lambda>e. e) P_adapters r)), env))"

lemma adapters_answer:
  assumes "serves_adapters f cd ops" and "info_adapters_linux env = Inr (Inr m)"
    and "gr_path r = ''/network/adapters''" and "json_utf8 (json_of_adapters m)"
  shows "handler version cd ops (get_message v r) env =
    (Inr (Some (json_response version (json_text f (json_of_adapters m)) (get_message v r))), env)"
  using assms message_text [of "json_of_adapters m" f]
  by (simp add: handler_def Let_def get_message_def run_def serves_adapters_def reply_value_def
    catch_exception_def json_of_payload_def)

definition shows_card :: "net_env \<Rightarrow> adapter_row \<Rightarrow> bool" where
  "shows_card env row \<longleftrightarrow>
     (\<exists>d. adapter_info env (ad_name (ar_cur row)) = Inr d \<and>
        ad_bytes_rx (ar_cur row) = ad_bytes_rx d \<and> ad_bytes_tx (ar_cur row) = ad_bytes_tx d \<and>
        ad_time (ar_cur row) = ad_time d \<and> ad_state (ar_cur row) = ad_state d \<and>
        ad_link_speed (ar_cur row) = ad_link_speed d)"

lemma listed_rows:
  assumes "info_adapters_linux env = Inr (Inr m)" and "net_files env = Inr names" and "distinct names"
    and "distinct (map (\<lambda>r. ad_name (ar_cur r)) (tbl_rows t))"
  shows "\<exists>t'. handle_adapters_rows m t = Inr t' \<and>
    (\<lambda>r. ad_name (ar_cur r)) ` set (tbl_rows t') =
      {n \<in> set names. net_has_type env n \<and> net_read env n ''type'' \<noteq> Inr ''772''} \<and>
    (\<forall>row \<in> set (tbl_rows t'). shows_card env row)"
proof -
  let ?cards = "filter (\<lambda>n. net_has_type env n \<and> net_read env n ''type'' \<noteq> Inr ''772'') names"
  have m: "map ad_name (ads_adapters m) = ?cards" "\<forall>d \<in> set (ads_adapters m). adapter_info env (ad_name d) = Inr d"
    using mapM_adapter_info [OF info_adapters_spec [OF assms(1,2)]] by simp_all
  have dm: "distinct (map ad_name (ads_adapters m))" using assms(3) by (simp add: m(1))
  obtain t' where t': "handle_adapters_rows m t = Inr t'"
    "distinct (map (\<lambda>r. ad_name (ar_cur r)) (tbl_rows t'))"
    "(\<lambda>r. ad_name (ar_cur r)) ` set (tbl_rows t') = ad_name ` set (ads_adapters m)"
    and rows: "\<forall>d \<in> set (ads_adapters m). \<exists>r \<in> set (tbl_rows t'). ad_name (ar_cur r) = ad_name d \<and>
        ad_bytes_rx (ar_cur r) = ad_bytes_rx d \<and> ad_bytes_tx (ar_cur r) = ad_bytes_tx d \<and>
        ad_time (ar_cur r) = ad_time d \<and> ad_state (ar_cur r) = ad_state d \<and>
        ad_link_speed (ar_cur r) = ad_link_speed d"
    using adapters_synced [OF assms(4), of m] dm by blast
  have inj: "inj_on (\<lambda>r. ad_name (ar_cur r)) (set (tbl_rows t'))" using t'(2) by (simp only: distinct_map)
  have "shows_card env row" if row: "row \<in> set (tbl_rows t')" for row
  proof -
    have "ad_name (ar_cur row) \<in> ad_name ` set (ads_adapters m)" using row t'(3) by blast
    then obtain d where d: "d \<in> set (ads_adapters m)" "ad_name (ar_cur row) = ad_name d" by blast
    with rows obtain r where r: "r \<in> set (tbl_rows t')" "ad_name (ar_cur r) = ad_name d"
      "ad_bytes_rx (ar_cur r) = ad_bytes_rx d" "ad_bytes_tx (ar_cur r) = ad_bytes_tx d"
      "ad_time (ar_cur r) = ad_time d" "ad_state (ar_cur r) = ad_state d"
      "ad_link_speed (ar_cur r) = ad_link_speed d" by blast
    with d(2) have "row = r" using inj_onD [OF inj _ row r(1)] by simp
    with r d m(2) show ?thesis unfolding shows_card_def by (intro exI [of _ d]) simp
  qed
  moreover have "ad_name ` set (ads_adapters m) = set ?cards" unfolding m(1) [symmetric] by simp
  ultimately show ?thesis using t'(1,3) by auto
qed

text \<open>(C1) A refresh shows the network cards of the machine: the server's answer to the request
  for adapters, when it reads its files without a failure and they hold UTF-8, is taken by the client, and
  after its handler has run the rows are exactly the devices of the machine that have a type and are no loopback, each with the
  counters, the time, the state and the speed the machine reported.\<close>

theorem machine_adapters_shown:
  assumes "serves_adapters f cd ops" and "info_adapters_linux env = Inr (Inr m)"
    and "net_files env = Inr names" and "distinct names"
    and "json_utf8 (json_of_adapters m)"
    and "c_pending c = before @ r # after" and "gr_path r = ''/network/adapters''" and "gr_kind r = K_adapters"
    and "c_queued c = []" and "c_steps c \<noteq> 0"
    and "distinct (map (\<lambda>r. ad_name (ar_cur r)) (tbl_rows (c_adapters c)))"
  shows "\<exists>res c'. handler version cd ops (get_message v r) env = (Inr (Some res), env) \<and>
    client_run (parse le) fm c [Answer r (Reply (res_status res) (res_body res)), Delivered (P_adapters m)] c' \<and>
    (\<lambda>r. ad_name (ar_cur r)) ` set (tbl_rows (c_adapters c')) =
      {n \<in> set names. net_has_type env n \<and> net_read env n ''type'' \<noteq> Inr ''772''} \<and>
    (\<forall>row \<in> set (tbl_rows (c_adapters c')). shows_card env row)"
proof -
  let ?c = "set_control (gr_control r) True (c\<lparr>c_pending := before @ after\<rparr>)"
  from listed_rows [OF assms(2-4,11)] obtain t where
    t: "handle_adapters_rows m (c_adapters c) = Inr t"
      "(\<lambda>r. ad_name (ar_cur r)) ` set (tbl_rows t) =
        {n \<in> set names. net_has_type env n \<and> net_read env n ''type'' \<noteq> Inr ''772''}"
      "\<forall>row \<in> set (tbl_rows t). shows_card env row" by blast
  have "\<exists>c'. deliver fm (P_adapters m) ?c = Inr c' \<and> c_adapters c' = t"
    by (rule deliver_adapters) (simp_all add: t(1) assms(10))
  then obtain c' where c': "deliver fm (P_adapters m) ?c = Inr c'" "c_adapters c' = t" by blast
  have "parse le (json_text f (json_of_adapters m)) = Inr (json_of_payload (P_adapters m))"
    using message_text [of "json_of_adapters m" f le] assms(5) by (simp add: json_of_payload_def)
  then have d: "decode_payload (parse le) (gr_kind r) (json_text f (json_of_adapters m)) = Inr (P_adapters m)"
    using payload_read_back [of "parse le" "json_text f (json_of_adapters m)" "P_adapters m"] assms(8) by (simp add: kind_of_def)
  have "client_run (parse le) fm c [Answer r (Reply 200 (json_text f (json_of_adapters m))), Delivered (P_adapters m)] c'"
    by (rule answer_and_deliver [OF assms(6,9) d c'(1)])
  moreover note adapters_answer [OF assms(1,2,7,5), of version v]
  ultimately show ?thesis using t(2,3) c'(2)
    by (intro exI [of _ "json_response version (json_text f (json_of_adapters m)) (get_message v r)"] exI [of _ c'])
      (simp add: json_response_def)
qed

definition adapters_api :: "(net_env, payload, unit, unit) api" where
  "adapters_api =
     (let none = (\<lambda>w. (Inr (Inl NotImplemented), w)); refuse = (\<lambda>w. (Inr (Inl NotImplemented), w)) in
      \<lparr>info_drives = \<lambda>f. none, info_system = \<lambda>f. none, info_updates = \<lambda>f. none,
       info_adapters = \<lambda>f env. (bind (info_adapters_linux env) (\<lambda>r. Inr (map_sum (\<lambda>e. e) P_adapters r)), env),
       info_service = \<lambda>f. none, info_services = \<lambda>f q. none,
       control_shutdown = \<lambda>f. refuse, control_reboot = \<lambda>f. refuse, control_service = \<lambda>f q. refuse\<rparr>)"

definition adapters_client :: client where
  "adapters_client = (network_get ''/network/adapters'' K_adapters Av_adapters (new_client mono_font [] [] []))\<lparr>c_steps := 1\<rparr>"

theorem machine_adapters_shown_witness:
  "\<exists>es c'. client_run (parse c_locale) mono_font adapters_client es c' \<and>
     (\<lambda>r. ad_name (ar_cur r)) ` set (tbl_rows (c_adapters c')) = {''eth0''}"
proof -
  let ?r = "\<lparr>gr_path = ''/network/adapters'', gr_kind = K_adapters, gr_control = Av_adapters\<rparr>"
  have s: "serves_adapters (\<lambda>q. []) (json_codec_of (\<lambda>c j. Inr c) ()) adapters_api"
    by (simp add: serves_adapters_def json_codec_of_def adapters_api_def Let_def)
  have u: "json_utf8 (json_of_adapters \<lparr>ads_adapters = [sample_card]\<rparr>)"
    by (simp add: adapters_utf8 sample_card_def utf8_def follow_ranges_def byte_of_def)
  have c: "c_pending adapters_client = [] @ ?r # []" "c_queued adapters_client = []" "c_steps adapters_client \<noteq> 0"
    "tbl_rows (c_adapters adapters_client) = []"
    by (simp_all add: adapters_client_def network_get_def new_client_def)
  have n: "{n \<in> set [''lo'', ''eth0'']. net_has_type sample_net n \<and> net_read sample_net n ''type'' \<noteq> Inr ''772''} = {''eth0''}"
    by (auto simp: sample_net_def)
  from machine_adapters_shown [OF s sample_net_listing(1,2) _ u c(1), of "''1''" "''1''" c_locale mono_font]
  show ?thesis unfolding n using c(2-4) by auto
qed

section \<open>Control of a service\<close>

text \<open>The server on Linux: the operation behind \<open>POST /service\<close>.\<close>

definition serves_control ::
  "(json, 'm, 's, msg_control) codec \<Rightarrow> ('w, 'm, 's, msg_control) api \<Rightarrow> string outcome \<Rightarrow>
   service_manager outcome \<Rightarrow> 'w unit_calls \<Rightarrow> 'w openrc_calls \<Rightarrow> bool" where
  "serves_control cd ops config manager uc ro \<longleftrightarrow>
     control_from cd = get_control \<and>
     control_service ops = (\<lambda>flds data. control_service_linux config manager uc ro flds data)"

lemma handler_control:
  assumes "req_method req = Post" and "req_target req = ''/service''"
  shows "handler version cd ops req w = run version None
    (call_with (json_parse cd) (control_from cd) (control_default cd) (control_service ops)) req w"
  using assms by (simp add: handler_def Let_def)

lemma run_cong: "call req w = call' req w \<Longrightarrow> run version d call req w = run version d call' req w"
  by (simp add: run_def)

lemma control_call:
  assumes "serves_control cd ops config manager uc ro" and "json_parse cd = parse env"
    and "utf8 (ctl_id data)" and "action_valid (ctl_action data)"
  shows "\<exists>msg. control_message (dump f) v user pass data = Inr msg \<and> handler version cd ops msg w =
    run version None (\<lambda>req. control_service_linux config manager uc ro
      \<lparr>fld_authentication = Some (''Basic '' @ encode (user @ '':'' @ pass))\<rparr> data) msg w"
proof -
  have t: "dump f (json_of_control data) = Inr (json_text f (json_of_control data))"
    "parse env (json_text f (json_of_control data)) = Inr (json_of_control data)"
    using message_text [of "json_of_control data" f env] assms(3) by (simp_all add: control_utf8)
  have n: "json_text f (json_of_control data) \<noteq> []"
    using json_text_nonempty messages(4) [of data] by (simp add: json_message_def)
  obtain msg where msg: "control_message (dump f) v user pass data = Inr msg" "req_method msg = Post"
    "req_target msg = ''/service''" "req_body msg = json_text f (json_of_control data)"
    "req_header msg Authorization = Some (''Basic '' @ encode (user @ '':'' @ pass))"
    by (simp add: control_message_def network_post_def t(1))
  have "handler version cd ops msg w = run version None
      (call_with (json_parse cd) (control_from cd) (control_default cd) (control_service ops)) msg w"
    using msg(2,3) by (rule handler_control)
  also have "\<dots> = run version None (\<lambda>req. control_service_linux config manager uc ro
      \<lparr>fld_authentication = Some (''Basic '' @ encode (user @ '':'' @ pass))\<rparr> data) msg w"
    using assms(1,2,4) msg(4,5) t(2) n by (intro run_cong)
      (simp add: call_with_def message_arg_def serves_control_def req_fields_def js_control.get_put)
  finally show ?thesis using msg(1) by blast
qed

lemma client_call:
  fixes ops :: "('w, 'm, 's, msg_control) api"
  assumes "serves_control cd ops (Inr config) (Inr Systemd) uc ro" and "json_parse cd = parse env"
    and "utf8 (ctl_id data)" and "action_valid (ctl_action data)"
    and "\<forall>c \<in> set pw. ascii c" and "pw \<noteq> [] \<longrightarrow> last pw \<noteq> CHR 0x00"
    and "load_file config [] = Inr file" and "ini_value file ''admin'' ''password'' = Some p"
  shows "\<exists>msg. control_message (dump f) v ''admin'' pw data = Inr msg \<and>
    handler version cd ops msg w =
      run version None
        (\<lambda>req. if CHR ''A'' \<in> set (encode (login pw)) then cfail (Throw Out_of_range)
           else if pw = p then control_systemd uc data else fail_with NeedsPassword) msg w"
proof -
  have l: "''admin'' @ '':'' @ pw = login pw" by (simp add: login_def)
  have b: "''Basic '' @ encode (login pw) = basic (encode (login pw))" by (simp only: basic_def)
  note a = authenticate_login [OF assms(5-8)]
  have "control_service_linux (Inr config) (Inr Systemd) uc ro
      \<lparr>fld_authentication = Some (basic (encode (login pw)))\<rparr> data w =
    (if CHR ''A'' \<in> set (encode (login pw)) then cfail (Throw Out_of_range)
     else if pw = p then control_systemd uc data else fail_with NeedsPassword) w"
    by (simp add: control_service_linux_def cbind_def a)
  then have "run version None (\<lambda>req. control_service_linux (Inr config) (Inr Systemd) uc ro
      \<lparr>fld_authentication = Some (basic (encode (login pw)))\<rparr> data) req w =
    run version None (\<lambda>req. if CHR ''A'' \<in> set (encode (login pw)) then cfail (Throw Out_of_range)
         else if pw = p then control_systemd uc data else fail_with NeedsPassword) req w" for req
    by (rule run_cong)
  then show ?thesis
    using control_call [OF assms(1-4), of f v "''admin''" pw version w] unfolding l b by auto
qed

text \<open>(C2) From the button of the client to systemd: the client sends a request for an action on any
  service whose name is UTF-8, and with the password typed for admin it makes the server run exactly that
  action when the password is the one of the configuration file, and answer with the demand for a password
  when it is not; unless the encoding of the password has a letter A, when the request fails with an
  exception, the right password included.\<close>

theorem client_controls_systemd:
  fixes ops :: "('w, 'm, 's, msg_control) api"
  assumes "serves_control cd ops (Inr config) (Inr Systemd) uc ro" and "json_parse cd = parse env"
    and "utf8 (ctl_id data)" and "action_valid (ctl_action data)"
    and "\<forall>c \<in> set pw. ascii c" and "pw \<noteq> [] \<longrightarrow> last pw \<noteq> CHR 0x00"
    and "load_file config [] = Inr file" and "ini_value file ''admin'' ''password'' = Some p"
  shows "\<exists>msg. control_message (dump f) v ''admin'' pw data = Inr msg \<and>
    handler version cd ops msg w =
      run version None
        (\<lambda>req. if CHR ''A'' \<in> set (encode (login pw)) then cfail (Throw Out_of_range)
           else if pw = p then control_systemd uc data else fail_with NeedsPassword) msg w"
  by (rule client_call) (fact assms)+

definition stop_cron :: msg_control where
  "stop_cron = \<lparr>ctl_id = ''cron'', ctl_action = Stop\<rparr>"

definition cron_codec :: "(json, payload, unit, msg_control) codec" where
  "cron_codec = json_codec_of (\<lambda>c. get_control) stop_cron"

definition counting_units :: "nat unit_calls" where
  "counting_units =
     \<lparr>uc_load = \<lambda>i. cret i, uc_call = \<lambda>p m w. (Inr (), Suc w), uc_property = \<lambda>p q. cret q,
      uc_enable_files = \<lambda>i w. (Inr (), Suc w), uc_disable_files = \<lambda>i w. (Inr (), Suc w)\<rparr>"

definition no_openrc :: "nat openrc_calls" where
  "no_openrc =
     \<lparr>ro_resolve = Some, ro_exec = \<lambda>c w. (Inr (0, []), Suc w), ro_add = \<lambda>l i w. (Inr True, Suc w),
      ro_runlevels = [], ro_in_runlevel = \<lambda>l i. cret True, ro_delete = \<lambda>l i w. (Inr True, Suc w)\<rparr>"

definition idle_openrc :: "'w openrc_calls" where
  "idle_openrc =
     \<lparr>ro_resolve = Some, ro_exec = \<lambda>c. cret (0, []), ro_add = \<lambda>l i. cret True, ro_runlevels = [],
      ro_in_runlevel = \<lambda>l i. cret True, ro_delete = \<lambda>l i. cret True\<rparr>"

definition linux_api :: "string outcome \<Rightarrow> (nat, payload, unit, msg_control) api" where
  "linux_api config =
     \<lparr>info_drives = \<lambda>f. \<lambda>w. (Inr (Inl NotImplemented), w), info_system = \<lambda>f. \<lambda>w. (Inr (Inl NotImplemented), w),
      info_updates = \<lambda>f. \<lambda>w. (Inr (Inl NotImplemented), w), info_adapters = \<lambda>f. \<lambda>w. (Inr (Inl NotImplemented), w),
      info_service = \<lambda>f. \<lambda>w. (Inr (Inl NotImplemented), w), info_services = \<lambda>f q. \<lambda>w. (Inr (Inl NotImplemented), w),
      control_shutdown = control_shutdown_linux (\<lambda>c w. (Inr (0, []), Suc w)),
      control_reboot = control_reboot_linux (\<lambda>c w. (Inr (0, []), Suc w)),
      control_service = \<lambda>f q. control_service_linux config (Inr Systemd) counting_units no_openrc f q\<rparr>"

definition cat_config :: string where
  "cat_config = ''[admin]'' @ CHR 0x0A # ''password=cat''"

lemma cat_file:
  "load_file cat_config [] =
     Inr [\<lparr>sec_name = ''admin'', sec_items = [\<lparr>item_key = ''password'', item_value = Some ''cat''\<rparr>]\<rparr>]"
  "ini_value [\<lparr>sec_name = ''admin'', sec_items = [\<lparr>item_key = ''password'', item_value = Some ''cat''\<rparr>]\<rparr>]
     ''admin'' ''password'' = Some ''cat''"
  by code_simp+

theorem client_controls_systemd_witness:
  "\<exists>msg. control_message (dump (\<lambda>q. [])) ''1'' ''admin'' ''cat'' stop_cron = Inr msg \<and>
     snd (handler ''1'' cron_codec (linux_api (Inr cat_config)) msg 0) = 1"
proof -
  let ?config = cat_config
  have e: "CHR ''A'' \<notin> set (encode (login ''cat''))" by code_simp
  have s: "serves_control cron_codec (linux_api (Inr ?config)) (Inr ?config) (Inr Systemd) counting_units no_openrc"
    "json_parse cron_codec = parse c_locale"
    by (simp_all add: serves_control_def cron_codec_def json_codec_of_def linux_api_def)
  have c: "utf8 (ctl_id stop_cron)" "action_valid (ctl_action stop_cron)"
    by (simp_all add: stop_cron_def action_valid_def utf8_def follow_ranges_def byte_of_def)
  have a: "\<forall>c \<in> set ''cat''. ascii c" "''cat'' \<noteq> [] \<longrightarrow> last ''cat'' \<noteq> CHR 0x00" by (simp_all add: ascii_def)
  obtain msg where m: "control_message (dump (\<lambda>q. [])) ''1'' ''admin'' ''cat'' stop_cron = Inr msg"
    "handler ''1'' cron_codec (linux_api (Inr ?config)) msg 0 =
      run ''1'' None (\<lambda>req. if CHR ''A'' \<in> set (encode (login ''cat'')) then cfail (Throw Out_of_range)
         else if ''cat'' = ''cat'' then control_systemd counting_units stop_cron else fail_with NeedsPassword) msg 0"
    using client_controls_systemd [OF s c a cat_file, of "\<lambda>q. []" "''1''" "''1''" 0] by blast
  have "snd (handler ''1'' cron_codec (linux_api (Inr ?config)) msg 0) = 1"
    unfolding m(2)
    by (simp add: e run_def control_systemd_def stop_cron_def counting_units_def catch_dbus_cmd_def cbind_def
        succeed_def)
  with m(1) show ?thesis by blast
qed

text \<open>(C3) From the button of the client to the bus: stopping, starting or restarting a service whose name is
  UTF-8 makes the server send systemd two messages, one that loads the unit of that name and one that calls the
  method on the object it was given, when the password is right; the client is told 200 exactly when systemd
  returned the path of a job.  With a wrong password nothing is sent.\<close>

theorem client_reaches_bus:
  fixes ops :: "(dcall list, 'm, 's, msg_control) api"
  assumes "serves_control cd ops (Inr config) (Inr Systemd) (unit_calls_of True (logs reply)) ro"
    and "json_parse cd = parse env" and "utf8 (ctl_id data)" and "CHR 0x00 \<notin> set (ctl_id data)"
    and "unit_method (ctl_action data) = Some mth"
    and "\<forall>c \<in> set pw. ascii c" and "pw \<noteq> [] \<longrightarrow> last pw \<noteq> CHR 0x00" and "CHR ''A'' \<notin> set (encode (login pw))"
    and "load_file config [] = Inr file" and "ini_value file ''admin'' ''password'' = Some p"
    and "path_of_reply (reply (load_message (ctl_id data))) = Inr path"
  shows "\<exists>msg res. control_message (dump f) v ''admin'' pw data = Inr msg \<and>
    handler version cd ops msg calls =
      (Inr (Some res), calls @ (if pw = p then [load_message (ctl_id data), method_message path mth] else [])) \<and>
    res_status res =
      (if pw \<noteq> p then 401 else if returns (path_of_reply (reply (method_message path mth))) then 200 else 500)"
proof -
  have v: "action_valid (ctl_action data)"
    using assms(5) by (auto simp: unit_method_def action_valid_def split: control_action.splits)
  note sent = control_sends [of data mth reply, OF assms(5,4,11)]
  obtain msg where msg: "control_message (dump f) v ''admin'' pw data = Inr msg"
    "handler version cd ops msg calls = run version None
      (\<lambda>req. if pw = p then control_systemd (unit_calls_of True (logs reply)) data else fail_with NeedsPassword) msg calls"
    using client_call [OF assms(1-3) v assms(6,7,9,10), of f v version calls] assms(8) by auto
  have "\<exists>res. handler version cd ops msg calls =
      (Inr (Some res), calls @ (if pw = p then [load_message (ctl_id data), method_message path mth] else [])) \<and>
    res_status res =
      (if pw \<noteq> p then 401 else if returns (path_of_reply (reply (method_message path mth))) then 200 else 500)"
    unfolding msg(2)
    by (cases "path_of_reply (reply (method_message path mth))")
      (simp_all add: run_def sent fail_with_def reply_value_def reply_error_def catch_exception_def
        void_response_def empty_response_def unauthorized_response_def)
  with msg(1) show ?thesis by blast
qed

definition bus_api :: "string \<Rightarrow> (dcall list, payload, unit, msg_control) api" where
  "bus_api config =
     (let none = (\<lambda>w. (Inr (Inl NotImplemented), w)); refuse = (\<lambda>w. (Inr (Inl NotImplemented), w)) in
      \<lparr>info_drives = \<lambda>f. none, info_system = \<lambda>f. none, info_updates = \<lambda>f. none, info_adapters = \<lambda>f. none,
       info_service = \<lambda>f. none, info_services = \<lambda>f q. none,
       control_shutdown = \<lambda>f. refuse, control_reboot = \<lambda>f. refuse,
       control_service = \<lambda>f q. control_service_linux (Inr config) (Inr Systemd)
         (unit_calls_of True (logs (\<lambda>c. Method_return [D_path ''/u/cron'']))) idle_openrc f q\<rparr>)"

theorem client_reaches_bus_witness:
  "\<exists>msg res. control_message (dump (\<lambda>q. [])) ''1'' ''admin'' ''cat'' stop_cron = Inr msg \<and>
     handler ''1'' cron_codec (bus_api cat_config) msg [] =
       (Inr (Some res), [load_message ''cron'', method_message ''/u/cron'' ''Stop'']) \<and> res_status res = 200"
proof -
  let ?reply = "\<lambda>c. Method_return [D_path ''/u/cron'']"
  have e: "CHR ''A'' \<notin> set (encode (login ''cat''))" by code_simp
  have s: "serves_control cron_codec (bus_api cat_config) (Inr cat_config) (Inr Systemd)
      (unit_calls_of True (logs ?reply)) idle_openrc" "json_parse cron_codec = parse c_locale"
    by (simp_all add: serves_control_def cron_codec_def json_codec_of_def bus_api_def Let_def)
  have c: "utf8 (ctl_id stop_cron)" "CHR 0x00 \<notin> set (ctl_id stop_cron)" "unit_method (ctl_action stop_cron) = Some ''Stop''"
    by (simp_all add: stop_cron_def unit_method_def utf8_def follow_ranges_def byte_of_def)
  have a: "\<forall>c \<in> set ''cat''. ascii c" "''cat'' \<noteq> [] \<longrightarrow> last ''cat'' \<noteq> CHR 0x00" by (simp_all add: ascii_def)
  have p: "path_of_reply (?reply x) = Inr ''/u/cron''" for x :: dcall by (simp add: path_of_reply_def c_str_id)
  show ?thesis
    using client_reaches_bus [of cron_codec "bus_api cat_config" cat_config ?reply, OF s c a e cat_file p,
        of "\<lambda>q. []" "''1''" "''1''" "[]"]
    by (simp add: p stop_cron_def)
qed


definition dog_request :: request where
  "dog_request = (post_message ''1'' ''/service'')\<lparr>req_header := [Authorization \<mapsto> basic (encode (login ''dog''))]\<rparr>"


text \<open>(C21) Anyone who can reach the port leads the server into undefined behaviour: the body of
  \<open>POST /service\<close> is read and converted before the request is authenticated, and one with the number
  of no action is enough, whatever the headers of the request are.\<close>

theorem control_body_undefined:
  fixes ops :: "('w, 'm, 's, msg_control) api"
  assumes "req_method req = Post" and "req_target req = ''/service''"
    and "req_body req = json_text f (JObject [(''action'', JUnsigned n), (''id'', JString s)])"
    and "utf8 s" and "(8 :: 32 word) \<le> ucast n"
    and "json_parse cd = parse env" and "control_from cd = get_control"
  shows "fst (handler version cd ops req w) = Inl UB"
proof -
  let ?j = "JObject [(''action'', JUnsigned n), (''id'', JString s)]"
  have keys: "utf8 ''action''" "utf8 ''id''" by (rule ascii_utf8, simp add: ascii_text_def byte_of_def)+
  have p: "parse env (json_text f ?j) = Inr ?j"
    using assms(4) keys by (intro parse_json_text) (simp_all add: less_char_def)
  have u: "get_control ?j = Inl UB"
    unfolding get_control_UB_iff using assms(5) by (simp add: get_u32_def)
  have n: "json_text f ?j \<noteq> []" by simp
  have m: "message_arg (json_parse cd) (control_from cd) (control_default cd) (req_body req) = Inl UB"
    unfolding message_arg_def assms(3,6,7) using n p u by simp
  show ?thesis
    unfolding handler_control [OF assms(1,2)] by (simp add: run_def call_with_def m catch_exception_def)
qed

theorem control_body_undefined_witness:
  "fst (handler ''1'' cron_codec (linux_api (Inr cat_config))
     ((post_message ''1'' ''/service'')\<lparr>req_body := ''{'' @ [CHR 0x22] @ ''action'' @ [CHR 0x22] @ '':9,'' @ [CHR 0x22] @ ''id'' @
        [CHR 0x22] @ '':'' @ [CHR 0x22] @ ''cron'' @ [CHR 0x22] @ ''}''\<rparr>) 0) = Inl UB"
proof (rule control_body_undefined [where n = 9 and s = "''cron''" and f = "\<lambda>q. []" and env = c_locale])
  show "(8 :: 32 word) \<le> ucast (9 :: 64 word)" by (simp add: word_le_nat_alt)
  show "utf8 ''cron''" by (rule ascii_utf8) (simp add: ascii_text_def byte_of_def)
qed (simp_all add: post_message_def cron_codec_def json_codec_of_def quoted_def json_escape_def byte_of_def
  to_string_small hex_digit_def)

section \<open>Adding a server\<close>

lemma system_refused:
  assumes "fst (handler version cd ops system_message w) = Inr (Some r)"
  shows "res_status r \<noteq> 200"
  using assms
  by (auto simp: handler_def Let_def system_message_def run_def reply_value_def reply_error_def catch_exception_def
    empty_response_def unauthorized_response_def bind_eq_Inr_iff
    split: prod.splits sum.splits fault.splits errors.splits)

text \<open>(C4) No server can be added: the client finds the server, but asks it for the message of an
  earlier protocol, which the server refuses, so the list of the client is the same afterwards, whatever the
  machine answers about itself.\<close>

theorem no_server_added:
  "check_if_server (probe_server (handler version cd ops) w) = Inr True \<and>
   change_server_options read (probe_server (handler version cd ops) w) index ip m = Inr m"
proof -
  let ?p = "probe_server (handler version cd ops) w"
  have found: "check_if_server ?p = Inr True"
    by (simp add: check_if_server_def probe_server_def handler_def head_message_def answer_to_def empty_response_def)
  have "get_system_info read ?p = Inr no_info"
    using system_refused [of version cd ops]
    by (auto simp: get_system_info_def probe_server_def answer_to_def split: prod.splits sum.splits option.splits)
  with found show ?thesis by (simp add: change_server_options_def no_info_def)
qed

section \<open>Power\<close>

text \<open>Anyone turns the machine off: a request for \<open>/power/shutdown\<close> runs the command whatever
  its header is, and the client sends it without one.\<close>

theorem power_unprotected:
  fixes ops :: "('w, 'm, 's, 'c) api"
  assumes "control_shutdown ops = control_shutdown_linux sh"
    and "req_method req = Post" and "req_target req = ''/power/shutdown''"
  shows "snd (handler version cd ops req w) = snd (power_command ''poweroff now'' ''shutdown now'' sh w) \<and>
    req_header (shutdown_message v) Authorization = None"
  using assms
  by (simp add: handler_def Let_def run_def control_shutdown_linux_def shutdown_message_def post_message_def
    split: prod.split)

theorem power_unprotected_witness:
  "snd (handler ''1'' cron_codec (linux_api (Inr [])) (shutdown_message ''1'') 0) = 1"
proof -
  have "req_method (shutdown_message ''1'') = Post" "req_target (shutdown_message ''1'') = ''/power/shutdown''"
    by (simp_all add: shutdown_message_def post_message_def)
  moreover have "control_shutdown (linux_api (Inr [])) = control_shutdown_linux (\<lambda>c w. (Inr (0, []), Suc w))"
    by (simp add: linux_api_def)
  ultimately show ?thesis
    using power_unprotected [of "linux_api (Inr [])" "\<lambda>c w. (Inr (0, []), Suc w)" "shutdown_message ''1''" "''1''" cron_codec]
    by (simp add: power_command_def cbind_def)
qed


end
